(* ===== verification/Emlog_Prelude.thy ===== *)
theory Emlog_Prelude
  imports Main "HOL-Library.Word" "HOL-Library.Sublist"
begin

text \<open>
  The JavaScript substrate shared by every component of the model of
  \<^verbatim>\<open>src/obsidian-emlog/main.ts\<close>.

  A JavaScript string is a sequence of UTF-16 code units; it is modelled as a list
  of 16-bit words (\<open>jstr\<close>), so that \<open>length\<close>, \<open>substring\<close> and \<open>slice\<close>
  count what JavaScript counts, also on the Chinese text the plugin handles.
  ASCII literals of the source are written \<open>js ''...''\<close>; other literals as lists of
  code units.  A value the code reads from parsed JSON, from the metadata cache or from
  the persisted state is a \<open>jsval\<close>, with JavaScript's truthiness, \<open>||\<close>,
  \<open>??\<close>, optional chaining and \<open>String(v)\<close>.  A plain object whose insertion
  order matters is an association list updated in place (\<open>obj_set\<close>).
\<close>

named_theorems js_simps "evaluation rules of the JavaScript string model"

type_synonym cu = "16 word"

type_synonym jstr = "cu list"

definition ch :: "char \<Rightarrow> cu" where
  "ch c = of_nat (of_char c)"

definition js :: "string \<Rightarrow> jstr" where
  "js s = map ch s"

subsection \<open>Code-unit classes\<close>

text \<open>ECMAScript \<^emph>\<open>LineTerminator\<close>: what \<open>^\<close>, \<open>$\<close> (flag m) and \<open>.\<close> of a regular
  expression treat as a line end.\<close>

definition is_lt :: "cu \<Rightarrow> bool" where
  "is_lt c \<longleftrightarrow> c = 10 \<or> c = 13 \<or> c = 0x2028 \<or> c = 0x2029"

text \<open>\<^emph>\<open>WhiteSpace\<close> and \<^emph>\<open>LineTerminator\<close>: what \<open>String.prototype.trim\<close> removes
  (the space separators of Unicode category Zs included).\<close>

definition is_ws :: "cu \<Rightarrow> bool" where
  "is_ws c \<longleftrightarrow> (9 \<le> c \<and> c \<le> 13) \<or> c = 32 \<or> c = 0xA0 \<or> c = 0x1680
     \<or> (0x2000 \<le> c \<and> c \<le> 0x200A) \<or> c = 0x2028 \<or> c = 0x2029 \<or> c = 0x202F
     \<or> c = 0x205F \<or> c = 0x3000 \<or> c = 0xFEFF"

definition is_digit :: "cu \<Rightarrow> bool" where
  "is_digit c \<longleftrightarrow> 48 \<le> c \<and> c \<le> 57"

subsection \<open>Searching: startsWith, indexOf, includes\<close>

fun starts_with :: "jstr \<Rightarrow> jstr \<Rightarrow> bool" where
  "starts_with s [] = True"
| "starts_with [] (p # ps) = False"
| "starts_with (c # cs) (p # ps) = (c = p \<and> starts_with cs ps)"

text \<open>Position of the first occurrence of a needle, as \<open>indexOf\<close> scans.\<close>

fun find_sub :: "jstr \<Rightarrow> jstr \<Rightarrow> nat option" where
  "find_sub n [] = (if n = [] then Some 0 else None)"
| "find_sub n (c # cs) =
     (if starts_with (c # cs) n then Some 0 else map_option Suc (find_sub n cs))"

text \<open>\<open>s.indexOf(n, from)\<close>: \<open>-1\<close> when absent; a start beyond the end is clamped.\<close>

definition index_of :: "jstr \<Rightarrow> jstr \<Rightarrow> nat \<Rightarrow> int" where
  "index_of s n from =
     (case find_sub n (drop from s) of
        None \<Rightarrow> -1
      | Some i \<Rightarrow> int (min from (length s) + i))"

definition str_includes :: "jstr \<Rightarrow> jstr \<Rightarrow> bool" where
  "str_includes s n \<longleftrightarrow> find_sub n s \<noteq> None"

subsection \<open>slice and substring\<close>

text \<open>\<open>slice\<close> counts a negative index from the end; \<open>substring\<close> clamps it to 0 and
  swaps its bounds when they are reversed.\<close>

definition rel_index :: "int \<Rightarrow> nat \<Rightarrow> nat" where
  "rel_index k len = (if k < 0 then nat (max 0 (int len + k)) else min (nat k) len)"

definition slice :: "jstr \<Rightarrow> int \<Rightarrow> int \<Rightarrow> jstr" where
  "slice s a b =
     (let i = rel_index a (length s); j = rel_index b (length s) in take (j - i) (drop i s))"

definition slice_from :: "jstr \<Rightarrow> int \<Rightarrow> jstr" where
  "slice_from s a = slice s a (int (length s))"

definition clamp_index :: "int \<Rightarrow> nat \<Rightarrow> nat" where
  "clamp_index k len = min (nat k) len"

definition substring :: "jstr \<Rightarrow> int \<Rightarrow> int \<Rightarrow> jstr" where
  "substring s a b =
     (let i = clamp_index a (length s); j = clamp_index b (length s)
      in take (max i j - min i j) (drop (min i j) s))"

definition substring_from :: "jstr \<Rightarrow> int \<Rightarrow> jstr" where
  "substring_from s a = substring s a (int (length s))"

subsection \<open>trim, split, join\<close>

definition trim :: "jstr \<Rightarrow> jstr" where
  "trim s = rev (dropWhile is_ws (rev (dropWhile is_ws s)))"

text \<open>\<open>s.split(d)\<close> for a one-unit separator: \<open>''.split(d)\<close> is \<open>['']\<close>.\<close>

fun split_on :: "cu \<Rightarrow> jstr \<Rightarrow> jstr list" where
  "split_on d [] = [[]]"
| "split_on d (c # cs) =
     (let ws = split_on d cs in if c = d then [] # ws else (c # hd ws) # tl ws)"

text \<open>\<open>xs.join(sep)\<close>.\<close>

fun join :: "jstr \<Rightarrow> jstr list \<Rightarrow> jstr" where
  "join sep [] = []"
| "join sep [w] = w"
| "join sep (w # v # ws) = w @ sep @ join sep (v # ws)"

subsection \<open>JavaScript values\<close>

text \<open>The values the plugin handles.  Numbers are integers (\<open>Num\<close>) or \<open>NaN\<close>
  (\<open>Num_NaN\<close>), the result of \<open>Number(v)\<close> on a value that is not numeric.\<close>

datatype jsval =
    Undef
  | Null
  | Bool bool
  | Num int
  | Num_NaN
  | Str jstr
  | Arr "jsval list"
  | Obj "(jstr \<times> jsval) list"

fun truthy :: "jsval \<Rightarrow> bool" where
  "truthy Undef = False"
| "truthy Null = False"
| "truthy (Bool b) = b"
| "truthy (Num n) = (n \<noteq> 0)"
| "truthy Num_NaN = False"
| "truthy (Str s) = (s \<noteq> [])"
| "truthy (Arr _) = True"
| "truthy (Obj _) = True"

definition nullish :: "jsval \<Rightarrow> bool" where
  "nullish v \<longleftrightarrow> v = Undef \<or> v = Null"

text \<open>\<open>a || b\<close> and \<open>a ?? b\<close>.\<close>

definition js_or :: "jsval \<Rightarrow> jsval \<Rightarrow> jsval" where
  "js_or a b = (if truthy a then a else b)"

definition js_coalesce :: "jsval \<Rightarrow> jsval \<Rightarrow> jsval" where
  "js_coalesce a b = (if nullish a then b else a)"

text \<open>Property read with optional chaining, \<open>v?.k\<close>: \<open>undefined\<close> for a missing key
  or a value that is not an object; \<open>get_strict\<close> is \<open>v.k\<close>, which throws a
  TypeError (\<open>None\<close>) on \<open>null\<close> and \<open>undefined\<close>.\<close>

fun get :: "jsval \<Rightarrow> jstr \<Rightarrow> jsval" where
  "get (Obj ps) k = (case map_of ps k of Some v \<Rightarrow> v | None \<Rightarrow> Undef)"
| "get _ k = Undef"

definition get_strict :: "jsval \<Rightarrow> jstr \<Rightarrow> jsval option" where
  "get_strict v k = (if nullish v then None else Some (get v k))"

subsection \<open>Numbers as text\<close>

fun digits :: "nat \<Rightarrow> jstr" where
  "digits n = (if n < 10 then [of_nat (48 + n)] else digits (n div 10) @ [of_nat (48 + n mod 10)])"

declare digits.simps [simp del]

definition int_str :: "int \<Rightarrow> jstr" where
  "int_str n = (if n < 0 then ch CHR ''-'' # digits (nat (- n)) else digits (nat n))"

text \<open>\<open>String(v)\<close>; an array joins its elements' strings with commas, \<open>null\<close> and
  \<open>undefined\<close> elements giving the empty string.\<close>

fun js_to_string :: "jsval \<Rightarrow> jstr" where
  "js_to_string Undef = js ''undefined''"
| "js_to_string Null = js ''null''"
| "js_to_string (Bool b) = (if b then js ''true'' else js ''false'')"
| "js_to_string (Num n) = int_str n"
| "js_to_string Num_NaN = js ''NaN''"
| "js_to_string (Str s) = s"
| "js_to_string (Arr xs) =
     join (js '','') (map (\<lambda>x. if x = Undef \<or> x = Null then [] else js_to_string x) xs)"
| "js_to_string (Obj _) = js ''[object Object]''"

subsection \<open>Objects with insertion order\<close>

text \<open>Assignment \<open>o[k] = v\<close> on a plain object: a present key keeps its place, a new
  key goes last.\<close>

fun obj_set :: "('k \<times> 'v) list \<Rightarrow> 'k \<Rightarrow> 'v \<Rightarrow> ('k \<times> 'v) list" where
  "obj_set [] k v = [(k, v)]"
| "obj_set ((a, b) # ps) k v = (if a = k then (k, v) # ps else (a, b) # obj_set ps k v)"

subsection \<open>JSON.stringify of a string\<close>

definition hex_digit :: "nat \<Rightarrow> cu" where
  "hex_digit d = (if d < 10 then of_nat (48 + d) else of_nat (87 + d))"

definition u_escape :: "cu \<Rightarrow> jstr" where
  "u_escape c = 92 # js ''u'' @ map (\<lambda>k. hex_digit (unat c div 16 ^ k mod 16)) [3, 2, 1, 0]"

definition is_high_sur :: "cu \<Rightarrow> bool" where
  "is_high_sur c \<longleftrightarrow> 0xD800 \<le> c \<and> c \<le> 0xDBFF"

definition is_low_sur :: "cu \<Rightarrow> bool" where
  "is_low_sur c \<longleftrightarrow> 0xDC00 \<le> c \<and> c \<le> 0xDFFF"

text \<open>QuoteJSONString: the short escapes, \<open>\u00XX\<close> for the other control units,
  and \<open>\uXXXX\<close> for a surrogate that is not part of a pair.\<close>

fun json_units :: "jstr \<Rightarrow> jstr" where
  "json_units [] = []"
| "json_units (c # cs) =
     (if c = 8 then [92, ch CHR ''b''] @ json_units cs
      else if c = 9 then [92, ch CHR ''t''] @ json_units cs
      else if c = 10 then [92, ch CHR ''n''] @ json_units cs
      else if c = 12 then [92, ch CHR ''f''] @ json_units cs
      else if c = 13 then [92, ch CHR ''r''] @ json_units cs
      else if c = 34 then [92, 34] @ json_units cs
      else if c = 92 then [92, 92] @ json_units cs
      else if c < 32 then u_escape c @ json_units cs
      else if is_high_sur c then
        (case cs of d # ds \<Rightarrow> if is_low_sur d then c # d # json_units ds else u_escape c @ json_units cs
         | [] \<Rightarrow> u_escape c)
      else if is_low_sur c then u_escape c @ json_units cs
      else c # json_units cs)"

definition json_quote :: "jstr \<Rightarrow> jstr" where
  "json_quote s = 34 # json_units s @ [34]"

subsection \<open>The replacement string of String.prototype.replace\<close>

text \<open>GetSubstitution: in the replacement text \<open>$$\<close> is a dollar, \<open>$&\<close> the match,
  \<open>$`\<close> the text before it, \<open>$'\<close> the text after it, \<open>$n\<close> and \<open>$nn\<close> a
  capture group that exists (an unmatched group gives the empty string); any other
  \<open>$\<close> stands for itself.  \<open>caps\<close> lists the capture groups of the pattern.\<close>

definition digit_val :: "cu \<Rightarrow> nat" where
  "digit_val d = unat d - 48"

definition cap_text :: "jstr option list \<Rightarrow> nat \<Rightarrow> jstr" where
  "cap_text caps n = (case caps ! (n - 1) of Some t \<Rightarrow> t | None \<Rightarrow> [])"

fun get_substitution :: "jstr \<Rightarrow> jstr \<Rightarrow> jstr \<Rightarrow> jstr option list \<Rightarrow> jstr \<Rightarrow> jstr" where
  "get_substitution m pre post caps [] = []"
| "get_substitution m pre post caps (c # r) =
     (if c \<noteq> 36 then c # get_substitution m pre post caps r
      else (case r of
        [] \<Rightarrow> [36]
      | d # r' \<Rightarrow>
          if d = 36 then 36 # get_substitution m pre post caps r'
          else if d = 38 then m @ get_substitution m pre post caps r'
          else if d = 96 then pre @ get_substitution m pre post caps r'
          else if d = 39 then post @ get_substitution m pre post caps r'
          else if is_digit d then
            (case r' of
               e # r'' \<Rightarrow>
                 if is_digit e \<and> 1 \<le> 10 * digit_val d + digit_val e
                    \<and> 10 * digit_val d + digit_val e \<le> length caps
                 then cap_text caps (10 * digit_val d + digit_val e)
                        @ get_substitution m pre post caps r''
                 else if 1 \<le> digit_val d \<and> digit_val d \<le> length caps
                 then cap_text caps (digit_val d) @ get_substitution m pre post caps r'
                 else 36 # get_substitution m pre post caps r
             | [] \<Rightarrow>
                 if 1 \<le> digit_val d \<and> digit_val d \<le> length caps
                 then cap_text caps (digit_val d)
                 else 36 # get_substitution m pre post caps r)
          else 36 # get_substitution m pre post caps r))"

subsection \<open>Text without line terminators\<close>

definition lt_free :: "jstr \<Rightarrow> bool" where
  "lt_free s \<longleftrightarrow> (\<forall>c\<in>set s. \<not> is_lt c)"

subsection \<open>Number(v)\<close>

text \<open>\<open>Number(v)\<close> on the values the plugin converts: \<open>None\<close> is \<open>NaN\<close>.  A string
  is trimmed; the empty string is 0 and a signed decimal integer literal its value.
  The other numeric literal forms (fractions, exponents, hexadecimal, \<open>Infinity\<close>)
  lie outside the integer model of numbers and give \<open>None\<close>.\<close>

definition dec_val :: "jstr \<Rightarrow> int" where
  "dec_val ds = foldl (\<lambda>n d. 10 * n + int (unat d - 48)) 0 ds"

definition str_to_number :: "jstr \<Rightarrow> int option" where
  "str_to_number s =
     (let t = trim s in
      if t = [] then Some 0
      else if list_all is_digit t then Some (dec_val t)
      else (case t of
              c # r \<Rightarrow>
                if r \<noteq> [] \<and> list_all is_digit r then
                  (if c = ch CHR ''-'' then Some (- dec_val r)
                   else if c = ch CHR ''+'' then Some (dec_val r) else None)
                else None
            | [] \<Rightarrow> None))"

fun to_number :: "jsval \<Rightarrow> int option" where
  "to_number Undef = None"
| "to_number Null = Some 0"
| "to_number (Bool b) = Some (if b then 1 else 0)"
| "to_number (Num n) = Some n"
| "to_number Num_NaN = None"
| "to_number (Str s) = str_to_number s"
| "to_number (Arr xs) = str_to_number (js_to_string (Arr xs))"
| "to_number (Obj _) = None"

text \<open>\<open>String(Number(v))\<close>: \<open>NaN\<close> prints as such.\<close>

definition num_str :: "int option \<Rightarrow> jstr" where
  "num_str n = (case n of Some i \<Rightarrow> int_str i | None \<Rightarrow> js ''NaN'')"

subsection \<open>JSON.stringify of a parsed value\<close>

text \<open>Members whose value is \<open>undefined\<close> are left out of an object and written as
  \<open>null\<close> in an array; \<open>undefined\<close> itself has no JSON text and prints as
  \<open>undefined\<close> where the source interpolates the result into a template.\<close>

fun json_stringify :: "jsval \<Rightarrow> jstr" where
  "json_stringify Undef = js ''undefined''"
| "json_stringify Null = js ''null''"
| "json_stringify (Bool b) = (if b then js ''true'' else js ''false'')"
| "json_stringify (Num n) = int_str n"
| "json_stringify Num_NaN = js ''null''"
| "json_stringify (Str s) = json_quote s"
| "json_stringify (Arr xs) =
     [91] @ join [44] (map (\<lambda>x. if x = Undef then js ''null'' else json_stringify x) xs) @ [93]"
| "json_stringify (Obj ps) =
     [123] @ join [44] (map (\<lambda>kv. json_quote (fst kv) @ [58] @ json_stringify (snd kv))
                         (filter (\<lambda>kv. snd kv \<noteq> Undef) ps)) @ [125]"

subsection \<open>URLSearchParams.toString\<close>

text \<open>The \<^emph>\<open>application/x-www-form-urlencoded\<close> serializer: each name and value is
  encoded as UTF-8 (an unpaired surrogate becomes U+FFFD), every byte outside
  \<open>*-._\<close>, digits and ASCII letters is written \<open>%XX\<close> (upper-case hex) and a space
  as \<open>+\<close>; the pairs are joined with \<open>&\<close>.\<close>

fun code_points :: "jstr \<Rightarrow> nat list" where
  "code_points [] = []"
| "code_points (c # cs) =
     (if is_high_sur c then
        (case cs of
           d # ds \<Rightarrow>
             if is_low_sur d then (0x10000 + (unat c - 0xD800) * 0x400 + (unat d - 0xDC00)) # code_points ds
             else 0xFFFD # code_points cs
         | [] \<Rightarrow> [0xFFFD])
      else if is_low_sur c then 0xFFFD # code_points cs
      else unat c # code_points cs)"

definition utf8_bytes :: "nat \<Rightarrow> nat list" where
  "utf8_bytes cp =
     (if cp < 0x80 then [cp]
      else if cp < 0x800 then [0xC0 + cp div 64, 0x80 + cp mod 64]
      else if cp < 0x10000 then [0xE0 + cp div 4096, 0x80 + cp div 64 mod 64, 0x80 + cp mod 64]
      else [0xF0 + cp div 262144, 0x80 + cp div 4096 mod 64, 0x80 + cp div 64 mod 64, 0x80 + cp mod 64])"

definition hex_upper :: "nat \<Rightarrow> cu" where
  "hex_upper d = (if d < 10 then of_nat (48 + d) else of_nat (55 + d))"

definition form_safe :: "nat \<Rightarrow> bool" where
  "form_safe b \<longleftrightarrow> b = 0x2A \<or> b = 0x2D \<or> b = 0x2E \<or> b = 0x5F
     \<or> (0x30 \<le> b \<and> b \<le> 0x39) \<or> (0x41 \<le> b \<and> b \<le> 0x5A) \<or> (0x61 \<le> b \<and> b \<le> 0x7A)"

definition form_byte :: "nat \<Rightarrow> jstr" where
  "form_byte b =
     (if b = 0x20 then [0x2B] else if form_safe b then [of_nat b]
      else [0x25, hex_upper (b div 16), hex_upper (b mod 16)])"

definition form_encode :: "jstr \<Rightarrow> jstr" where
  "form_encode s = concat (map form_byte (concat (map utf8_bytes (code_points s))))"

definition url_search_params :: "(jstr \<times> jstr) list \<Rightarrow> jstr" where
  "url_search_params ps = join [0x26] (map (\<lambda>(k, v). form_encode k @ [0x3D] @ form_encode v) ps)"

subsection \<open>Host objects\<close>

text \<open>A vault file (\<open>TFile\<close>): its vault path, its name and its name without the
  extension.\<close>

record tfile =
  tf_path :: jstr
  tf_name :: jstr
  tf_basename :: jstr

subsection \<open>Lemmas\<close>

lemma js_Nil [simp]: "js [] = []"
  by (simp add: js_def)

lemma js_Cons [simp]: "js (c # s) = ch c # js s"
  by (simp add: js_def)

lemma js_append [simp]: "js (a @ b) = js a @ js b"
  by (simp add: js_def)

lemma length_js [simp]: "length (js s) = length s"
  by (simp add: js_def)

lemma of_char_less_64k: "of_char c < (65536::nat)"
  using nat_of_char_less_256[of c] by linarith

lemma unat_ch: "unat (ch c) = of_char c"
  using of_char_less_64k[of c] by (simp add: ch_def unat_of_nat)

lemma ch_inj [simp]: "ch a = ch b \<longleftrightarrow> a = b"
  by (metis of_char_eq_iff unat_ch)

lemma ch_newline [simp]: "ch CHR ''\<newline>'' = 10"
  by (simp add: ch_def)

lemma ch_less_256: "ch c < 256"
proof -
  have "unat (ch c) < 256" by (simp add: unat_ch nat_of_char_less_256)
  then show ?thesis by (simp add: word_less_nat_alt)
qed

lemma is_lt_ch [simp]: "is_lt (ch c) \<longleftrightarrow> ch c = 10 \<or> ch c = 13"
  using ch_less_256[of c] by (auto simp: is_lt_def)

lemma get_substitution_no_dollar [simp]:
  "36 \<notin> set r \<Longrightarrow> get_substitution m pre post caps r = r"
  by (induction r) auto

lemma starts_with_prefix [simp]: "starts_with s p = prefix p s"
  by (induction s p rule: starts_with.induct) auto

lemma find_sub_Some_iff:
  "find_sub n s = Some i \<longleftrightarrow>
     i \<le> length s \<and> prefix n (drop i s) \<and> (\<forall>j<i. \<not> prefix n (drop j s))"
proof (induction s arbitrary: i)
  case Nil
  then show ?case by auto
next
  case (Cons c cs)
  show ?case
  proof (cases "prefix n (c # cs)")
    case True
    then show ?thesis by auto
  next
    case False
    show ?thesis
    proof (cases i)
      case 0
      then show ?thesis using False by auto
    next
      case (Suc i')
      have "(\<forall>j<Suc i'. \<not> prefix n (drop j (c # cs))) \<longleftrightarrow> (\<forall>j<i'. \<not> prefix n (drop j cs))"
        using False by (auto simp: less_Suc_eq_0_disj)
      then show ?thesis using False Cons.IH[of i'] Suc by auto
    qed
  qed
qed

lemma index_of_found:
  "find_sub n (drop from s) = Some i \<Longrightarrow> from \<le> length s \<Longrightarrow> index_of s n from = int (from + i)"
  by (simp add: index_of_def)

lemma slice_nat:
  "i \<le> j \<Longrightarrow> j \<le> length s \<Longrightarrow> slice s (int i) (int j) = take (j - i) (drop i s)"
  by (simp add: slice_def rel_index_def)

lemma slice_from_nat: "i \<le> length s \<Longrightarrow> slice_from s (int i) = drop i s"
  by (simp add: slice_from_def slice_def rel_index_def)

lemma substring_from_nat: "i \<le> length s \<Longrightarrow> substring_from s (int i) = drop i s"
  by (simp add: substring_from_def substring_def clamp_index_def)

lemma lt_free_simps [simp]:
  "lt_free []" "lt_free (c # s) \<longleftrightarrow> \<not> is_lt c \<and> lt_free s"
  "lt_free (s @ t) \<longleftrightarrow> lt_free s \<and> lt_free t"
  by (auto simp: lt_free_def)

lemma lt_free_takeWhile [simp]: "lt_free (takeWhile (\<lambda>c. \<not> is_lt c) t)"
  by (auto simp: lt_free_def dest: set_takeWhileD)

lemma takeWhile_lt_free [simp]: "lt_free t \<Longrightarrow> takeWhile (\<lambda>c. \<not> is_lt c) t = t"
  by (simp add: lt_free_def)

subsection \<open>Code points\<close>

lemma high_not_low: "is_high_sur c \<Longrightarrow> \<not> is_low_sur c"
  by (auto simp: is_high_sur_def is_low_sur_def word_le_nat_alt)

text \<open>A high surrogate followed by a unit that is not a low surrogate is unpaired,
  wherever it stands: its code point is U+FFFD.\<close>

lemma code_points_lone_high:
  assumes "is_high_sur h" "\<not> is_low_sur c"
  shows "0xFFFD \<in> set (code_points (a @ h # c # r))"
proof (induction "length a" arbitrary: a rule: less_induct)
  case less
  show ?case
  proof (cases a)
    case Nil
    then show ?thesis using assms by simp
  next
    case (Cons x a')
    show ?thesis
    proof (cases "is_high_sur x")
      case hx: True
      show ?thesis
      proof (cases a')
        case Nil
        then show ?thesis using Cons hx assms(1) high_not_low[of h] by simp
      next
        case (Cons d ds)
        show ?thesis
        proof (cases "is_low_sur d")
          case True
          have "0xFFFD \<in> set (code_points (ds @ h # c # r))"
            using less Cons \<open>a = x # a'\<close> by simp
          then show ?thesis using \<open>a = x # a'\<close> Cons hx True by simp
        next
          case False
          then show ?thesis using \<open>a = x # a'\<close> Cons hx by simp
        qed
      qed
    next
      case hx: False
      have "0xFFFD \<in> set (code_points (a' @ h # c # r))" using less Cons by simp
      then show ?thesis using Cons hx by (cases "a' @ h # c # r") auto
    qed
  qed
qed

subsection \<open>Splitting and joining\<close>

lemma split_on_no_sep [simp]: "d \<notin> set a \<Longrightarrow> split_on d a = [a]"
  by (induction a) (auto simp: Let_def)

lemma split_on_append_sep: "d \<notin> set a \<Longrightarrow> split_on d (a @ d # r) = a # split_on d r"
  by (induction a) (auto simp: Let_def)

lemma split_on_join:
  "\<forall>l\<in>set ls. d \<notin> set l \<Longrightarrow> ls \<noteq> [] \<Longrightarrow> split_on d (join [d] ls) = ls"
  by (induction "[d]" ls rule: join.induct) (auto simp: split_on_append_sep)

subsection \<open>Numbers printed and read back\<close>

lemma digits_nonempty [simp]: "digits n \<noteq> []"
  by (subst digits.simps) simp

lemma digit_unat: "m < 10 \<Longrightarrow> unat (48 + word_of_nat m :: cu) = 48 + m"
  by (simp add: unat_word_ariths unat_of_nat)

lemma digit_char: "m < 10 \<Longrightarrow> is_digit (48 + word_of_nat m :: cu) \<and> unat (48 + word_of_nat m :: cu) - 48 = m"
  by (simp add: is_digit_def word_le_nat_alt digit_unat)

lemma digits_all_digit: "list_all is_digit (digits n)"
  by (induction n rule: digits.induct) (subst digits.simps, simp add: digit_char)

lemma dec_val_snoc: "dec_val (xs @ [d]) = 10 * dec_val xs + int (unat d - 48)"
  by (simp add: dec_val_def)

lemma dec_val_digits: "dec_val (digits n) = int n"
proof (induction n rule: digits.induct)
  case (1 n)
  show ?case
  proof (cases "n < 10")
    case True
    then show ?thesis by (subst digits.simps) (simp add: dec_val_def digit_char)
  next
    case False
    then have "dec_val (digits n) = 10 * int (n div 10) + int (n mod 10)"
      using "1.IH" by (subst digits.simps) (simp add: dec_val_snoc digit_char)
    then show ?thesis by (simp add: zdiv_int zmod_int)
  qed
qed

lemma digit_not_ws: "is_digit c \<Longrightarrow> \<not> is_ws c"
  by (auto simp: is_digit_def is_ws_def word_le_nat_alt)

lemma dropWhile_none: "list_all (\<lambda>c. \<not> P c) s \<Longrightarrow> dropWhile P s = s"
  by (induction s) auto

lemma trim_no_ws: "list_all (\<lambda>c. \<not> is_ws c) s \<Longrightarrow> trim s = s"
  by (simp add: trim_def dropWhile_none)

lemma trim_digits: "list_all is_digit s \<Longrightarrow> trim s = s"
  by (rule trim_no_ws) (auto simp: list_all_iff digit_not_ws)

lemma str_to_number_int_str: "str_to_number (int_str i) = Some i"
proof (cases "i < 0")
  case True
  have "\<not> is_digit (ch CHR ''-'')" by (simp add: is_digit_def ch_def)
  moreover have "\<not> is_ws (ch CHR ''-'')" by (simp add: is_ws_def ch_def)
  ultimately show ?thesis using True digits_all_digit[of "nat (- i)"]
    by (simp add: str_to_number_def int_str_def trim_no_ws dec_val_digits list_all_iff digit_not_ws)
next
  case False
  then show ?thesis using digits_all_digit[of "nat i"]
    by (simp add: str_to_number_def int_str_def trim_digits dec_val_digits)
qed

declare ch_def [js_simps] digit_val_def [js_simps] cap_text_def [js_simps]

declare is_lt_def [js_simps] is_ws_def [js_simps] is_digit_def [js_simps]
  is_high_sur_def [js_simps] is_low_sur_def [js_simps] hex_digit_def [js_simps]
  u_escape_def [js_simps] json_quote_def [js_simps] int_str_def [js_simps]
  index_of_def [js_simps] slice_def [js_simps] slice_from_def [js_simps]
  rel_index_def [js_simps] substring_def [js_simps] substring_from_def [js_simps]
  clamp_index_def [js_simps] trim_def [js_simps] str_includes_def [js_simps]
  js_or_def [js_simps] js_coalesce_def [js_simps] nullish_def [js_simps]
  get_strict_def [js_simps]

end
