(* ===== verification/Emlog_FrontMatter.thy ===== *)
theory Emlog_FrontMatter
  imports Emlog_Prelude
begin

text \<open>
  The header block (YAML front matter) of a note: \<open>removeFromContent\<close>, which strips it
  before publishing, and \<open>upsertFrontmatterKeys\<close>, which writes the publish result back
  into it (\<^verbatim>\<open>main.ts\<close> lines 256--264 and 577--614).

  \<open>upsertInYaml\<close> builds, for every key, the regular expression
  \<^verbatim>\<open>new RegExp(`^${k}\s*:\s*.*$`, 'm')\<close>.  In a template literal \<open>\s\<close> is the escape
  of the letter \<open>s\<close>, so the pattern the engine receives is \<open>^k s* : s* .* $\<close> with
  a literal letter \<open>s\<close>: a line matches when it starts with the key, then any number
  of letters \<open>s\<close>, then a colon.  \<open>key_at\<close> is that pattern at one position (the
  length of the match, which runs to the end of the line) and \<open>find_key\<close> the engine's
  leftmost search over the positions where \<open>^\<close> holds (the start of the text and
  the start of every line).  The keys the plugin writes contain no regular-expression
  metacharacter, so \<open>escapeRegExp\<close> leaves them as they are and the key is matched
  literally.
\<close>

subsection \<open>removeFromContent\<close>

definition fm_open :: jstr where
  "fm_open = js ''---\<newline>''"

definition remove_from_content :: "jstr \<Rightarrow> jstr" where
  "remove_from_content content =
     (if \<not> starts_with content fm_open then content
      else (let e = index_of content (js ''\<newline>---\<newline>'') 4 in
            if e = -1 then content else substring_from content (e + 5)))"

subsection \<open>Serialising a value\<close>

text \<open>\<open>typeof v === 'boolean' || typeof v === 'number' ? String(v) :
  JSON.stringify(String(v))\<close>.\<close>

fun serialize_value :: "jsval \<Rightarrow> jstr" where
  "serialize_value (Bool b) = js_to_string (Bool b)"
| "serialize_value (Num n) = js_to_string (Num n)"
| "serialize_value Num_NaN = js_to_string Num_NaN"
| "serialize_value v = json_quote (js_to_string v)"

subsection \<open>The key pattern\<close>

definition key_at :: "jstr \<Rightarrow> jstr \<Rightarrow> nat option" where
  "key_at k t =
     (if \<not> starts_with t k then None
      else (case dropWhile (\<lambda>c. c = ch CHR ''s'') (drop (length k) t) of
              [] \<Rightarrow> None
            | c # r \<Rightarrow>
                if c = ch CHR '':'' then Some (length t - length r + length (takeWhile (\<lambda>c. \<not> is_lt c) r))
                else None))"

function find_key :: "jstr \<Rightarrow> jstr \<Rightarrow> (nat \<times> nat) option" where
  "find_key k y =
     (case key_at k y of
        Some m \<Rightarrow> Some (0, m)
      | None \<Rightarrow>
          (case dropWhile (\<lambda>c. \<not> is_lt c) y of
             [] \<Rightarrow> None
           | _ # r \<Rightarrow> map_option (\<lambda>(i, m). (length y - length r + i, m)) (find_key k r)))"
  by pat_completeness auto

termination
proof (relation "measure (\<lambda>(k, y). length y)")
  fix k :: jstr and y m r
  assume "dropWhile (\<lambda>c. \<not> is_lt c) y = m # r"
  then have "length (m # r) \<le> length y"
    by (metis length_dropWhile_le)
  then show "((k, r), k, y) \<in> measure (\<lambda>(k, y). length y)"
    by simp
qed simp

declare find_key.simps [simp del]

subsection \<open>upsertInYaml\<close>

definition kv_line :: "jstr \<Rightarrow> jsval \<Rightarrow> jstr" where
  "kv_line k v = k @ js '': '' @ serialize_value v"

text \<open>One iteration of the loop: \<open>re.test(yaml)\<close>, then either \<open>yaml.replace(re, line)\<close>
  (first match only; the replacement text goes through GetSubstitution) or
  \<open>yaml += '\n' + line\<close>.\<close>

definition upsert_key :: "jstr \<Rightarrow> jsval \<Rightarrow> jstr \<Rightarrow> jstr" where
  "upsert_key k v yaml =
     (case find_key k yaml of
        Some (p, m) \<Rightarrow>
          take p yaml
          @ get_substitution (take m (drop p yaml)) (take p yaml) (drop (p + m) yaml) [] (kv_line k v)
          @ drop (p + m) yaml
      | None \<Rightarrow> yaml @ js ''\<newline>'' @ kv_line k v)"

definition upsert_in_yaml :: "(jstr \<times> jsval) list \<Rightarrow> jstr \<Rightarrow> jstr" where
  "upsert_in_yaml kv yaml = fold (\<lambda>(k, v) y. upsert_key k v y) kv yaml"

subsection \<open>upsertFrontmatterKeys\<close>

text \<open>\<open>fm_pos\<close> is the \<open>frontmatterPosition\<close> of the metadata cache (start and end
  offsets), \<open>None\<close> when the cache has no entry; the result is the text handed to
  \<open>vault.modify\<close>.\<close>

definition new_block :: "(jstr \<times> jsval) list \<Rightarrow> jstr" where
  "new_block kv = concat (map (\<lambda>(k, v). kv_line k v @ js ''\<newline>'') kv)"

definition upsert_frontmatter_keys ::
  "jstr \<Rightarrow> (int \<times> int) option \<Rightarrow> (jstr \<times> jsval) list \<Rightarrow> jstr" where
  "upsert_frontmatter_keys content fm_pos kv =
     (let next =
        (case fm_pos of
           Some (s, e) \<Rightarrow>
             slice content 0 s @ fm_open
             @ upsert_in_yaml kv (slice content (s + 4) (e - 4)) @ js ''\<newline>---''
             @ slice_from content e
         | None \<Rightarrow>
             (if starts_with content fm_open then
                (let e = index_of content (js ''\<newline>---'') 4 in
                 if 0 < e then
                   fm_open @ upsert_in_yaml kv (slice content 4 e) @ js ''\<newline>---''
                   @ slice_from content (e + 4)
                 else [])
              else []))
      in if next = [] then fm_open @ new_block kv @ js ''---\<newline>'' @ content else next)"

subsection \<open>The key pattern line by line\<close>

abbreviation line_of :: "jstr \<Rightarrow> jstr" where
  "line_of t \<equiv> takeWhile (\<lambda>c. \<not> is_lt c) t"

abbreviation after_line :: "jstr \<Rightarrow> jstr" where
  "after_line t \<equiv> dropWhile (\<lambda>c. \<not> is_lt c) t"

definition line_match :: "jstr \<Rightarrow> jstr \<Rightarrow> bool" where
  "line_match k l \<longleftrightarrow> prefix k l \<and>
     (case dropWhile (\<lambda>c. c = ch CHR ''s'') (drop (length k) l) of
        [] \<Rightarrow> False | c # _ \<Rightarrow> c = ch CHR '':'')"

definition closed_lines :: "jstr \<Rightarrow> bool" where
  "closed_lines a \<longleftrightarrow> a = [] \<or> is_lt (last a)"

definition yaml_entry :: "jstr \<Rightarrow> jstr \<Rightarrow> jstr option" where
  "yaml_entry k y = map_option (\<lambda>(p, m). take m (drop p y)) (find_key k y)"

definition keys_apart :: "jstr \<Rightarrow> jstr \<Rightarrow> bool" where
  "keys_apart k k' \<longleftrightarrow> \<not> prefix k k' \<and> \<not> prefix k' k"

definition kv_ok :: "jstr \<Rightarrow> jsval \<Rightarrow> bool" where
  "kv_ok k v \<longleftrightarrow> lt_free (kv_line k v) \<and> 36 \<notin> set (kv_line k v)"

abbreviation nl_dashes :: jstr where
  "nl_dashes \<equiv> js ''\<newline>---''"

subsection \<open>Lemmas\<close>

lemma after_line_hd: "after_line t = c # r \<Longrightarrow> is_lt c"
  by (metis dropWhile_eq_Cons_conv)

lemma prefix_line_of:
  assumes "lt_free k"
  shows "prefix k t \<longleftrightarrow> prefix k (line_of t)"
proof
  assume p: "prefix k t"
  have t: "t = line_of t @ after_line t" by simp
  from p t have "prefix k (line_of t) \<or> (\<exists>us. k = line_of t @ us \<and> prefix us (after_line t))"
    by (metis prefix_append)
  then show "prefix k (line_of t)"
  proof
    assume "\<exists>us. k = line_of t @ us \<and> prefix us (after_line t)"
    then obtain us where k: "k = line_of t @ us" and u: "prefix us (after_line t)" by blast
    show ?thesis
    proof (cases us)
      case Nil
      with k show ?thesis by simp
    next
      case (Cons u us')
      with u obtain r where "after_line t = u # r"
        by (cases "after_line t") auto
      then have "is_lt u" by (rule after_line_hd)
      with assms k Cons show ?thesis by simp
    qed
  qed
next
  assume "prefix k (line_of t)"
  then show "prefix k t"
    by (metis prefix_order.trans prefix_def takeWhile_dropWhile_id)
qed

lemma key_at_line:
  assumes k: "lt_free k"
  shows "key_at k t = (if line_match k (line_of t) then Some (length (line_of t)) else None)"
proof (cases "prefix k (line_of t)")
  case False
  then have "\<not> prefix k t" using prefix_line_of[OF k, of t] by blast
  with False show ?thesis by (simp add: key_at_def line_match_def)
next
  case True
  have pfx: "prefix k t" using True prefix_line_of[OF k, of t] by blast
  define l where "l = line_of t"
  define r where "r = after_line t"
  define d where "d = drop (length k) l"
  have t: "t = l @ r" by (simp add: l_def r_def)
  have kl: "length k \<le> length l" using True by (simp add: l_def prefix_length_le)
  have dt: "drop (length k) t = d @ r" using kl by (simp add: t d_def)
  have dfree: "lt_free d"
    by (auto simp: d_def l_def lt_free_def dest!: in_set_dropD set_takeWhileD)
  have rhd: "r = [] \<or> is_lt (hd r)"
    by (cases r) (auto simp: r_def dest: after_line_hd)
  have r_s: "dropWhile (\<lambda>c. c = ch CHR ''s'') r = r"
    using rhd by (cases r) (auto simp: is_lt_def ch_def)
  have tw_r: "takeWhile (\<lambda>c. \<not> is_lt c) r = []"
    using rhd by (cases r) auto
  show ?thesis
  proof (cases "dropWhile (\<lambda>c. c = ch CHR ''s'') d")
    case Nil
    then have "\<forall>x\<in>set d. x = ch CHR ''s''" by (simp add: dropWhile_eq_Nil_conv)
    then have dw: "dropWhile (\<lambda>c. c = ch CHR ''s'') (drop (length k) t) = r"
      using r_s by (simp add: dt dropWhile_append)
    have lm: "\<not> line_match k l"
      unfolding line_match_def d_def[symmetric] Nil by simp
    have "r = [] \<or> hd r \<noteq> ch CHR '':''" using rhd by (auto simp: is_lt_def ch_def)
    then have "key_at k t = None"
      unfolding key_at_def dw using pfx by (cases r) auto
    then show ?thesis unfolding l_def[symmetric] using lm by simp
  next
    case (Cons c d')
    have dw: "dropWhile (\<lambda>c. c = ch CHR ''s'') (drop (length k) t) = c # d' @ r"
    proof -
      have "dropWhile (\<lambda>c. c = ch CHR ''s'') d \<noteq> []" using Cons by simp
      then have "\<not> (\<forall>x\<in>set d. x = ch CHR ''s'')" by (simp add: dropWhile_eq_Nil_conv)
      then obtain x where x: "x \<in> set d" "x \<noteq> ch CHR ''s''" by blast
      show ?thesis using Cons dropWhile_append1[OF x(1), of "\<lambda>c. c = ch CHR ''s''" r] x(2)
        by (simp add: dt)
    qed
    have d'free: "lt_free d'"
      using dfree Cons by (simp add: lt_free_def) (metis set_dropWhileD list.set_intros(2))
    have tw: "takeWhile (\<lambda>c. \<not> is_lt c) (d' @ r) = d'"
      using d'free tw_r by (simp add: takeWhile_append)
    have len: "length d' + length r \<le> length t"
    proof -
      have "length (c # d') \<le> length d" using Cons by (metis length_dropWhile_le)
      then show ?thesis using kl by (simp add: t d_def)
    qed
    have arith: "length t - length (d' @ r) + length d' = length l"
      using len by (simp add: t)
    have lm: "line_match k l \<longleftrightarrow> c = ch CHR '':''"
      unfolding line_match_def d_def[symmetric] Cons using True by (simp add: l_def)
    show ?thesis
      unfolding key_at_def dw l_def[symmetric] using pfx tw arith lm by simp
  qed
qed

lemma line_match_Nil [simp]: "\<not> line_match k []"
  by (simp add: line_match_def)

lemma line_of_append_lt: "\<not> lt_free a \<Longrightarrow> line_of (a @ b) = line_of a"
  by (auto simp: lt_free_def)

lemma after_line_append_lt: "\<not> lt_free a \<Longrightarrow> after_line (a @ b) = after_line a @ b"
  by (auto simp: lt_free_def)

lemma after_line_lt_free [simp]: "lt_free t \<Longrightarrow> after_line t = []"
  by (simp add: lt_free_def)

lemma find_key_Nil [simp]: "find_key k [] = None"
  by (simp add: find_key.simps key_at_def)

lemma find_key_line:
  assumes "lt_free k" "lt_free l"
  shows "find_key k l = (if line_match k l then Some (0, length l) else None)"
  using assms by (simp add: find_key.simps key_at_line)

lemma find_key_line_rest:
  assumes "lt_free k" "lt_free l" "is_lt c"
  shows "find_key k (l @ c # r) =
    (if line_match k l then Some (0, length l)
     else map_option (\<lambda>(i, m). (length l + 1 + i, m)) (find_key k r))"
proof -
  have "line_of (l @ c # r) = l" using assms(2,3) by (simp add: takeWhile_append)
  moreover have "after_line (l @ c # r) = c # r" using assms(2,3) by (simp add: lt_free_def)
  ultimately show ?thesis using assms(1)
    by (subst find_key.simps) (simp add: key_at_line split: option.split)
qed

lemma find_key_append_closed:
  assumes k: "lt_free k" and a: "closed_lines a"
  shows "find_key k (a @ b) =
    (case find_key k a of Some x \<Rightarrow> Some x
     | None \<Rightarrow> map_option (\<lambda>(i, m). (length a + i, m)) (find_key k b))"
  using k a
proof (induction k a rule: find_key.induct)
  case (1 k a)
  show ?case
  proof (cases "a = []")
    case True
    then show ?thesis by (simp add: option.map_id)
  next
    case False
    with "1.prems"(2) have nf: "\<not> lt_free a" by (auto simp: closed_lines_def lt_free_def)
    then obtain c r where ar: "after_line a = c # r"
      by (cases "after_line a") (auto simp: lt_free_def dropWhile_eq_Nil_conv)
    have len: "length r < length a"
      using ar by (metis length_dropWhile_le length_Cons less_eq_Suc_le)
    have ka: "key_at k (a @ b) = key_at k a"
      using "1.prems"(1) nf by (simp add: key_at_line line_of_append_lt)
    have ab: "after_line (a @ b) = c # r @ b" using nf ar by (simp add: after_line_append_lt)
    show ?thesis
    proof (cases "key_at k a")
      case (Some m)
      then show ?thesis using ka
        by (simp add: find_key.simps[of k "a @ b"] find_key.simps[of k a])
    next
      case None
      have cr: "closed_lines r"
      proof (cases "r = []")
        case False
        have "a = line_of a @ c # r" using ar by (metis takeWhile_dropWhile_id)
        then have "last a = last r" using False by (metis last_ConsR last_appendR list.distinct(1))
        then show ?thesis using "1.prems"(2) False \<open>a \<noteq> []\<close> by (simp add: closed_lines_def)
      qed (simp add: closed_lines_def)
      have IH: "find_key k (r @ b) =
          (case find_key k r of Some x \<Rightarrow> Some x
           | None \<Rightarrow> map_option (\<lambda>(i, m). (length r + i, m)) (find_key k b))"
        using "1.IH"[OF None ar "1.prems"(1) cr] .
      have fa: "find_key k a = map_option (\<lambda>(i, m). (length a - length r + i, m)) (find_key k r)"
        using None ar by (simp add: find_key.simps[of k a])
      have fab: "find_key k (a @ b) = map_option (\<lambda>(i, m). (length a - length r + i, m)) (find_key k (r @ b))"
        using None ka ab by (simp add: find_key.simps[of k "a @ b"])
      show ?thesis
        using len by (cases "find_key k r"; cases "find_key k b") (auto simp: fab fa IH)
    qed
  qed
qed

lemma split_last_line: "\<exists>a l. y = a @ l \<and> closed_lines a \<and> lt_free l"
proof -
  define a where "a = rev (dropWhile (\<lambda>c. \<not> is_lt c) (rev y))"
  define l where "l = rev (takeWhile (\<lambda>c. \<not> is_lt c) (rev y))"
  have "y = a @ l"
    by (simp add: a_def l_def flip: rev_append)
  moreover have "closed_lines a"
    by (cases "dropWhile (\<lambda>c. \<not> is_lt c) (rev y)")
       (auto simp: a_def closed_lines_def dest: after_line_hd)
  moreover have "lt_free l"
    by (auto simp: l_def lt_free_def dest: set_takeWhileD)
  ultimately show ?thesis by blast
qed

lemma find_key_snoc_lt:
  assumes k: "lt_free k" and c: "is_lt c"
  shows "find_key k (y @ [c]) = find_key k y"
proof -
  obtain a l where y: "y = a @ l" and a: "closed_lines a" and l: "lt_free l"
    using split_last_line by blast
  have "find_key k (l @ [c]) = find_key k l"
    using find_key_line_rest[OF k l c, of "[]"] find_key_line[OF k l] by simp
  then have "find_key k (a @ (l @ [c])) = find_key k (a @ l)"
    using find_key_append_closed[OF k a, of "l @ [c]"] find_key_append_closed[OF k a, of l]
    by (simp split: option.split)
  then show ?thesis by (simp add: y)
qed

lemma find_key_SomeE:
  assumes "find_key k y = Some (p, m)" "lt_free k"
  shows "\<exists>a l r. y = a @ l @ r \<and> p = length a \<and> m = length l \<and> closed_lines a
    \<and> find_key k a = None \<and> lt_free l \<and> line_match k l \<and> (r = [] \<or> is_lt (hd r))"
  using assms
proof (induction k y arbitrary: p m rule: find_key.induct)
  case (1 k y)
  show ?case
  proof (cases "key_at k y")
    case (Some m')
    then have lm: "line_match k (line_of y)" and m': "m' = length (line_of y)"
      using key_at_line[OF "1.prems"(2), of y] by (auto split: if_splits)
    have "p = 0 \<and> m = m'" using "1.prems"(1) Some by (simp add: find_key.simps[of k y])
    moreover have "after_line y = [] \<or> is_lt (hd (after_line y))"
      by (cases "after_line y") (auto dest: after_line_hd)
    ultimately show ?thesis using lm m'
      by (intro exI[of _ "[]"] exI[of _ "line_of y"] exI[of _ "after_line y"])
         (auto simp: closed_lines_def lt_free_def dest: set_takeWhileD)
  next
    case None
    then obtain c r' where ar: "after_line y = c # r'"
      using "1.prems"(1) by (cases "after_line y") (auto simp: find_key.simps[of k y])
    have lc: "is_lt c" using ar by (rule after_line_hd)
    from "1.prems"(1) None ar obtain p' where fr: "find_key k r' = Some (p', m)"
      and p: "p = length y - length r' + p'"
      by (auto simp: find_key.simps[of k y])
    from "1.IH"[OF None ar fr "1.prems"(2)] obtain a' l r where
      r': "r' = a' @ l @ r" and p': "p' = length a'" and rest: "m = length l" "closed_lines a'"
      "find_key k a' = None" "lt_free l" "line_match k l" "r = [] \<or> is_lt (hd r)"
      by blast
    have y: "y = line_of y @ c # r'" using ar by (metis takeWhile_dropWhile_id)
    have nm: "\<not> line_match k (line_of y)"
      using None key_at_line[OF "1.prems"(2), of y] by (simp split: if_splits)
    define a where "a = line_of y @ c # a'"
    have "closed_lines a"
      using rest(2) lc by (cases a' rule: rev_cases) (auto simp: a_def closed_lines_def)
    moreover have "find_key k a = None"
      using find_key_line_rest[OF "1.prems"(2) _ lc, of "line_of y" a'] nm rest(3)
      by (simp add: a_def)
    moreover have "y = a @ l @ r" using y r' by (simp add: a_def)
    moreover have "p = length a"
    proof -
      have "length y = length (line_of y) + 1 + length r'"
        using arg_cong[OF y, of length] by simp
      then show ?thesis using p p' by (simp add: a_def)
    qed
    ultimately show ?thesis using rest by blast
  qed
qed

lemma find_key_bound: "find_key k y = Some (p, m) \<Longrightarrow> lt_free k \<Longrightarrow> p + m \<le> length y"
  by (drule (1) find_key_SomeE) auto

lemma kv_ok_lt_free_key: "kv_ok k v \<Longrightarrow> lt_free k"
  by (simp add: kv_ok_def kv_line_def)

lemma line_match_kv_line: "line_match k (kv_line k v)"
  by (simp add: line_match_def kv_line_def ch_def)

lemma apart_line_match: "keys_apart k k' \<Longrightarrow> line_match k l \<Longrightarrow> \<not> line_match k' l"
  using prefix_same_cases by (auto simp: keys_apart_def line_match_def)

lemma js_newline: "js ''\<newline>'' = [10]"
  by (simp add: ch_def)

lemma take_drop_append_within:
  "i + m \<le> length a \<Longrightarrow> take m (drop i (a @ b)) = take m (drop i a)"
  by simp

lemma yaml_entry_snoc_line:
  assumes k: "lt_free k" and l: "lt_free l" and nm: "\<not> line_match k l"
  shows "yaml_entry k ((y @ [10]) @ l) = yaml_entry k y"
proof -
  have c: "closed_lines (y @ [10])" by (simp add: closed_lines_def is_lt_def)
  have "find_key k ((y @ [10]) @ l) = find_key k y"
    using find_key_append_closed[OF k c, of l] find_key_snoc_lt[OF k, of 10 y]
      find_key_line[OF k l] nm
    by (simp add: is_lt_def split: option.split)
  moreover have "find_key k y = Some (i, m) \<Longrightarrow> i + m \<le> length y" for i m
    using find_key_bound[OF _ k] by blast
  ultimately show ?thesis
    by (cases "find_key k y") (auto simp: yaml_entry_def)
qed

lemma find_key_mid:
  assumes k: "lt_free k" and a: "closed_lines a" and l: "lt_free l" and nm: "\<not> line_match k l"
    and r: "r = [] \<or> is_lt (hd r)"
  shows "find_key k (a @ l @ r) =
    (case find_key k a of Some x \<Rightarrow> Some x
     | None \<Rightarrow> (case r of [] \<Rightarrow> None
         | c # r' \<Rightarrow> map_option (\<lambda>(i, m). (length a + length l + 1 + i, m)) (find_key k r')))"
proof (cases r)
  case Nil
  then show ?thesis
    using find_key_append_closed[OF k a, of l] find_key_line[OF k l] nm
    by (simp split: option.split)
next
  case (Cons c r')
  with r have "is_lt c" by simp
  then show ?thesis
    using find_key_append_closed[OF k a, of "l @ r"] find_key_line_rest[OF k l, of c r'] nm Cons
    by (cases "find_key k a"; cases "find_key k r'") auto
qed

lemma yaml_entry_frame:
  assumes k: "lt_free k" and a: "closed_lines a" and l: "lt_free l" and l': "lt_free l'"
    and nm: "\<not> line_match k l" and nm': "\<not> line_match k l'" and r: "r = [] \<or> is_lt (hd r)"
  shows "yaml_entry k (a @ l' @ r) = yaml_entry k (a @ l @ r)"
proof (cases "find_key k a")
  case (Some x)
  then obtain i m where x: "x = (i, m)" and b: "i + m \<le> length a"
    using find_key_bound[OF _ k] by (cases x) fastforce
  then show ?thesis
    using Some find_key_mid[OF k a l nm r] find_key_mid[OF k a l' nm' r]
    by (simp add: yaml_entry_def)
next
  case None
  show ?thesis
  proof (cases r)
    case Nil
    then show ?thesis using None find_key_mid[OF k a l nm r] find_key_mid[OF k a l' nm' r]
      by (simp add: yaml_entry_def)
  next
    case (Cons c r')
    then show ?thesis using None find_key_mid[OF k a l nm r] find_key_mid[OF k a l' nm' r]
      by (cases "find_key k r'") (auto simp: yaml_entry_def)
  qed
qed

lemma upsert_key_found:
  assumes f: "find_key k y = Some (p, m)" and k: "lt_free k" and d: "36 \<notin> set (kv_line k v)"
  shows "\<exists>a l r. y = a @ l @ r \<and> upsert_key k v y = a @ kv_line k v @ r \<and> closed_lines a
    \<and> find_key k a = None \<and> lt_free l \<and> line_match k l \<and> (r = [] \<or> is_lt (hd r))"
proof -
  obtain a l r where y: "y = a @ l @ r" and pm: "p = length a" "m = length l"
    and rest: "closed_lines a" "find_key k a = None" "lt_free l" "line_match k l" "r = [] \<or> is_lt (hd r)"
    using find_key_SomeE[OF f k] by blast
  have "upsert_key k v y = a @ kv_line k v @ r"
    using f d by (simp add: upsert_key_def y pm)
  then show ?thesis using y rest by blast
qed

lemma upsert_key_absent:
  "find_key k y = None \<Longrightarrow> upsert_key k v y = (y @ [10]) @ kv_line k v"
  by (simp add: upsert_key_def js_newline)

lemma upsert_key_entry:
  assumes ok: "kv_ok k v"
  shows "yaml_entry k (upsert_key k v y) = Some (kv_line k v)"
proof -
  have k: "lt_free k" using ok by (rule kv_ok_lt_free_key)
  have L: "lt_free (kv_line k v)" and d: "36 \<notin> set (kv_line k v)" using ok by (auto simp: kv_ok_def)
  show ?thesis
  proof (cases "find_key k y")
    case None
    have c: "closed_lines (y @ [10])" by (simp add: closed_lines_def is_lt_def)
    have "find_key k ((y @ [10]) @ kv_line k v) = Some (length y + 1, length (kv_line k v))"
      using find_key_append_closed[OF k c, of "kv_line k v"] find_key_snoc_lt[OF k, of 10 y]
        find_key_line[OF k L] line_match_kv_line None
      by (simp add: is_lt_def)
    then show ?thesis using None by (simp add: upsert_key_absent yaml_entry_def)
  next
    case (Some x)
    then obtain p m where "find_key k y = Some (p, m)" by (cases x) auto
    from upsert_key_found[OF this k d] obtain a l r where
      u: "upsert_key k v y = a @ kv_line k v @ r" and a: "closed_lines a" "find_key k a = None"
      and r: "r = [] \<or> is_lt (hd r)"
      by blast
    have "find_key k (a @ kv_line k v @ r) = Some (length a, length (kv_line k v))"
    proof (cases r)
      case Nil
      then show ?thesis using find_key_append_closed[OF k a(1), of "kv_line k v"] a(2)
          find_key_line[OF k L] line_match_kv_line by simp
    next
      case (Cons c r')
      then show ?thesis using find_key_append_closed[OF k a(1), of "kv_line k v @ r"] a(2)
          find_key_line_rest[OF k L, of c r'] line_match_kv_line r by simp
    qed
    then show ?thesis by (simp add: u yaml_entry_def)
  qed
qed

lemma upsert_key_other:
  assumes ok: "kv_ok k v" and k': "lt_free k'" and ap: "keys_apart k k'"
  shows "yaml_entry k' (upsert_key k v y) = yaml_entry k' y"
proof -
  have k: "lt_free k" using ok by (rule kv_ok_lt_free_key)
  have L: "lt_free (kv_line k v)" and d: "36 \<notin> set (kv_line k v)" using ok by (auto simp: kv_ok_def)
  have nL: "\<not> line_match k' (kv_line k v)"
    using apart_line_match[OF ap line_match_kv_line] .
  show ?thesis
  proof (cases "find_key k y")
    case None
    then show ?thesis using yaml_entry_snoc_line[OF k' L nL] by (simp add: upsert_key_absent)
  next
    case (Some x)
    then obtain p m where "find_key k y = Some (p, m)" by (cases x) auto
    from upsert_key_found[OF this k d] obtain a l r where
      y: "y = a @ l @ r" and u: "upsert_key k v y = a @ kv_line k v @ r"
      and a: "closed_lines a" and l: "lt_free l" "line_match k l" and r: "r = [] \<or> is_lt (hd r)"
      by blast
    have nl: "\<not> line_match k' l" using apart_line_match[OF ap l(2)] .
    show ?thesis
      unfolding u using yaml_entry_frame[OF k' a l(1) L nl nL r] by (simp add: y)
  qed
qed

lemma upsert_in_yaml_Cons [simp]:
  "upsert_in_yaml ((k, v) # kv) y = upsert_in_yaml kv (upsert_key k v y)"
  by (simp add: upsert_in_yaml_def)

lemma upsert_in_yaml_Nil [simp]: "upsert_in_yaml [] y = y"
  by (simp add: upsert_in_yaml_def)

lemma upsert_in_yaml_other:
  assumes "\<forall>(k, v)\<in>set kv. kv_ok k v \<and> keys_apart k k'" and "lt_free k'"
  shows "yaml_entry k' (upsert_in_yaml kv y) = yaml_entry k' y"
  using assms by (induction kv arbitrary: y) (auto simp: upsert_key_other)

lemma upsert_in_yaml_entry:
  assumes "\<forall>(k, v)\<in>set kv. kv_ok k v"
    and "pairwise keys_apart (fst ` set kv)"
    and "distinct (map fst kv)" and "(k, v) \<in> set kv"
  shows "yaml_entry k (upsert_in_yaml kv y) = Some (kv_line k v)"
  using assms
proof (induction kv arbitrary: y)
  case Nil
  then show ?case by simp
next
  case (Cons kv1 kv)
  obtain k1 v1 where kv1: "kv1 = (k1, v1)" by (cases kv1)
  have ok1: "kv_ok k1 v1" using Cons.prems(1) kv1 by simp
  have notin: "k1 \<notin> fst ` set kv" using Cons.prems(3) kv1 by simp
  show ?case
  proof (cases "k = k1 \<and> v = v1")
    case True
    have rest: "kv_ok k2 v2 \<and> keys_apart k2 k1" if "(k2, v2) \<in> set kv" for k2 v2
    proof -
      have "k2 \<noteq> k1" using notin that by (metis fst_conv image_eqI)
      moreover have "k2 \<in> fst ` set kv" using that by (metis fst_conv image_eqI)
      ultimately show ?thesis using Cons.prems(1,2) kv1 that
        by (auto simp: pairwise_insert)
    qed
    have "lt_free k1" using ok1 by (rule kv_ok_lt_free_key)
    then have "yaml_entry k1 (upsert_in_yaml kv (upsert_key k1 v1 y)) = yaml_entry k1 (upsert_key k1 v1 y)"
      using rest by (intro upsert_in_yaml_other) auto
    then show ?thesis using True kv1 ok1 by (simp add: upsert_key_entry)
  next
    case False
    then have inkv: "(k, v) \<in> set kv" using Cons.prems(4) kv1 by auto
    have "yaml_entry k (upsert_in_yaml kv (upsert_key k1 v1 y)) = Some (kv_line k v)"
      using Cons.IH[of "upsert_key k1 v1 y"] Cons.prems(1,2,3) inkv kv1 by (simp add: pairwise_insert)
    then show ?thesis using kv1 by simp
  qed
qed

lemma nl_dashes_not_before:
  assumes y: "\<not> sublist nl_dashes y" and j: "j < length y"
  shows "\<not> prefix nl_dashes (drop j (y @ nl_dashes @ t))"
proof
  assume p: "prefix nl_dashes (drop j (y @ nl_dashes @ t))"
  define u where "u = drop j y"
  have d: "drop j (y @ nl_dashes @ t) = u @ nl_dashes @ t" using j by (simp add: u_def)
  from p have p': "prefix nl_dashes (u @ nl_dashes @ t)" by (simp only: d)
  show False
  proof (cases "4 \<le> length u")
    case True
    from p' have "prefix nl_dashes u \<or> (\<exists>us. nl_dashes = u @ us \<and> prefix us (nl_dashes @ t))"
      by (rule prefix_append[THEN iffD1])
    then have "prefix nl_dashes u"
    proof
      assume "\<exists>us. nl_dashes = u @ us \<and> prefix us (nl_dashes @ t)"
      then obtain us where e: "nl_dashes = u @ us" by blast
      have "length u + length us = 4" using arg_cong[OF e, of length] by simp
      then have "us = []" using True by (cases us) auto
      then show ?thesis using e by simp
    qed
    then have "sublist nl_dashes y"
      by (metis prefix_imp_sublist sublist_drop sublist_order.order.trans u_def)
    with y show False ..
  next
    case False
    have u0: "0 < length u" using j by (simp add: u_def)
    from p' obtain z where z: "u @ nl_dashes @ t = nl_dashes @ z" by (auto simp: prefix_def)
    have "(u @ nl_dashes @ t) ! length u = 10" by (simp add: nth_append ch_def)
    moreover have "(nl_dashes @ z) ! length u = 45"
    proof -
      have "length u = 1 \<or> length u = 2 \<or> length u = 3" using False u0 by arith
      then show ?thesis by (elim disjE) (simp_all add: ch_def)
    qed
    ultimately have "(10::cu) = 45" using z by metis
    then show False by simp
  qed
qed

lemma find_sub_close:
  assumes "\<not> sublist nl_dashes y"
  shows "find_sub (nl_dashes @ w) (y @ nl_dashes @ w @ t) = Some (length y)"
proof -
  have "\<forall>j<length y. \<not> prefix (nl_dashes @ w) (drop j (y @ nl_dashes @ w @ t))"
    using nl_dashes_not_before[OF assms, of _ "w @ t"] append_prefixD by blast
  then show ?thesis by (simp add: find_sub_Some_iff)
qed

lemma upsert_fm_scan_shape:
  assumes "\<not> sublist nl_dashes y"
  shows "upsert_frontmatter_keys (fm_open @ y @ nl_dashes @ rest) None kv =
    fm_open @ upsert_in_yaml kv y @ nl_dashes @ rest"
proof -
  let ?c = "fm_open @ y @ nl_dashes @ rest"
  have len: "length fm_open = 4" by (simp add: fm_open_def)
  have "find_sub nl_dashes (drop 4 ?c) = Some (length y)"
    using find_sub_close[OF assms, of "[]" rest] len by simp
  then have e: "index_of ?c nl_dashes 4 = int (4 + length y)"
    by (rule index_of_found) (simp add: len)
  have s1: "slice ?c 4 (int (4 + length y)) = y"
    using slice_nat[of 4 "4 + length y" ?c] len by simp
  have s2: "slice_from ?c (int (4 + length y) + 4) = rest"
    using slice_from_nat[of "8 + length y" ?c] len by (simp add: add.commute)
  show ?thesis
    unfolding upsert_frontmatter_keys_def using e s1 s2
    by (simp add: fm_open_def Let_def)
qed

lemma upsert_fm_cache_shape:
  "upsert_frontmatter_keys (head @ fm_open @ y @ nl_dashes @ tail)
      (Some (int (length head), int (length head + length y + 8))) kv =
    head @ fm_open @ upsert_in_yaml kv y @ nl_dashes @ tail"
proof -
  let ?c = "head @ fm_open @ y @ nl_dashes @ tail"
  have len: "length fm_open = 4" by (simp add: fm_open_def)
  have s0: "slice ?c 0 (int (length head)) = head"
    using slice_nat[of 0 "length head" ?c] by simp
  have s1: "slice ?c (int (length head) + 4) (int (length head + length y + 8) - 4) = y"
    using slice_nat[of "length head + 4" "length head + length y + 4" ?c] len
    by (simp add: add.commute add.left_commute)
  have s2: "slice_from ?c (int (length head + length y + 8)) = tail"
    using slice_from_nat[of "length head + length y + 8" ?c] len
    by (simp add: add.commute add.left_commute)
  show ?thesis
    unfolding upsert_frontmatter_keys_def using s0 s1 s2 by (simp add: fm_open_def)
qed


lemma no_nl_dashes_append:
  assumes "\<not> sublist nl_dashes a" "\<not> sublist nl_dashes b" "b = [] \<or> hd b \<noteq> 45"
  shows "\<not> sublist nl_dashes (a @ b)"
proof
  assume "sublist nl_dashes (a @ b)"
  then obtain n1 n2 where n: "nl_dashes = n1 @ n2" and s1: "suffix n1 a" and p2: "prefix n2 b"
    using assms(1,2) by (auto simp: sublist_append)
  show False
  proof (cases "n1 = [] \<or> n2 = []")
    case True
    then show False using n s1 p2 assms(1,2) by (auto dest: prefix_imp_sublist suffix_imp_sublist)
  next
    case False
    have "length n1 + length n2 = 4" using arg_cong[OF n, of length] by simp
    moreover have "0 < length n1" "0 < length n2" using False by auto
    ultimately have "length n1 \<in> {1, 2, 3}" by (simp, arith)
    moreover have "n2 = drop (length n1) nl_dashes" using n by simp
    ultimately have "hd n2 = 45" by (auto simp: ch_def)
    moreover have "b \<noteq> [] \<and> hd b = hd n2" using p2 False by (cases n2; cases b) auto
    ultimately show False using assms(3) by simp
  qed
qed

lemma no_nl_dashes_lt_free: "lt_free l \<Longrightarrow> \<not> sublist nl_dashes l"
  by (auto simp: lt_free_def is_lt_def dest!: set_mono_sublist)

lemma upsert_key_no_nl_dashes:
  assumes ok: "kv_ok k v" and k: "k \<noteq> []" "hd k \<noteq> ch CHR ''-''" and y: "\<not> sublist nl_dashes y"
  shows "\<not> sublist nl_dashes (upsert_key k v y)"
proof -
  have kf: "lt_free k" using ok by (rule kv_ok_lt_free_key)
  have L: "lt_free (kv_line k v)" and d: "36 \<notin> set (kv_line k v)" using ok by (auto simp: kv_ok_def)
  have Lhd: "kv_line k v \<noteq> [] \<and> hd (kv_line k v) \<noteq> 45"
    using k by (cases k) (auto simp: kv_line_def ch_def)
  have nL: "\<not> sublist nl_dashes (kv_line k v)" using L by (rule no_nl_dashes_lt_free)
  show ?thesis
  proof (cases "find_key k y")
    case None
    have "\<not> prefix nl_dashes (10 # kv_line k v)"
    proof
      assume "prefix nl_dashes (10 # kv_line k v)"
      then have "prefix (js ''---'') (kv_line k v)" by (simp add: ch_def)
      then have "hd (kv_line k v) = 45" by (cases "kv_line k v") (auto simp: ch_def)
      with Lhd show False by simp
    qed
    then have "\<not> sublist nl_dashes (10 # kv_line k v)"
      using nL by (simp add: sublist_Cons_right)
    then show ?thesis
      using no_nl_dashes_append[OF y, of "10 # kv_line k v"] None by (simp add: upsert_key_absent)
  next
    case (Some x)
    then obtain p m where "find_key k y = Some (p, m)" by (cases x) auto
    from upsert_key_found[OF this kf d] obtain a l r where
      yy: "y = a @ l @ r" and u: "upsert_key k v y = a @ kv_line k v @ r"
      and r: "r = [] \<or> is_lt (hd r)" by blast
    have na: "\<not> sublist nl_dashes a" using y yy by (metis sublist_appendI append_Nil sublist_order.order.trans)
    have nr: "\<not> sublist nl_dashes r" using y yy by (metis sublist_appendI append.right_neutral sublist_order.order.trans append.assoc)
    have "r = [] \<or> hd r \<noteq> 45" using r by (auto simp: is_lt_def)
    then have "\<not> sublist nl_dashes (kv_line k v @ r)" using no_nl_dashes_append[OF nL nr] by simp
    then show ?thesis using no_nl_dashes_append[OF na] Lhd u by simp
  qed
qed

lemma upsert_in_yaml_no_nl_dashes:
  assumes "\<forall>(k, v)\<in>set kv. kv_ok k v \<and> k \<noteq> [] \<and> hd k \<noteq> ch CHR ''-''" "\<not> sublist nl_dashes y"
  shows "\<not> sublist nl_dashes (upsert_in_yaml kv y)"
  using assms
proof (induction kv arbitrary: y)
  case (Cons kv1 kv)
  obtain k v where kv1: "kv1 = (k, v)" by (cases kv1)
  have "\<not> sublist nl_dashes (upsert_key k v y)"
    using Cons.prems kv1 by (intro upsert_key_no_nl_dashes) auto
  then show ?case using Cons.IH Cons.prems(1) kv1 by simp
qed simp

lemma remove_from_content_block:
  assumes "\<not> sublist nl_dashes y"
  shows "remove_from_content (fm_open @ y @ nl_dashes @ js ''\<newline>'' @ body) = body"
proof -
  let ?c = "fm_open @ y @ nl_dashes @ js ''\<newline>'' @ body"
  have len: "length fm_open = 4" by (simp add: fm_open_def)
  have "find_sub (nl_dashes @ js ''\<newline>'') (drop 4 ?c) = Some (length y)"
    using find_sub_close[OF assms, of "js ''\<newline>''" body] len by simp
  then have e: "index_of ?c (js ''\<newline>---\<newline>'') 4 = int (4 + length y)"
    by (intro index_of_found) (simp_all add: len)
  have "substring_from ?c (int (4 + length y) + 5) = body"
    using substring_from_nat[of "9 + length y" ?c] len by (simp add: add.commute)
  then show ?thesis using e by (simp add: remove_from_content_def fm_open_def Let_def)
qed


lemma new_block_join:
  "kv \<noteq> [] \<Longrightarrow> new_block kv = join [10] (map (\<lambda>(k, v). kv_line k v) kv) @ [10]"
proof (induction kv)
  case (Cons a kv)
  then show ?case by (cases kv) (auto simp: new_block_def js_newline split: prod.splits)
qed simp

lemma no_nl_dashes_join:
  "\<forall>l\<in>set ls. lt_free l \<and> l \<noteq> [] \<and> hd l \<noteq> 45 \<Longrightarrow> \<not> sublist nl_dashes (join [10] ls)"
proof (induction "[10::cu]" ls rule: join.induct)
  case (2 w)
  then show ?case using no_nl_dashes_lt_free[of w] by simp
next
  case (3 w v ws)
  have J: "\<not> sublist nl_dashes (join [10] (v # ws))" using 3 by simp
  have "v \<noteq> [] \<and> hd v \<noteq> 45" using "3.prems" by simp
  then have "hd (join [10] (v # ws)) \<noteq> 45" by (cases ws) auto
  then have "\<not> prefix nl_dashes (10 # join [10] (v # ws))"
    by (cases "join [10] (v # ws)") (auto simp: ch_def)
  then have "\<not> sublist nl_dashes (10 # join [10] (v # ws))" using J by (simp add: sublist_Cons_right)
  moreover have "\<not> sublist nl_dashes w" using "3.prems" no_nl_dashes_lt_free[of w] by simp
  ultimately show ?case using no_nl_dashes_append[of w "10 # join [10] (v # ws)"] by simp
qed simp


text \<open>C1. Writing the publish result into an existing header block: on a note whose block
  \<open>---\n y \n---\<close> has no other closing line, \<open>upsertFrontmatterKeys\<close> (no cache entry)
  keeps everything after the closing delimiter byte for byte, and in the new block every
  written key is found by the code's own key pattern on the line \<open>k: value\<close>.\<close>

theorem upsert_frontmatter_sets_keys:
  assumes "\<not> sublist nl_dashes y"
    and "\<forall>(k, v)\<in>set kv. kv_ok k v" and "pairwise keys_apart (fst ` set kv)"
    and "distinct (map fst kv)" and "(k, v) \<in> set kv"
  shows "\<exists>y'. upsert_frontmatter_keys (fm_open @ y @ nl_dashes @ rest) None kv
                = fm_open @ y' @ nl_dashes @ rest
           \<and> yaml_entry k y' = Some (kv_line k v)"
  using upsert_fm_scan_shape[OF assms(1)] upsert_in_yaml_entry[OF assms(2-5)] by blast

lemma upsert_frontmatter_sets_keys_witness:
  "\<exists>y'. upsert_frontmatter_keys (fm_open @ js ''title: x'' @ nl_dashes @ js ''\<newline>body'') None
          [(js ''published'', Bool True), (js ''url'', Str (js ''u''))]
        = fm_open @ y' @ nl_dashes @ js ''\<newline>body''
     \<and> yaml_entry (js ''url'') y' = Some (kv_line (js ''url'') (Str (js ''u'')))"
  by (rule upsert_frontmatter_sets_keys)
     (simp_all add: kv_ok_def kv_line_def keys_apart_def js_simps sublist_Cons_right pairwise_insert)


text \<open>C2. Every header key the publish result does not write, and whose name is not a
  prefix of a written key nor has one as a prefix, keeps its line: the key pattern
  finds the same line before and after \<open>upsertFrontmatterKeys\<close>.\<close>

theorem upsert_frontmatter_keeps_other_keys:
  assumes "\<not> sublist nl_dashes y" and "\<forall>(k, v)\<in>set kv. kv_ok k v \<and> keys_apart k k'"
    and "lt_free k'"
  shows "\<exists>y'. upsert_frontmatter_keys (fm_open @ y @ nl_dashes @ rest) None kv
                = fm_open @ y' @ nl_dashes @ rest
           \<and> yaml_entry k' y' = yaml_entry k' y"
  using upsert_fm_scan_shape[OF assms(1)] upsert_in_yaml_other[OF assms(2,3)] by blast

lemma upsert_frontmatter_keeps_other_keys_witness:
  "\<exists>y'. upsert_frontmatter_keys (fm_open @ js ''title: x'' @ nl_dashes @ js ''\<newline>body'') None
          [(js ''url'', Str (js ''u''))]
        = fm_open @ y' @ nl_dashes @ js ''\<newline>body''
     \<and> yaml_entry (js ''title'') y' = yaml_entry (js ''title'') (js ''title: x'')"
  by (rule upsert_frontmatter_keeps_other_keys)
     (simp_all add: kv_ok_def kv_line_def keys_apart_def js_simps sublist_Cons_right)

text \<open>C3. The two ways \<open>upsertFrontmatterKeys\<close> locates the header block agree: with the
  metadata cache's \<open>frontmatterPosition\<close> (start 0, end just after the closing
  \<open>---\<close>) and with the fallback text scan for \<open>\n---\<close> it produces the same text.\<close>

theorem upsert_frontmatter_cache_agrees_scan:
  assumes "\<not> sublist nl_dashes y"
  shows "upsert_frontmatter_keys (fm_open @ y @ nl_dashes @ rest) (Some (0, int (length y + 8))) kv
       = upsert_frontmatter_keys (fm_open @ y @ nl_dashes @ rest) None kv"
  using upsert_fm_cache_shape[of "[]" y rest kv] upsert_fm_scan_shape[OF assms] by simp

lemma upsert_frontmatter_cache_agrees_scan_witness:
  "upsert_frontmatter_keys (fm_open @ js ''a: 1'' @ nl_dashes @ js ''\<newline>b'') (Some (0, int (length (js ''a: 1'') + 8)))
     [(js ''url'', Num 7)]
   = upsert_frontmatter_keys (fm_open @ js ''a: 1'' @ nl_dashes @ js ''\<newline>b'') None [(js ''url'', Num 7)]"
  by (rule upsert_frontmatter_cache_agrees_scan) (simp add: js_simps sublist_Cons_right)

text \<open>C4. Round trip of the header block: for a note \<open>---\n y \n---\n body\<close>,
  \<open>removeFromContent\<close> gives \<open>body\<close> both before and after \<open>upsertFrontmatterKeys\<close>
  writes keys that are well formed (one line, no \<open>$\<close>, not starting with \<open>-\<close>):
  the text that is published is byte-identical.\<close>

theorem remove_after_upsert_roundtrip:
  assumes "\<not> sublist nl_dashes y"
    and "\<forall>(k, v)\<in>set kv. kv_ok k v \<and> k \<noteq> [] \<and> hd k \<noteq> ch CHR ''-''"
  shows "remove_from_content
           (upsert_frontmatter_keys (fm_open @ y @ nl_dashes @ js ''\<newline>'' @ body) None kv) = body
       \<and> remove_from_content (fm_open @ y @ nl_dashes @ js ''\<newline>'' @ body) = body"
proof -
  have "\<not> sublist nl_dashes (upsert_in_yaml kv y)"
    using assms by (intro upsert_in_yaml_no_nl_dashes) auto
  then show ?thesis
    using upsert_fm_scan_shape[OF assms(1), of "js ''\<newline>'' @ body" kv]
      remove_from_content_block assms(1) by simp
qed

lemma remove_after_upsert_roundtrip_witness:
  "remove_from_content (upsert_frontmatter_keys (fm_open @ js ''t: 1'' @ nl_dashes @ js ''\<newline>'' @ js ''# Hi'') None
      [(js ''emlog_article_id'', Num 42)]) = js ''# Hi''
   \<and> remove_from_content (fm_open @ js ''t: 1'' @ nl_dashes @ js ''\<newline>'' @ js ''# Hi'') = js ''# Hi''"
  by (rule remove_after_upsert_roundtrip)
     (simp_all add: kv_ok_def kv_line_def js_simps digits.simps sublist_Cons_right)

text \<open>C5. A note without a header block (and no cache entry) gets a new block in front of
  its unchanged text: the block holds one line \<open>k: value\<close> per written key, in the
  order of the keys, and \<open>removeFromContent\<close> of the result is the original note,
  so the next publish sends the same body.\<close>

theorem upsert_frontmatter_new_block:
  assumes "\<not> prefix fm_open content" "kv \<noteq> []"
    and "\<forall>(k, v)\<in>set kv. kv_ok k v \<and> k \<noteq> [] \<and> hd k \<noteq> ch CHR ''-''"
  shows "\<exists>y. upsert_frontmatter_keys content None kv = fm_open @ y @ nl_dashes @ js ''\<newline>'' @ content
           \<and> split_on 10 y = map (\<lambda>(k, v). kv_line k v) kv
           \<and> remove_from_content (upsert_frontmatter_keys content None kv) = content"
proof -
  let ?ls = "map (\<lambda>(k, v). kv_line k v) kv"
  have lines: "\<forall>l\<in>set ?ls. lt_free l \<and> l \<noteq> [] \<and> hd l \<noteq> 45"
    using assms(3) by (auto simp: kv_ok_def kv_line_def ch_def neq_Nil_conv)
  have up: "upsert_frontmatter_keys content None kv = fm_open @ join [10] ?ls @ nl_dashes @ js ''\<newline>'' @ content"
    using assms(1,2) by (simp add: upsert_frontmatter_keys_def new_block_join js_newline)
  have "split_on 10 (join [10] ?ls) = ?ls"
    using lines assms(2) by (intro split_on_join) (auto simp: lt_free_def is_lt_def)
  moreover have "remove_from_content (upsert_frontmatter_keys content None kv) = content"
    using up remove_from_content_block[OF no_nl_dashes_join[OF lines]] by simp
  ultimately show ?thesis using up by blast
qed

lemma upsert_frontmatter_new_block_witness:
  "\<exists>y. upsert_frontmatter_keys (js ''# Hello'') None [(js ''published'', Bool True), (js ''url'', Str (js ''u''))]
        = fm_open @ y @ nl_dashes @ js ''\<newline>'' @ js ''# Hello''
     \<and> split_on 10 y = map (\<lambda>(k, v). kv_line k v) [(js ''published'', Bool True), (js ''url'', Str (js ''u''))]
     \<and> remove_from_content (upsert_frontmatter_keys (js ''# Hello'') None
          [(js ''published'', Bool True), (js ''url'', Str (js ''u''))]) = js ''# Hello''"
  by (rule upsert_frontmatter_new_block) (simp_all add: fm_open_def kv_ok_def kv_line_def js_simps)

text \<open>The key pattern built from \<^verbatim>\<open>`^${k}\s*:\s*.*$`\<close> has a literal letter \<open>s\<close>
  where whitespace was meant: writing \<open>url\<close> into a header whose line is \<open>urls: keep\<close>
  overwrites that unrelated key's line.\<close>

theorem upsert_overwrites_s_suffixed_key:
  "yaml_entry (js ''urls'') (js ''urls: keep'') = Some (js ''urls: keep'')
   \<and> upsert_in_yaml [(js ''url'', Str (js ''u''))] (js ''urls: keep'') = js ''url: \"u\"''
   \<and> yaml_entry (js ''urls'') (upsert_in_yaml [(js ''url'', Str (js ''u''))] (js ''urls: keep'')) = None"
  by (simp add: yaml_entry_def upsert_in_yaml_def upsert_key_def find_key.simps key_at_def
      kv_line_def js_simps)

text \<open>A header line with whitespace before the colon (\<open>url : old\<close>, valid YAML) is not
  recognised by the pattern, so the upsert appends a second \<open>url\<close> line.\<close>

theorem upsert_duplicates_spaced_key:
  "upsert_in_yaml [(js ''url'', Str (js ''u''))] (js ''url : old'')
   = js ''url : old\<newline>url: \"u\"''"
  by (simp add: upsert_in_yaml_def upsert_key_def find_key.simps key_at_def kv_line_def js_simps)

end
