(* ===== verification/Emlog_Settings.thy ===== *)
theory Emlog_Settings
  imports Emlog_Prelude
begin

text \<open>
  The plugin's configuration and its persistence (\<open>EmlogSettings\<close>,
  \<open>PluginState\<close>, \<open>DEFAULT_SETTINGS\<close>, \<open>loadSettings\<close>, \<open>saveState\<close> of
  \<^verbatim>\<open>main.ts\<close>).  The persisted blob is the JSON object \<open>data.json\<close> holds:
  either the current shape \<open>{settings, articleMap}\<close> or the legacy shape, a flat
  settings object.  A settings object read back from disk may lack fields; it is a
  record of optional fields (\<open>settings_patch\<close>), and \<open>{...DEFAULT_SETTINGS, ...p}\<close>
  takes each present field from it.  Values of a wrong JSON type in the blob are not
  modelled.  The identifier map \<open>articleMap\<close> holds whatever value the server
  returned as the article id, so its range is \<open>jsval\<close>.
\<close>

datatype auth_mode = Sign | Apikey | Cookie

datatype post_action = PA_none | PA_open | PA_copy | PA_both

record emlog_settings =
  base_url :: jstr
  auth_mode :: auth_mode
  api_key :: jstr
  default_author_uid :: jstr
  default_sort_id :: jstr
  default_draft :: bool
  auto_cover :: bool
  allow_remark :: bool
  post_action :: post_action
  enable_debug :: bool

type_synonym article_map = "jstr \<rightharpoonup> jsval"

text \<open>\<open>String(this.settings.authMode)\<close>, as the aggregated HTTP error prints it.\<close>

fun auth_mode_str :: "auth_mode \<Rightarrow> jstr" where
  "auth_mode_str Sign = js ''sign''"
| "auth_mode_str Apikey = js ''apikey''"
| "auth_mode_str Cookie = js ''cookie''"

definition default_settings :: emlog_settings where
  "default_settings =
     \<lparr>base_url = [], auth_mode = Sign, api_key = [], default_author_uid = [],
      default_sort_id = [], default_draft = True, auto_cover = True, allow_remark = True,
      post_action = PA_open, enable_debug = False\<rparr>"

record settings_patch =
  p_base_url :: "jstr option"
  p_auth_mode :: "auth_mode option"
  p_api_key :: "jstr option"
  p_default_author_uid :: "jstr option"
  p_default_sort_id :: "jstr option"
  p_default_draft :: "bool option"
  p_auto_cover :: "bool option"
  p_allow_remark :: "bool option"
  p_post_action :: "post_action option"
  p_enable_debug :: "bool option"

text \<open>The persisted blob: \<open>{settings, articleMap}\<close> (\<open>articleMap\<close> may be
  missing) or a legacy flat settings object.\<close>

datatype stored_blob =
    Blob_state settings_patch "article_map option"
  | Blob_legacy settings_patch

text \<open>\<open>{ ...base, ...p }\<close>: a field present in \<open>p\<close> wins.\<close>

definition spread_settings :: "emlog_settings \<Rightarrow> settings_patch \<Rightarrow> emlog_settings" where
  "spread_settings s p =
     \<lparr>base_url = case_option (base_url s) id (p_base_url p),
      auth_mode = case_option (auth_mode s) id (p_auth_mode p),
      api_key = case_option (api_key s) id (p_api_key p),
      default_author_uid = case_option (default_author_uid s) id (p_default_author_uid p),
      default_sort_id = case_option (default_sort_id s) id (p_default_sort_id p),
      default_draft = case_option (default_draft s) id (p_default_draft p),
      auto_cover = case_option (auto_cover s) id (p_auto_cover p),
      allow_remark = case_option (allow_remark s) id (p_allow_remark p),
      post_action = case_option (post_action s) id (p_post_action p),
      enable_debug = case_option (enable_debug s) id (p_enable_debug p)\<rparr>"

text \<open>\<open>loadSettings\<close>: \<open>loadData()\<close> is \<open>None\<close> when there is no data file.\<close>

definition load_settings :: "stored_blob option \<Rightarrow> emlog_settings \<times> article_map" where
  "load_settings raw =
     (case raw of
        None \<Rightarrow> (default_settings, Map.empty)
      | Some (Blob_state p am) \<Rightarrow> (spread_settings default_settings p, case am of None \<Rightarrow> Map.empty | Some m \<Rightarrow> m)
      | Some (Blob_legacy p) \<Rightarrow> (spread_settings default_settings p, Map.empty))"

text \<open>What \<open>JSON.stringify\<close> writes for the settings object: every field.\<close>

definition settings_json :: "emlog_settings \<Rightarrow> settings_patch" where
  "settings_json s =
     \<lparr>p_base_url = Some (base_url s), p_auth_mode = Some (auth_mode s), p_api_key = Some (api_key s),
      p_default_author_uid = Some (default_author_uid s), p_default_sort_id = Some (default_sort_id s),
      p_default_draft = Some (default_draft s), p_auto_cover = Some (auto_cover s),
      p_allow_remark = Some (allow_remark s), p_post_action = Some (post_action s),
      p_enable_debug = Some (enable_debug s)\<rparr>"

text \<open>\<open>saveState\<close>: the blob \<open>saveData\<close> persists.\<close>

definition save_state :: "emlog_settings \<Rightarrow> article_map \<Rightarrow> stored_blob" where
  "save_state s am = Blob_state (settings_json s) (Some am)"

subsection \<open>Lemmas\<close>

lemma spread_settings_json [simp]: "spread_settings b (settings_json s) = s"
  by (simp add: spread_settings_def settings_json_def)

text \<open>C6. Persisting the state and loading it again gives back the settings and the
  identifier map unchanged (\<open>saveState\<close> then \<open>loadSettings\<close>); a legacy blob
  holding the same settings as a flat object is migrated to those settings with an
  empty identifier map.\<close>

theorem load_save_roundtrip:
  "load_settings (Some (save_state s am)) = (s, am)
   \<and> load_settings (Some (Blob_legacy (settings_json s))) = (s, Map.empty)"
  by (simp add: load_settings_def save_state_def)

end
