(* ===== verification/Emlog_Metadata.thy ===== *)
theory Emlog_Metadata
  imports Emlog_FrontMatter Emlog_Settings
begin

text \<open>
  The metadata deriver: \<open>deriveTitle\<close>, \<open>deriveExcerpt\<close> (with the image-stripping
  regular expression \<^verbatim>\<open>/!\[.*?\]\(.*?\)/g\<close>), the resolution of every publish field
  at the start of \<open>publishCore\<close> (lines 266-281 of \<^verbatim>\<open>main.ts\<close>), and the custom
  publish dialog's initial values and submitted overrides (\<open>PublishModal.onOpen\<close>).
  The front matter \<open>fm\<close> is the metadata cache's object (\<open>{}\<close> when absent).
\<close>

subsection \<open>deriveTitle\<close>

definition untitled :: jstr where
  "untitled = [0x65E0, 0x6807, 0x9898, 0x6587, 0x7AE0]"

text \<open>The loop over \<open>content.split('\n')\<close>: the first line whose trimmed text starts
  with \<open>'# '\<close>.\<close>

fun first_heading :: "jstr list \<Rightarrow> jstr option" where
  "first_heading [] = None"
| "first_heading (l # ls) =
     (let t = trim l in
      if starts_with t (js ''# '') then Some (trim (substring_from t 2)) else first_heading ls)"

definition derive_title :: "jstr \<Rightarrow> tfile option \<Rightarrow> jsval \<Rightarrow> jstr" where
  "derive_title content file fm =
     (if truthy (get fm (js ''title'')) then js_to_string (get fm (js ''title''))
      else if case_option [] tf_basename file \<noteq> [] then case_option [] tf_basename file
      else (case first_heading (split_on 10 content) of Some t \<Rightarrow> t | None \<Rightarrow> untitled))"

subsection \<open>deriveExcerpt\<close>

text \<open>One match of \<^verbatim>\<open>!\[.*?\]\(.*?\)\<close> at the start of the text, as its length.
  \<open>.\<close> does not cross a line terminator; the lazy quantifiers take the first
  \<open>](\<close> and then the first \<open>)\<close> after it.\<close>

definition img_at :: "jstr \<Rightarrow> nat option" where
  "img_at s =
     (case s of
        a # b # r \<Rightarrow>
          if a = 33 \<and> b = 91 then
            (let l = takeWhile (\<lambda>c. \<not> is_lt c) r in
             case find_sub [93, 40] l of
               None \<Rightarrow> None
             | Some j \<Rightarrow> (case find_sub [41] (drop (j + 2) l) of
                           None \<Rightarrow> None
                         | Some k \<Rightarrow> Some (j + k + 5)))
          else None
      | _ \<Rightarrow> None)"

text \<open>\<open>replace(/!\[.*?\]\(.*?\)/g, '')\<close>: matches are removed left to right, the scan
  resuming after each.\<close>

function strip_images :: "jstr \<Rightarrow> jstr" where
  "strip_images [] = []"
| "strip_images (c # cs) =
     (case img_at (c # cs) of
        Some n \<Rightarrow> strip_images (drop n (c # cs))
      | None \<Rightarrow> c # strip_images cs)"
  by pat_completeness auto

termination strip_images
  by (relation "measure length") (auto simp: img_at_def Let_def split: list.splits if_splits option.splits)

definition excerpt_lines :: "jstr \<Rightarrow> jstr list" where
  "excerpt_lines content =
     filter (\<lambda>l. trim l \<noteq> [] \<and> \<not> starts_with (trim l) (js ''#'')) (split_on 10 content)"

text \<open>The header removal of \<open>deriveExcerpt\<close> (lines 233-238) is the code of
  \<open>removeFromContent\<close>.\<close>

definition excerpt_text :: "jstr \<Rightarrow> jstr" where
  "excerpt_text markdown =
     trim (strip_images (join [32] (excerpt_lines (remove_from_content markdown))))"

definition derive_excerpt :: "jstr \<Rightarrow> jsval \<Rightarrow> jstr" where
  "derive_excerpt markdown fm =
     (if truthy (get fm (js ''excerpt'')) then js_to_string (get fm (js ''excerpt''))
      else (let text = excerpt_text markdown in
            if 150 < length text then substring text 0 150 @ js ''...'' else text))"

subsection \<open>Publish fields\<close>

text \<open>\<open>PublishOverrides\<close>: every field optional.  The dialog passes the cover image
  and password as it read them from the front matter, hence \<open>jsval\<close>.\<close>

record overrides =
  o_title :: "jstr option"
  o_sort_id :: "jstr option"
  o_tags :: "jstr option"
  o_excerpt :: "jstr option"
  o_draft :: "bool option"
  o_post_date :: "jstr option"
  o_cover_image :: "jsval option"
  o_top :: "jstr option"
  o_sortop :: "jstr option"
  o_allow_remark :: "jstr option"
  o_password :: "jsval option"

definition no_overrides :: overrides where
  "no_overrides =
     \<lparr>o_title = None, o_sort_id = None, o_tags = None, o_excerpt = None, o_draft = None,
      o_post_date = None, o_cover_image = None, o_top = None, o_sortop = None,
      o_allow_remark = None, o_password = None\<rparr>"

text \<open>\<open>v === 'y' || v === true\<close>.\<close>

definition yes_flag :: "jsval \<Rightarrow> bool" where
  "yes_flag v \<longleftrightarrow> v = Str (js ''y'') \<or> v = Bool True"

definition yn :: "bool \<Rightarrow> jstr" where
  "yn b = (if b then js ''y'' else js ''n'')"

text \<open>\<open>Array.isArray(fm.tags) ? fm.tags.map(String).join(',') : (typeof fm.tags ===
  'string' ? fm.tags : '')\<close>.\<close>

definition fm_tags :: "jsval \<Rightarrow> jstr" where
  "fm_tags fm =
     (case get fm (js ''tags'') of
        Arr xs \<Rightarrow> join (js '','') (map js_to_string xs)
      | Str s \<Rightarrow> s
      | _ \<Rightarrow> [])"

text \<open>\<open>(fm.k ?? dflt) ? String(fm.k ?? dflt) : ''\<close>.\<close>

definition fm_or_default :: "jsval \<Rightarrow> jstr \<Rightarrow> jstr \<Rightarrow> jstr" where
  "fm_or_default fm k dflt =
     (let v = js_coalesce (get fm k) (Str dflt) in if truthy v then js_to_string v else [])"

record pub_fields =
  pf_title :: jstr
  pf_excerpt :: jstr
  pf_tags :: jstr
  pf_sort_id :: jstr
  pf_author_uid :: jstr
  pf_post_date :: "jstr option"
  pf_cover :: jsval
  pf_draft :: bool
  pf_top :: jstr
  pf_sortop :: jstr
  pf_allow_remark :: jstr
  pf_password :: jsval

definition resolve_fields ::
  "emlog_settings \<Rightarrow> tfile \<Rightarrow> jstr \<Rightarrow> jsval \<Rightarrow> bool \<Rightarrow> overrides \<Rightarrow> pub_fields" where
  "resolve_fields s file content fm as_draft ov =
     \<lparr>pf_title = case_option (derive_title content (Some file) fm) id (o_title ov),
      pf_excerpt = case_option (derive_excerpt content fm) id (o_excerpt ov),
      pf_tags = case_option (fm_tags fm) id (o_tags ov),
      pf_sort_id = case_option (fm_or_default fm (js ''sort_id'') (default_sort_id s)) id (o_sort_id ov),
      pf_author_uid = fm_or_default fm (js ''author_uid'') (default_author_uid s),
      pf_post_date = o_post_date ov,
      pf_cover = case_option (js_or (get fm (js ''cover_image''))
                                (js_or (get fm (js ''coverImage'')) (Str []))) id (o_cover_image ov),
      pf_draft = (as_draft \<or> case_option (yes_flag (get fm (js ''draft''))) id (o_draft ov)),
      pf_top = case_option (yn (yes_flag (get fm (js ''top'')))) id (o_top ov),
      pf_sortop = case_option (yn (yes_flag (get fm (js ''sortop'')))) id (o_sortop ov),
      pf_allow_remark =
        case_option (if get fm (js ''allow_remark'') = Str (js ''n'') \<or> get fm (js ''allow_remark'') = Bool False
                     then js ''n'' else js ''y'') id (o_allow_remark ov),
      pf_password = case_option (js_coalesce (get fm (js ''password'')) (Str [])) id (o_password ov)\<rparr>"

subsection \<open>The custom publish dialog\<close>

text \<open>The dialog's fields after \<open>onOpen\<close> (lines 1043-1054) and what its publish
  button passes to \<open>publishCore\<close> (lines 1096-1108); the user's edits replace
  field values in between.\<close>

record modal_form =
  mf_title :: jstr
  mf_excerpt :: jstr
  mf_tags :: jstr
  mf_sort_id :: jstr
  mf_draft :: bool
  mf_post_date :: jstr
  mf_cover :: jsval
  mf_top :: bool
  mf_sortop :: bool
  mf_allow_remark :: bool
  mf_password :: jsval

definition modal_init :: "emlog_settings \<Rightarrow> tfile \<Rightarrow> jstr \<Rightarrow> jsval \<Rightarrow> modal_form" where
  "modal_init s file raw fm =
     \<lparr>mf_title = derive_title raw (Some file) fm,
      mf_excerpt = derive_excerpt raw fm,
      mf_tags = fm_tags fm,
      mf_sort_id = fm_or_default fm (js ''sort_id'') (default_sort_id s),
      mf_draft = (yes_flag (get fm (js ''draft'')) \<or> default_draft s),
      mf_post_date = [],
      mf_cover = js_or (get fm (js ''cover_image'')) (js_or (get fm (js ''coverImage'')) (Str [])),
      mf_top = yes_flag (get fm (js ''top'')),
      mf_sortop = yes_flag (get fm (js ''sortop'')),
      mf_allow_remark = (get fm (js ''allow_remark'') \<noteq> Str (js ''n'') \<and> get fm (js ''allow_remark'') \<noteq> Bool False),
      mf_password = js_or (get fm (js ''password'')) (Str [])\<rparr>"

definition modal_overrides :: "modal_form \<Rightarrow> overrides" where
  "modal_overrides f =
     \<lparr>o_title = Some (mf_title f), o_sort_id = Some (mf_sort_id f), o_tags = Some (mf_tags f),
      o_excerpt = Some (mf_excerpt f), o_draft = Some (mf_draft f),
      o_post_date = (if mf_post_date f \<noteq> [] then Some (mf_post_date f) else None),
      o_cover_image = (if truthy (mf_cover f) then Some (mf_cover f) else None),
      o_top = Some (yn (mf_top f)), o_sortop = Some (yn (mf_sortop f)),
      o_allow_remark = Some (yn (mf_allow_remark f)),
      o_password = (if truthy (mf_password f) then Some (mf_password f) else None)\<rparr>"

subsection \<open>Lemmas\<close>

lemma first_heading_append:
  "\<forall>l\<in>set pre. \<not> prefix (js ''# '') (trim l) \<Longrightarrow> first_heading (pre @ ls) = first_heading ls"
  by (induction pre) (auto simp: Let_def)

lemma trim_id:
  assumes "h \<noteq> []" "\<not> is_ws (hd h)" "\<not> is_ws (last h)"
  shows "trim h = h"
proof -
  have "dropWhile is_ws h = h" using assms(1,2) by (cases h) auto
  moreover have "dropWhile is_ws (rev h) = rev h"
    using assms(1,3) by (cases "rev h") (auto simp: last_rev[symmetric] hd_rev)
  ultimately show ?thesis by (simp add: trim_def)
qed

lemma trim_heading_line:
  assumes "h \<noteq> []" "\<not> is_ws (hd h)" "\<not> is_ws (last h)"
  shows "trim (js ''# '' @ h) = js ''# '' @ h"
  using assms by (intro trim_id) (auto simp: is_ws_def ch_def)

lemma as_draft_forces: "pf_draft (resolve_fields s f c fm True ov)"
  by (simp add: resolve_fields_def)

text \<open>C7. Without a front-matter title and without a file name, \<open>deriveTitle\<close>
  returns the trimmed text of the first line of the note that starts with \<open>'# '\<close>
  (after trimming); the lines before it are not headings.\<close>

theorem derive_title_heading:
  assumes "\<not> truthy (get fm (js ''title''))"
    and "\<forall>l\<in>set (pre @ post). 10 \<notin> set l" and "\<forall>l\<in>set pre. \<not> prefix (js ''# '') (trim l)"
    and "10 \<notin> set h" "h \<noteq> []" "\<not> is_ws (hd h)" "\<not> is_ws (last h)"
  shows "derive_title (join [10] (pre @ (js ''# '' @ h) # post)) None fm = h"
proof -
  have "10 \<notin> set (js ''# '' @ h)" using assms(4) by (simp add: ch_def)
  then have "split_on 10 (join [10] (pre @ (js ''# '' @ h) # post)) = pre @ (js ''# '' @ h) # post"
    using assms(2) by (intro split_on_join) auto
  moreover have "substring_from (js ''# '' @ h) 2 = h"
    using substring_from_nat[of 2 "js ''# '' @ h"] by simp
  moreover have "trim (js ''# '' @ h) = js ''# '' @ h"
    using assms(5-7) by (rule trim_heading_line)
  ultimately show ?thesis
    using assms trim_id[OF assms(5-7)] by (simp add: derive_title_def first_heading_append Let_def)
qed

lemma derive_title_heading_witness:
  "derive_title (join [10] ([] @ (js ''# '' @ js ''Hello'') # [[], js ''World''])) None (Obj []) = js ''Hello''"
  by (rule derive_title_heading) (simp_all add: js_simps)

text \<open>C8. Whenever the note's file has a non-empty base name and the front matter no
  title, \<open>deriveTitle\<close> returns the base name: \<open>publishCore\<close> always passes the file,
  so the heading tier of the documented precedence is never reached from publishing.\<close>

theorem derive_title_filename_wins:
  "\<not> truthy (get fm (js ''title'')) \<Longrightarrow> tf_basename f \<noteq> [] \<Longrightarrow> derive_title c (Some f) fm = tf_basename f"
  by (simp add: derive_title_def)

lemma derive_title_filename_wins_witness:
  "derive_title (js ''# Hello\<newline>\<newline>World'')
     (Some \<lparr>tf_path = js ''notes/a.md'', tf_name = js ''a.md'', tf_basename = js ''a''\<rparr>) (Obj []) = js ''a''"
  using derive_title_filename_wins[where fm = "Obj []" and c = "js ''# Hello\<newline>\<newline>World''"
      and f = "\<lparr>tf_path = js ''notes/a.md'', tf_name = js ''a.md'', tf_basename = js ''a''\<rparr>"]
  by simp

text \<open>C9. Without a front-matter excerpt, \<open>deriveExcerpt\<close> is at most 153 code units
  long: text of more than 150 units is cut to its first 150 followed by \<open>...\<close>, and
  shorter text is returned unchanged.\<close>

theorem derive_excerpt_bounds:
  assumes "\<not> truthy (get fm (js ''excerpt''))"
  shows "length (derive_excerpt md fm) \<le> 153
    \<and> derive_excerpt md fm = (if 150 < length (excerpt_text md)
                              then take 150 (excerpt_text md) @ js ''...'' else excerpt_text md)"
  using assms by (auto simp: derive_excerpt_def Let_def substring_def clamp_index_def)

lemma derive_excerpt_bounds_witness:
  "length (derive_excerpt (js ''# Hello\<newline>\<newline>World'') (Obj [])) \<le> 153
   \<and> derive_excerpt (js ''# Hello\<newline>\<newline>World'') (Obj [])
     = (if 150 < length (excerpt_text (js ''# Hello\<newline>\<newline>World''))
        then take 150 (excerpt_text (js ''# Hello\<newline>\<newline>World'')) @ js ''...''
        else excerpt_text (js ''# Hello\<newline>\<newline>World''))"
  by (rule derive_excerpt_bounds) simp

text \<open>C10. The 150-character cut of \<open>deriveExcerpt\<close> counts UTF-16 code units:
  whenever the excerpt text is longer than 150 units and its 150th unit is the first
  half of a surrogate pair (an emoji or any other character outside the BMP), the
  cut leaves that half unpaired before \<open>...\<close>, and the excerpt as the server
  receives it (URLSearchParams encodes code points as UTF-8) holds U+FFFD in place
  of the character.\<close>

theorem excerpt_splits_surrogate_pair:
  assumes "\<not> truthy (get fm (js ''excerpt''))" "150 < length (excerpt_text md)"
    and "is_high_sur (excerpt_text md ! 149)"
  shows "0xFFFD \<in> set (code_points (derive_excerpt md fm))"
proof -
  let ?t = "excerpt_text md"
  have "derive_excerpt md fm = take 149 ?t @ (?t ! 149) # js ''...''"
    using assms(1,2) take_Suc_conv_app_nth[of 149 ?t]
    by (simp add: derive_excerpt_def Let_def substring_def clamp_index_def)
  moreover have "\<not> is_low_sur (ch CHR ''.'')" by (simp add: is_low_sur_def ch_def)
  ultimately show ?thesis using code_points_lone_high[OF assms(3)] by (simp add: js_simps)
qed

lemma excerpt_splits_surrogate_pair_witness:
  "0xFFFD \<in> set (code_points (derive_excerpt (replicate 149 (ch CHR ''a'') @ [0xD83D, 0xDE00]) (Obj [])))"
  by (rule excerpt_splits_surrogate_pair) code_simp+

text \<open>C11. The default-draft setting reaches the draft flag only through the custom
  publish dialog: there the flag is the front matter's \<open>draft\<close> or the setting, while
  a quick publish (no overrides, not forced to draft) uses the front matter alone.\<close>

theorem quick_publish_ignores_default_draft:
  "pf_draft (resolve_fields s f c fm False (modal_overrides (modal_init s f c fm)))
     = (yes_flag (get fm (js ''draft'')) \<or> default_draft s)
   \<and> pf_draft (resolve_fields s f c fm False no_overrides) = yes_flag (get fm (js ''draft''))"
  by (simp add: resolve_fields_def modal_overrides_def modal_init_def no_overrides_def)

text \<open>C12. The publish fields do not depend on the \<open>defaultDraft\<close> and \<open>allowRemark\<close>
  settings at all, although both are settings of the plugin (default \<open>true\<close>).\<close>

theorem resolve_fields_ignores_draft_remark_settings:
  "resolve_fields (s\<lparr>default_draft := b, allow_remark := b'\<rparr>) f c fm d ov = resolve_fields s f c fm d ov"
  by (cases "o_sort_id ov") (simp_all add: resolve_fields_def)

end
