(* ===== verification/Emlog_Http.thy ===== *)
theory Emlog_Http
  imports Emlog_Settings
begin

text \<open>
  The authenticated request client: \<open>httpForm\<close> and \<open>httpGet\<close> of
  \<^verbatim>\<open>main.ts\<close>.  The outside world is a parameter: the transport \<open>net\<close> answers a
  request with a response or rejects it with an error message (\<open>requestUrl\<close>), the
  hash \<open>md5\<close> is any function on strings, and \<open>now_ms\<close> is \<open>Date.now()\<close>.  A
  response carries its status and the outcome of \<open>JSON.parse(response.text)\<close>: the
  parsed value or the SyntaxError's message.  Every request the client sends is
  returned in order with the outcome, so that the primary/fallback sequence is
  explicit.  \<open>debug\<close> logging has no effect on the outcome and is left out.
\<close>

datatype http_method = GET | POST

record request =
  rq_method :: http_method
  rq_url :: jstr
  rq_headers :: "(jstr \<times> jstr) list"
  rq_body :: "jstr option"

record response =
  rs_status :: int
  rs_json :: "jstr + jsval"

type_synonym transport = "request \<Rightarrow> jstr + response"

record http_env =
  net :: transport
  md5 :: "jstr \<Rightarrow> jstr"
  now_ms :: nat

subsection \<open>Messages\<close>

definition msg_api_fail :: jstr where
  "msg_api_fail = js ''API '' @ [0x8C03, 0x7528, 0x5931, 0x8D25] @ js '': ''"

definition msg_status :: jstr where
  "msg_status = js ''HTTP '' @ [0x72B6, 0x6001, 0x7801] @ js '': ''"

text \<open>The TypeError of reading \<open>data.code\<close> when \<open>JSON.parse\<close> returned \<open>null\<close>
  (V8's wording).\<close>

definition msg_null_code :: jstr where
  "msg_null_code = js ''Cannot read properties of null (reading 'code')''"

text \<open>The aggregated error of lines 693-698 (and 776-781).\<close>

definition agg_error :: "emlog_settings \<Rightarrow> jstr \<Rightarrow> jstr \<Rightarrow> jstr \<Rightarrow> jstr \<Rightarrow> jstr" where
  "agg_error s endpoint base e1 e2 = concat
     [js ''API '' @ [0x8C03, 0x7528, 0x5931, 0x8D25, 0xFF0C, 0x5DF2, 0x5C1D, 0x8BD5, 0x591A, 0x4E2A,
                    0x8DEF, 0x5F84] @ js '':\<newline>'',
      [0x4E3B, 0x8DEF, 0x5F84, 0x9519, 0x8BEF] @ js '': '', e1, js ''\<newline>'',
      [0x5907, 0x7528, 0x8DEF, 0x5F84, 0x9519, 0x8BEF] @ js '': '', e2, js ''\<newline>'',
      [0x8BF7, 0x6C42, 0x7684] @ js '' API: '', endpoint, js ''\<newline>'',
      [0x8BA4, 0x8BC1, 0x65B9, 0x5F0F] @ js '': '', auth_mode_str (auth_mode s), js ''\<newline>'',
      [0x535A, 0x5BA2, 0x5730, 0x5740] @ js '': '', base]"

subsection \<open>One attempt\<close>

text \<open>\<open>data.code === 0 || data.success\<close>.\<close>

definition api_ok :: "jsval \<Rightarrow> bool" where
  "api_ok d \<longleftrightarrow> get d (js ''code'') = Num 0 \<or> truthy (get d (js ''success''))"

text \<open>The envelope check of a parsed body: the data, or the error thrown.\<close>

definition envelope :: "jsval \<Rightarrow> jstr + jsval" where
  "envelope d =
     (if d = Null then Inl msg_null_code
      else if api_ok d then Inr d
      else Inl (msg_api_fail @ js_to_string
                  (js_or (get d (js ''msg'')) (js_or (get d (js ''message'')) (Str (json_stringify d))))))"

text \<open>The body of one \<open>try\<close> block: send, require status 200, parse, check the
  envelope; every \<open>throw\<close> and every rejection is an \<open>Inl\<close> with the error's
  message.\<close>

definition attempt :: "transport \<Rightarrow> request \<Rightarrow> jstr + jsval" where
  "attempt tr rq =
     (case tr rq of
        Inl m \<Rightarrow> Inl m
      | Inr r \<Rightarrow>
          if rs_status r = 200 then
            (case rs_json r of Inl m \<Rightarrow> Inl m | Inr d \<Rightarrow> envelope d)
          else Inl (msg_status @ int_str (rs_status r)))"

text \<open>The primary path, then on any error the fallback path, then the aggregated
  error: the requests sent and the outcome.\<close>

definition with_fallback ::
  "transport \<Rightarrow> request \<Rightarrow> request \<Rightarrow> (jstr \<Rightarrow> jstr \<Rightarrow> jstr) \<Rightarrow> request list \<times> (jstr + jsval)" where
  "with_fallback tr rq1 rq2 agg =
     (case attempt tr rq1 of
        Inr d \<Rightarrow> ([rq1], Inr d)
      | Inl e1 \<Rightarrow>
          (case attempt tr rq2 of
             Inr d \<Rightarrow> ([rq1, rq2], Inr d)
           | Inl e2 \<Rightarrow> ([rq1, rq2], Inl (agg e1 e2))))"

subsection \<open>URLs\<close>

text \<open>\<open>baseUrl.replace(/\/$/, '')\<close>: one trailing slash is removed.\<close>

definition strip_slash :: "jstr \<Rightarrow> jstr" where
  "strip_slash b = (if b \<noteq> [] \<and> last b = ch CHR ''/'' then butlast b else b)"

definition primary_url :: "jstr \<Rightarrow> jstr \<Rightarrow> jstr" where
  "primary_url base endpoint = base @ js ''/?rest-api='' @ endpoint"

definition fallback_url :: "jstr \<Rightarrow> jstr \<Rightarrow> jstr" where
  "fallback_url base endpoint = base @ js ''/index.php?rest-api='' @ endpoint"

subsection \<open>httpForm\<close>

definition signed_endpoints :: "jstr list" where
  "signed_endpoints = [js ''article_post'', js ''article_update'', js ''note_post'']"

definition form_content_type :: "jstr \<times> jstr" where
  "form_content_type = (js ''Content-Type'', js ''application/x-www-form-urlencoded'')"

text \<open>The form fields and headers of lines 624-643: the three mutating endpoints are
  always signed; the other endpoints follow the configured mode.\<close>

definition form_auth ::
  "emlog_settings \<Rightarrow> http_env \<Rightarrow> jstr \<Rightarrow> (jstr \<times> jstr) list
   \<Rightarrow> (jstr \<times> jstr) list \<times> (jstr \<times> jstr) list" where
  "form_auth s env endpoint params =
     (let t = digits (now_ms env div 1000);
          signed = obj_set (obj_set params (js ''req_time'') t) (js ''req_sign'') (md5 env (t @ api_key s))
      in if endpoint \<in> set signed_endpoints then (signed, [form_content_type])
         else (case auth_mode s of
                 Sign \<Rightarrow> (signed, [form_content_type])
               | Apikey \<Rightarrow> (params, [form_content_type, (js ''X-API-Key'', api_key s)])
               | Cookie \<Rightarrow> (params, [form_content_type, (js ''Cookie'', api_key s)])))"

definition form_request ::
  "emlog_settings \<Rightarrow> http_env \<Rightarrow> jstr \<Rightarrow> (jstr \<times> jstr) list \<Rightarrow> request" where
  "form_request s env endpoint params =
     (let (fp, hs) = form_auth s env endpoint params
      in \<lparr>rq_method = POST, rq_url = primary_url (strip_slash (base_url s)) endpoint,
          rq_headers = hs, rq_body = Some (url_search_params fp)\<rparr>)"

definition http_form ::
  "emlog_settings \<Rightarrow> http_env \<Rightarrow> jstr \<Rightarrow> (jstr \<times> jstr) list \<Rightarrow> request list \<times> (jstr + jsval)" where
  "http_form s env endpoint params =
     (let base = strip_slash (base_url s);
          rq = form_request s env endpoint params
      in with_fallback (net env) rq (rq\<lparr>rq_url := fallback_url base endpoint\<rparr>)
           (agg_error s endpoint base))"

subsection \<open>httpGet\<close>

definition get_headers :: "emlog_settings \<Rightarrow> http_env \<Rightarrow> (jstr \<times> jstr) list" where
  "get_headers s env =
     (case auth_mode s of
        Sign \<Rightarrow>
          (let ts = digits (now_ms env);
               nonce = md5 env (ts @ api_key s);
               sig = md5 env (ts @ nonce @ api_key s)
           in [(js ''X-API-Key'', api_key s), (js ''X-API-Nonce'', nonce),
               (js ''X-API-Req-Sign'', sig), (js ''X-API-Timestamp'', ts)])
      | Apikey \<Rightarrow> [(js ''X-API-Key'', api_key s)]
      | Cookie \<Rightarrow> [(js ''Cookie'', api_key s)])"

definition query_suffix :: "(jstr \<times> jstr) list \<Rightarrow> jstr" where
  "query_suffix params =
     (let q = url_search_params params in if q \<noteq> [] then js ''&'' @ q else [])"

definition get_request ::
  "emlog_settings \<Rightarrow> http_env \<Rightarrow> jstr \<Rightarrow> (jstr \<times> jstr) list \<Rightarrow> request" where
  "get_request s env endpoint params =
     \<lparr>rq_method = GET,
      rq_url = primary_url (strip_slash (base_url s)) endpoint @ query_suffix params,
      rq_headers = get_headers s env, rq_body = None\<rparr>"

definition http_get ::
  "emlog_settings \<Rightarrow> http_env \<Rightarrow> jstr \<Rightarrow> (jstr \<times> jstr) list \<Rightarrow> request list \<times> (jstr + jsval)" where
  "http_get s env endpoint params =
     (let base = strip_slash (base_url s);
          rq = get_request s env endpoint params
      in with_fallback (net env) rq
           (rq\<lparr>rq_url := fallback_url base endpoint @ query_suffix params\<rparr>)
           (agg_error s endpoint base))"

subsection \<open>Lemmas\<close>

lemma sublist_concat: "x \<in> set xs \<Longrightarrow> sublist x (concat xs)"
proof (induction xs)
  case (Cons y ys)
  then show ?case by (auto intro: sublist_order.order.trans[OF _ sublist_append_leftI])
qed simp

lemma attempt_Inr:
  "attempt tr rq = Inr d \<Longrightarrow> \<exists>r. tr rq = Inr r \<and> rs_status r = 200 \<and> rs_json r = Inr d \<and> api_ok d"
  by (auto simp: attempt_def envelope_def split: sum.splits if_splits)

lemma with_fallback_Inr:
  "snd (with_fallback tr rq1 rq2 agg) = Inr d \<Longrightarrow> \<exists>rq\<in>set (fst (with_fallback tr rq1 rq2 agg)). attempt tr rq = Inr d"
  by (auto simp: with_fallback_def split: sum.splits)

lemma with_fallback_Inl:
  "snd (with_fallback tr rq1 rq2 agg) = Inl m \<Longrightarrow>
     fst (with_fallback tr rq1 rq2 agg) = [rq1, rq2]
     \<and> (\<exists>e1 e2. attempt tr rq1 = Inl e1 \<and> attempt tr rq2 = Inl e2 \<and> m = agg e1 e2)"
  by (auto simp: with_fallback_def split: sum.splits)

lemma with_fallback_sent: "set (fst (with_fallback tr rq1 rq2 agg)) \<subseteq> {rq1, rq2}"
  by (auto simp: with_fallback_def split: sum.splits)

lemma with_fallback_second:
  "attempt tr rq1 = Inl e1 \<Longrightarrow> attempt tr rq2 = Inr d \<Longrightarrow> with_fallback tr rq1 rq2 agg = ([rq1, rq2], Inr d)"
  by (simp add: with_fallback_def)

lemma attempt_status:
  "tr rq = Inr r \<Longrightarrow> rs_status r \<noteq> 200 \<Longrightarrow> attempt tr rq = Inl (msg_status @ int_str (rs_status r))"
  by (simp add: attempt_def)

lemma attempt_ok:
  "tr rq = Inr r \<Longrightarrow> rs_status r = 200 \<Longrightarrow> rs_json r = Inr d \<Longrightarrow> api_ok d \<Longrightarrow> attempt tr rq = Inr d"
  by (auto simp: attempt_def envelope_def api_ok_def)

lemma attempt_not_ok:
  "tr rq = Inr r \<Longrightarrow> rs_json r = Inr d \<Longrightarrow> \<not> api_ok d \<Longrightarrow> \<exists>m. attempt tr rq = Inl m"
  by (auto simp: attempt_def envelope_def)

lemma http_form_sent: "set (fst (http_form s env e ps)) \<subseteq>
   {form_request s env e ps, (form_request s env e ps)\<lparr>rq_url := fallback_url (strip_slash (base_url s)) e\<rparr>}"
  unfolding http_form_def Let_def by (rule with_fallback_sent)

lemma http_get_sent: "set (fst (http_get s env e ps)) \<subseteq>
   {get_request s env e ps, (get_request s env e ps)\<lparr>rq_url := fallback_url (strip_slash (base_url s)) e @ query_suffix ps\<rparr>}"
  unfolding http_get_def Let_def by (rule with_fallback_sent)

lemma form_request_signed:
  "e \<in> set signed_endpoints \<Longrightarrow>
   rq_method (form_request s env e ps) = POST \<and> rq_headers (form_request s env e ps) = [form_content_type]
   \<and> rq_body (form_request s env e ps) = Some (url_search_params
        (obj_set (obj_set ps (js ''req_time'') (digits (now_ms env div 1000))) (js ''req_sign'')
           (md5 env (digits (now_ms env div 1000) @ api_key s))))"
  by (simp add: form_request_def form_auth_def Let_def)

lemma unat_of_nat_cu: "n < 65536 \<Longrightarrow> unat (of_nat n :: cu) = n"
  by (simp add: unat_of_nat)

lemma unat_cu_less: "unat (c::cu) < 65536" using unsigned_less[of c] by simp

lemma pair_cp_bound:
  assumes "is_high_sur c" "is_low_sur d"
  shows "0x10000 + (unat c - 0xD800) * 0x400 + (unat d - 0xDC00) < (0x110000::nat)"
proof -
  have "unat c - 0xD800 \<le> 1023" "unat d - 0xDC00 \<le> 1023"
    using assms by (auto simp: is_high_sur_def is_low_sur_def word_le_nat_alt)
  then have "(unat c - 0xD800) * 0x400 \<le> 1023 * 0x400" "unat d - 0xDC00 \<le> 1023"
    by simp_all
  then show ?thesis by linarith
qed

lemma code_points_bound: "x \<in> set (code_points s) \<Longrightarrow> x < 0x110000"
proof (induction s rule: code_points.induct)
  case (2 c cs)
  show ?case
  proof (cases "is_high_sur c")
    case True
    show ?thesis
    proof (cases cs)
      case Nil
      then show ?thesis using "2.prems" True by simp
    next
      case (Cons d ds)
      show ?thesis
      proof (cases "is_low_sur d")
        case low: True
        have "x = 0x10000 + (unat c - 0xD800) * 0x400 + (unat d - 0xDC00) \<or> x \<in> set (code_points ds)"
          using "2.prems" True Cons low by (simp only: code_points.simps if_True list.case set_simps) blast
        then show ?thesis using "2.IH"(1)[OF True Cons low] pair_cp_bound[OF True low] by blast
      next
        case False
        have "x = 0xFFFD \<or> x \<in> set (code_points cs)"
          using "2.prems" True Cons False by (simp only: code_points.simps if_True if_False list.case set_simps) blast
        then show ?thesis using "2.IH"(2)[OF True Cons False] by auto
      qed
    qed
  next
    case False
    have "x = 0xFFFD \<and> is_low_sur c \<or> x = unat c \<or> x \<in> set (code_points cs)"
      using "2.prems" False by (auto simp only: code_points.simps if_False set_simps split: if_splits)
    then show ?thesis using "2.IH"(3,4) False unat_cu_less[of c] by (auto simp del: code_points.simps)
  qed
qed simp

lemma utf8_bytes_bound: "cp < 0x110000 \<Longrightarrow> \<forall>b\<in>set (utf8_bytes cp). b < 256"
  by (auto simp: utf8_bytes_def)

lemma hex_upper_unat:
  "d < 16 \<Longrightarrow> unat (hex_upper d) = (if d < 10 then 48 + d else 55 + d)"
  by (simp add: hex_upper_def unat_word_ariths unat_of_nat)

lemma hex_upper_char: "d < 16 \<Longrightarrow> unat (hex_upper d) < 128 \<and> unat (hex_upper d) \<notin> {0x23, 0x26, 0x3D}"
  by (simp add: hex_upper_unat)

lemma form_byte_char:
  assumes "b < 256" "c \<in> set (form_byte b)"
  shows "unat c < 128 \<and> unat c \<notin> {0x23, 0x26, 0x3D}"
proof (cases "b = 0x20 \<or> form_safe b")
  case True
  then have "c = 0x2B \<or> (c = of_nat b \<and> form_safe b)"
    using assms(2) by (auto simp: form_byte_def split: if_splits)
  then show ?thesis
    using assms(1) by (auto simp: unat_of_nat_cu form_safe_def)
next
  case False
  then have "c = 0x25 \<or> c = hex_upper (b div 16) \<or> c = hex_upper (b mod 16)"
    using assms(2) by (simp add: form_byte_def)
  moreover have "b div 16 < 16" using assms(1) by simp
  ultimately show ?thesis using hex_upper_char by auto
qed

text \<open>C13. The three mutating endpoints (\<open>article_post\<close>, \<open>article_update\<close>,
  \<open>note_post\<close>) are signed whatever the configured mode: every request \<open>httpForm\<close>
  sends for them is a POST with only the form content type as header, and its body
  is the form fields followed by \<open>req_time\<close> (seconds) and
  \<open>req_sign = md5(req_time + apiKey)\<close>.\<close>

theorem http_form_signs_mutating:
  assumes "e \<in> set signed_endpoints" and "rq \<in> set (fst (http_form s env e ps))"
  shows "rq_method rq = POST \<and> rq_headers rq = [form_content_type]
         \<and> rq_body rq = Some (url_search_params
              (obj_set (obj_set ps (js ''req_time'') (digits (now_ms env div 1000))) (js ''req_sign'')
                 (md5 env (digits (now_ms env div 1000) @ api_key s))))"
  using http_form_sent[of s env e ps] form_request_signed[OF assms(1), of s env ps] assms(2) by auto

lemma http_form_signs_mutating_witness:
  "rq_method (form_request (default_settings\<lparr>base_url := js ''http://b/''\<rparr>) (\<lparr>net = (\<lambda>rq. Inl (js ''down'')), md5 = rev, now_ms = 5000\<rparr>) (js ''article_post'') [(js ''title'', js ''T'')]) = POST
   \<and> rq_headers (form_request (default_settings\<lparr>base_url := js ''http://b/''\<rparr>) (\<lparr>net = (\<lambda>rq. Inl (js ''down'')), md5 = rev, now_ms = 5000\<rparr>) (js ''article_post'') [(js ''title'', js ''T'')]) = [form_content_type]
   \<and> rq_body (form_request (default_settings\<lparr>base_url := js ''http://b/''\<rparr>) (\<lparr>net = (\<lambda>rq. Inl (js ''down'')), md5 = rev, now_ms = 5000\<rparr>) (js ''article_post'') [(js ''title'', js ''T'')]) = Some (url_search_params
        (obj_set (obj_set [(js ''title'', js ''T'')] (js ''req_time'') (digits (5000 div 1000))) (js ''req_sign'')
           (rev (digits (5000 div 1000) @ api_key (default_settings\<lparr>base_url := js ''http://b/''\<rparr>)))))"
  using http_form_signs_mutating[of "js ''article_post''" "form_request (default_settings\<lparr>base_url := js ''http://b/''\<rparr>) (\<lparr>net = (\<lambda>rq. Inl (js ''down'')), md5 = rev, now_ms = 5000\<rparr>) (js ''article_post'') [(js ''title'', js ''T'')]" "default_settings\<lparr>base_url := js ''http://b/''\<rparr>" "\<lparr>net = (\<lambda>rq. Inl (js ''down'')), md5 = rev, now_ms = 5000\<rparr>" "[(js ''title'', js ''T'')]"]
  by (simp add: signed_endpoints_def http_form_def with_fallback_def attempt_def envelope_def api_ok_def Let_def)

text \<open>C14. When the primary path answers with a non-success envelope and the fallback
  path \<open>/index.php?rest-api=\<close> with status 200 and a success envelope, \<open>httpForm\<close>
  sends exactly these two requests and resolves with the fallback's data.\<close>

theorem http_form_fallback_success:
  assumes "net env (form_request s env e ps) = Inr r1" "rs_json r1 = Inr d1" "\<not> api_ok d1"
    and "net env ((form_request s env e ps)\<lparr>rq_url := fallback_url (strip_slash (base_url s)) e\<rparr>) = Inr r2"
    and "rs_status r2 = 200" "rs_json r2 = Inr d2" "api_ok d2"
  shows "snd (http_form s env e ps) = Inr d2 \<and> length (fst (http_form s env e ps)) = 2"
proof -
  obtain m where "attempt (net env) (form_request s env e ps) = Inl m"
    using attempt_not_ok[of "net env" "form_request s env e ps", OF assms(1-3)] by blast
  then show ?thesis
    using with_fallback_second attempt_ok[of "net env" "(form_request s env e ps)\<lparr>rq_url := fallback_url (strip_slash (base_url s)) e\<rparr>", OF assms(4-7)] by (simp add: http_form_def Let_def)
qed

lemma http_form_fallback_success_witness:
  "snd (http_form (default_settings\<lparr>base_url := js ''http://b/''\<rparr>) (\<lparr>net = (\<lambda>rq. if rq_url rq = js ''http://b/?rest-api=article_post'' then Inr \<lparr>rs_status = 200, rs_json = Inr (Obj [(js ''code'', Num 1)])\<rparr> else Inr \<lparr>rs_status = 200, rs_json = Inr (Obj [(js ''code'', Num 0)])\<rparr>), md5 = rev, now_ms = 5000\<rparr>) (js ''article_post'') [(js ''title'', js ''T'')]) = Inr (Obj [(js ''code'', Num 0)])
   \<and> length (fst (http_form (default_settings\<lparr>base_url := js ''http://b/''\<rparr>) (\<lparr>net = (\<lambda>rq. if rq_url rq = js ''http://b/?rest-api=article_post'' then Inr \<lparr>rs_status = 200, rs_json = Inr (Obj [(js ''code'', Num 1)])\<rparr> else Inr \<lparr>rs_status = 200, rs_json = Inr (Obj [(js ''code'', Num 0)])\<rparr>), md5 = rev, now_ms = 5000\<rparr>) (js ''article_post'') [(js ''title'', js ''T'')])) = 2"
  by (rule http_form_fallback_success[of "\<lparr>net = (\<lambda>rq. if rq_url rq = js ''http://b/?rest-api=article_post'' then Inr \<lparr>rs_status = 200, rs_json = Inr (Obj [(js ''code'', Num 1)])\<rparr> else Inr \<lparr>rs_status = 200, rs_json = Inr (Obj [(js ''code'', Num 0)])\<rparr>), md5 = rev, now_ms = 5000\<rparr>" "default_settings\<lparr>base_url := js ''http://b/''\<rparr>"
        "js ''article_post''" "[(js ''title'', js ''T'')]"
        "\<lparr>rs_status = 200, rs_json = Inr (Obj [(js ''code'', Num 1)])\<rparr>" "Obj [(js ''code'', Num 1)]"
        "\<lparr>rs_status = 200, rs_json = Inr (Obj [(js ''code'', Num 0)])\<rparr>"])
     (simp_all add: form_request_def form_auth_def primary_url_def fallback_url_def strip_slash_def
        signed_endpoints_def api_ok_def Let_def js_simps)

text \<open>C15. \<open>httpForm\<close> resolves only with data it received: a request it sent was
  answered with status 200 and a body that parses to that data, whose envelope
  signals success (\<open>code === 0\<close> or a truthy \<open>success\<close>).\<close>

theorem http_form_success_envelope:
  assumes "snd (http_form s env e ps) = Inr d"
  shows "\<exists>rq r. rq \<in> set (fst (http_form s env e ps)) \<and> net env rq = Inr r
           \<and> rs_status r = 200 \<and> rs_json r = Inr d \<and> api_ok d"
  using assms with_fallback_Inr[of "net env"] attempt_Inr unfolding http_form_def Let_def by blast

lemma http_form_success_envelope_witness:
  "\<exists>rq r. rq \<in> set (fst (http_form (default_settings\<lparr>base_url := js ''http://b/''\<rparr>) (\<lparr>net = (\<lambda>rq. Inr \<lparr>rs_status = 200, rs_json = Inr (Obj [(js ''code'', Num 0)])\<rparr>), md5 = rev, now_ms = 5000\<rparr>) (js ''article_post'') [(js ''title'', js ''T'')])) \<and> net (\<lparr>net = (\<lambda>rq. Inr \<lparr>rs_status = 200, rs_json = Inr (Obj [(js ''code'', Num 0)])\<rparr>), md5 = rev, now_ms = 5000\<rparr>) rq = Inr r
     \<and> rs_status r = 200 \<and> rs_json r = Inr (Obj [(js ''code'', Num 0)]) \<and> api_ok (Obj [(js ''code'', Num 0)])"
  by (rule http_form_success_envelope) (simp add: http_form_def with_fallback_def attempt_def envelope_def api_ok_def Let_def)

text \<open>C16. When both paths fail, \<open>httpForm\<close> has sent exactly the two requests and
  rejects with the aggregated message built from the two errors; the message names
  the endpoint and the base URL.\<close>

theorem http_form_error_aggregates:
  assumes "snd (http_form s env e ps) = Inl m"
  shows "length (fst (http_form s env e ps)) = 2
    \<and> (\<exists>e1 e2. m = agg_error s e (strip_slash (base_url s)) e1 e2
           \<and> attempt (net env) (form_request s env e ps) = Inl e1
           \<and> attempt (net env) ((form_request s env e ps)\<lparr>rq_url := fallback_url (strip_slash (base_url s)) e\<rparr>) = Inl e2)
    \<and> sublist e m \<and> sublist (strip_slash (base_url s)) m"
proof -
  from assms with_fallback_Inl[of "net env"]
  obtain e1 e2 where "fst (http_form s env e ps) = [form_request s env e ps,
        (form_request s env e ps)\<lparr>rq_url := fallback_url (strip_slash (base_url s)) e\<rparr>]"
    and "attempt (net env) (form_request s env e ps) = Inl e1"
    and "attempt (net env) ((form_request s env e ps)\<lparr>rq_url := fallback_url (strip_slash (base_url s)) e\<rparr>) = Inl e2"
    and m: "m = agg_error s e (strip_slash (base_url s)) e1 e2"
    unfolding http_form_def Let_def by blast
  moreover have "sublist e m \<and> sublist (strip_slash (base_url s)) m"
    unfolding m agg_error_def by (intro conjI sublist_concat) simp_all
  ultimately show ?thesis by auto
qed

lemma http_form_error_aggregates_witness:
  "length (fst (http_form (default_settings\<lparr>base_url := js ''http://b/''\<rparr>) (\<lparr>net = (\<lambda>rq. Inl (js ''down'')), md5 = rev, now_ms = 5000\<rparr>) (js ''article_post'') [(js ''title'', js ''T'')])) = 2
   \<and> (\<exists>e1 e2. agg_error (default_settings\<lparr>base_url := js ''http://b/''\<rparr>) (js ''article_post'') (js ''http://b'') (js ''down'') (js ''down'') = agg_error (default_settings\<lparr>base_url := js ''http://b/''\<rparr>) (js ''article_post'') (strip_slash (base_url (default_settings\<lparr>base_url := js ''http://b/''\<rparr>))) e1 e2
        \<and> attempt (net (\<lparr>net = (\<lambda>rq. Inl (js ''down'')), md5 = rev, now_ms = 5000\<rparr>)) (form_request (default_settings\<lparr>base_url := js ''http://b/''\<rparr>) (\<lparr>net = (\<lambda>rq. Inl (js ''down'')), md5 = rev, now_ms = 5000\<rparr>) (js ''article_post'') [(js ''title'', js ''T'')]) = Inl e1
        \<and> attempt (net (\<lparr>net = (\<lambda>rq. Inl (js ''down'')), md5 = rev, now_ms = 5000\<rparr>)) ((form_request (default_settings\<lparr>base_url := js ''http://b/''\<rparr>) (\<lparr>net = (\<lambda>rq. Inl (js ''down'')), md5 = rev, now_ms = 5000\<rparr>) (js ''article_post'') [(js ''title'', js ''T'')])\<lparr>rq_url := fallback_url (strip_slash (base_url (default_settings\<lparr>base_url := js ''http://b/''\<rparr>))) (js ''article_post'')\<rparr>) = Inl e2)
   \<and> sublist (js ''article_post'') (agg_error (default_settings\<lparr>base_url := js ''http://b/''\<rparr>) (js ''article_post'') (js ''http://b'') (js ''down'') (js ''down''))
   \<and> sublist (strip_slash (base_url (default_settings\<lparr>base_url := js ''http://b/''\<rparr>))) (agg_error (default_settings\<lparr>base_url := js ''http://b/''\<rparr>) (js ''article_post'') (js ''http://b'') (js ''down'') (js ''down''))"
  by (rule http_form_error_aggregates) (simp add: http_form_def with_fallback_def attempt_def envelope_def api_ok_def Let_def strip_slash_def js_simps)

text \<open>C17. In signature mode every GET request \<open>httpGet\<close> sends carries the API key
  itself in the \<open>X-API-Key\<close> header, next to the nonce and signature computed from
  it.\<close>

theorem http_get_sign_sends_key:
  assumes "auth_mode s = Sign" and "rq \<in> set (fst (http_get s env e ps))"
  shows "(js ''X-API-Key'', api_key s) \<in> set (rq_headers rq)"
  using http_get_sent[of s env e ps] assms by (auto simp: get_request_def get_headers_def Let_def)

lemma http_get_sign_sends_key_witness:
  "(js ''X-API-Key'', js ''k'') \<in> set (rq_headers (get_request (default_settings\<lparr>base_url := js ''http://b/'', api_key := js ''k''\<rparr>) (\<lparr>net = (\<lambda>rq. Inl (js ''down'')), md5 = rev, now_ms = 5000\<rparr>) (js ''sort_list'') []))"
  using http_get_sign_sends_key[of "default_settings\<lparr>base_url := js ''http://b/'', api_key := js ''k''\<rparr>" "get_request (default_settings\<lparr>base_url := js ''http://b/'', api_key := js ''k''\<rparr>) (\<lparr>net = (\<lambda>rq. Inl (js ''down'')), md5 = rev, now_ms = 5000\<rparr>) (js ''sort_list'') []" "\<lparr>net = (\<lambda>rq. Inl (js ''down'')), md5 = rev, now_ms = 5000\<rparr>" "js ''sort_list''" "[]"]
  by (simp add: default_settings_def http_get_def with_fallback_def attempt_def Let_def)

text \<open>C18. Only status 200 counts as success: if the server answers every request with
  another status, even a 2xx one, \<open>httpForm\<close> rejects with the aggregated error of
  two \<open>HTTP status\<close> messages.\<close>

theorem http_form_requires_200:
  assumes "\<forall>rq. net env rq = Inr r" and "rs_status r \<noteq> 200"
  shows "snd (http_form s env e ps)
         = Inl (agg_error s e (strip_slash (base_url s)) (msg_status @ int_str (rs_status r)) (msg_status @ int_str (rs_status r)))"
  using assms by (simp add: http_form_def with_fallback_def attempt_status Let_def)

lemma http_form_requires_200_witness:
  "snd (http_form (default_settings\<lparr>base_url := js ''http://b/''\<rparr>) \<lparr>net = (\<lambda>rq. Inr \<lparr>rs_status = 201, rs_json = Inr (Obj [(js ''code'', Num 0)])\<rparr>), md5 = rev, now_ms = 5000\<rparr> (js ''article_post'') [(js ''title'', js ''T'')])
   = Inl (agg_error (default_settings\<lparr>base_url := js ''http://b/''\<rparr>) (js ''article_post'') (strip_slash (base_url (default_settings\<lparr>base_url := js ''http://b/''\<rparr>))) (msg_status @ int_str 201) (msg_status @ int_str 201))"
  using http_form_requires_200[where r = "\<lparr>rs_status = 201, rs_json = Inr (Obj [(js ''code'', Num 0)])\<rparr>"]
  by simp

end
