(* ===== verification/Emlog_Images.thy ===== *)
theory Emlog_Images
  imports Emlog_Prelude
begin

text \<open>
  The image rewriter: \<open>processImages\<close>, \<open>joinPath\<close>, \<open>resolveFile\<close> and
  \<open>escapeRegExp\<close> of \<^verbatim>\<open>main.ts\<close>.  The regular expressions of the source are
  translated into matchers that return the length of the match at the start of the
  text and its capture groups; a global \<open>exec\<close> loop and a global \<open>replace\<close> are
  scans over the positions of the text.  The patterns built from an escaped reference
  \<open>p\<close> match \<open>p\<close> literally, which is what \<open>escapeRegExp\<close> is for.  The vault is a
  list of files; the uploader is \<open>this.uploadBinary\<close>, absent (\<open>None\<close>) in the source,
  so that every call to it throws a TypeError.
\<close>

subsection \<open>Global matching and replacement\<close>

type_synonym matcher = "jstr \<Rightarrow> (nat \<times> jstr option list) option"

text \<open>\<open>s.replace(/re/g, f)\<close>: at each position the match found there is replaced by
  \<open>f\<close> of the text before it, the match, the text after it and the captures, and the
  scan resumes after the match; elsewhere the unit is kept.  The matchers of this
  theory never match the empty string.\<close>

function greplace_from ::
  "matcher \<Rightarrow> (jstr \<Rightarrow> jstr \<Rightarrow> jstr \<Rightarrow> jstr option list \<Rightarrow> jstr) \<Rightarrow> jstr \<Rightarrow> nat \<Rightarrow> jstr" where
  "greplace_from mt f s i =
     (if length s \<le> i then []
      else (case mt (drop i s) of
              Some (n, caps) \<Rightarrow>
                f (take i s) (take n (drop i s)) (drop (i + n) s) caps @ greplace_from mt f s (i + max n 1)
            | None \<Rightarrow> s ! i # greplace_from mt f s (Suc i)))"
  by pat_completeness auto

termination greplace_from
  by (relation "measure (\<lambda>(mt, f, s, i). length s - i)") auto

definition greplace :: "matcher \<Rightarrow> (jstr \<Rightarrow> jstr \<Rightarrow> jstr \<Rightarrow> jstr option list \<Rightarrow> jstr) \<Rightarrow> jstr \<Rightarrow> jstr" where
  "greplace mt f s = greplace_from mt f s 0"

text \<open>The first capture group of every match of a global \<open>exec\<close> loop, in order.\<close>

function exec_all_from :: "matcher \<Rightarrow> jstr \<Rightarrow> nat \<Rightarrow> jstr list" where
  "exec_all_from mt s i =
     (if length s \<le> i then []
      else (case mt (drop i s) of
              Some (n, caps) \<Rightarrow> (case caps of Some g # _ \<Rightarrow> [g] | _ \<Rightarrow> []) @ exec_all_from mt s (i + max n 1)
            | None \<Rightarrow> exec_all_from mt s (Suc i)))"
  by pat_completeness auto

termination exec_all_from
  by (relation "measure (\<lambda>(mt, s, i). length s - i)") auto

text \<open>\<open>t.replace(p, r)\<close> with a string pattern: the first occurrence only, and the
  replacement's \<open>$\<close> patterns are interpreted.\<close>

definition replace_first :: "jstr \<Rightarrow> jstr \<Rightarrow> jstr \<Rightarrow> jstr" where
  "replace_first p r t =
     (case find_sub p t of
        None \<Rightarrow> t
      | Some k \<Rightarrow> take k t @ get_substitution p (take k t) (drop (k + length p) t) [] r @ drop (k + length p) t)"

subsection \<open>The scanning patterns\<close>

text \<open>\<^verbatim>\<open>/!\[[^\]]*\]\(([^)]+)\)/g\<close>: \<open>[^\]]*\<close> runs to the first \<open>]\<close>, which must be
  followed by \<open>(\<close>; the group runs to the first \<open>)\<close> and is not empty.\<close>

definition md_img_at :: matcher where
  "md_img_at s =
     (case s of
        a # b # r \<Rightarrow>
          if a = 33 \<and> b = 91 then
            (let alt = takeWhile (\<lambda>c. c \<noteq> 93) r; r2 = drop (length alt) r in
             if take 2 r2 = [93, 40] then
               (let p = takeWhile (\<lambda>c. c \<noteq> 41) (drop 2 r2) in
                if p \<noteq> [] \<and> length p < length (drop 2 r2)
                then Some (length alt + length p + 5, [Some p]) else None)
             else None)
          else None
      | _ \<Rightarrow> None)"

text \<open>\<^verbatim>\<open>/!\[\[([^\]|]+)(?:\|[^\]]*)?\]\]/g\<close>.\<close>

definition wiki_img_at :: matcher where
  "wiki_img_at s =
     (if take 3 s = [33, 91, 91] then
        (let r = drop 3 s; p = takeWhile (\<lambda>c. c \<noteq> 93 \<and> c \<noteq> 124) r; r2 = drop (length p) r in
         if p = [] then None
         else if take 1 r2 = [124] then
           (let l = takeWhile (\<lambda>c. c \<noteq> 93) (drop 1 r2) in
            if take 2 (drop (1 + length l) r2) = [93, 93]
            then Some (3 + length p + 1 + length l + 2, [Some p]) else None)
         else if take 2 r2 = [93, 93] then Some (3 + length p + 2, [Some p]) else None)
      else None)"

text \<open>\<^verbatim>\<open>/^(https?:)?\/\//i\<close> and \<open>p.startsWith('data:')\<close>.\<close>

definition lower :: "cu \<Rightarrow> cu" where
  "lower c = (if 65 \<le> c \<and> c \<le> 90 then c + 32 else c)"

definition is_remote :: "jstr \<Rightarrow> bool" where
  "is_remote p \<longleftrightarrow>
     (let l = map lower p in
      prefix (js ''//'') l \<or> prefix (js ''http://'') l \<or> prefix (js ''https://'') l
      \<or> prefix (js ''data:'') p)"

subsection \<open>The rewriting patterns\<close>

text \<open>\<open>!\[[^\]]*\]\(\n?\t?p\)\<close> (the template literal turns \<open>\n\<close> and \<open>\t\<close> into a
  newline and a tab): the optional units are tried greedily, with backtracking.\<close>

definition nl_tab_skips :: "jstr \<Rightarrow> nat list" where
  "nl_tab_skips r =
     (if take 1 r = [10] then (if take 1 (drop 1 r) = [9] then [2, 1] else [1]) else [])
     @ (if take 1 r = [9] then [1] else []) @ [0]"

definition md_ref_at :: "jstr \<Rightarrow> matcher" where
  "md_ref_at p s =
     (case s of
        a # b # r \<Rightarrow>
          if a = 33 \<and> b = 91 then
            (let alt = takeWhile (\<lambda>c. c \<noteq> 93) r; r2 = drop (length alt) r in
             if take 2 r2 = [93, 40] then
               (case find (\<lambda>k. prefix (p @ [41]) (drop k (drop 2 r2))) (nl_tab_skips (drop 2 r2)) of
                  Some k \<Rightarrow> Some (length alt + 4 + k + length p + 1, [])
                | None \<Rightarrow> None)
             else None)
          else None
      | _ \<Rightarrow> None)"

text \<open>\<open>!\[\[p(\|[^\]]*)?\]\]\<close>, with its capture group.\<close>

definition wiki_ref_at :: "jstr \<Rightarrow> matcher" where
  "wiki_ref_at p s =
     (if prefix ([33, 91, 91] @ p) s then
        (let r2 = drop (3 + length p) s in
         if take 1 r2 = [124] \<and> take 2 (drop (1 + length (takeWhile (\<lambda>c. c \<noteq> 93) (drop 1 r2))) r2) = [93, 93]
         then (let g = 124 # takeWhile (\<lambda>c. c \<noteq> 93) (drop 1 r2)
               in Some (3 + length p + length g + 2, [Some g]))
         else if take 2 r2 = [93, 93] then Some (3 + length p + 2, [None])
         else None)
      else None)"

subsection \<open>Paths and files\<close>

definition last_index_of :: "cu \<Rightarrow> jstr \<Rightarrow> int" where
  "last_index_of c s =
     (case find (\<lambda>i. s ! i = c) (rev [0..<length s]) of Some i \<Rightarrow> int i | None \<Rightarrow> -1)"

text \<open>The segment loop of \<open>joinPath\<close>.\<close>

fun path_stack :: "jstr list \<Rightarrow> jstr list \<Rightarrow> jstr list" where
  "path_stack st [] = st"
| "path_stack st (seg # segs) =
     (if seg = [] \<or> seg = js ''.'' then path_stack st segs
      else if seg = js ''..'' then path_stack (butlast st) segs
      else path_stack (st @ [seg]) segs)"

definition join_path :: "jstr \<Rightarrow> jstr \<Rightarrow> jstr" where
  "join_path parent rel =
     (if starts_with rel (js ''/'') then slice_from rel 1
      else (let parent_dir = substring parent 0 (last_index_of (ch CHR ''/'') parent);
                parts = split_on (ch CHR ''/'') ((if parent_dir \<noteq> [] then parent_dir @ js ''/'' else []) @ rel)
            in join (js ''/'') (path_stack [] parts)))"

definition get_file_by_path :: "tfile list \<Rightarrow> jstr \<Rightarrow> tfile option" where
  "get_file_by_path files p = find (\<lambda>f. tf_path f = p) files"

definition resolve_file :: "tfile list \<Rightarrow> jstr \<Rightarrow> tfile \<Rightarrow> tfile option" where
  "resolve_file files path_like current =
     (case get_file_by_path files (join_path (tf_path current) path_like) of
        Some f \<Rightarrow> Some f
      | None \<Rightarrow>
          (case get_file_by_path files path_like of
             Some f \<Rightarrow> Some f
           | None \<Rightarrow>
               (let base = last (split_on (ch CHR ''/'') path_like) in
                if base = [] then None
                else (case filter (\<lambda>x. tf_name x = base) files of [] \<Rightarrow> None | f # _ \<Rightarrow> Some f))))"



subsection \<open>processImages\<close>

text \<open>Resolve and upload one reference: the mapping gets \<open>p \<mapsto> url\<close> when the file
  resolves and the upload returns; a failed upload is caught and logged.\<close>

definition upload_ref ::
  "(tfile \<Rightarrow> jstr + jstr) option \<Rightarrow> tfile list \<Rightarrow> tfile \<Rightarrow> jstr \<Rightarrow> (jstr \<times> jstr) list \<Rightarrow> (jstr \<times> jstr) list" where
  "upload_ref uploader files current p mapping =
     (case resolve_file files p current of
        None \<Rightarrow> mapping
      | Some f \<Rightarrow>
          (case uploader of
             None \<Rightarrow> mapping
           | Some up \<Rightarrow> (case up f of Inl _ \<Rightarrow> mapping | Inr url \<Rightarrow> obj_set mapping p url)))"

definition rewrite_ref :: "jstr \<Rightarrow> jstr \<Rightarrow> jstr \<Rightarrow> jstr" where
  "rewrite_ref p url t =
     greplace (wiki_ref_at p) (\<lambda>pre m post caps. get_substitution m pre post caps (js ''![]('' @ url @ js '')''))
       (greplace (md_ref_at p) (\<lambda>pre m post caps. replace_first p url m) t)"

definition process_images ::
  "(tfile \<Rightarrow> jstr + jstr) option \<Rightarrow> tfile list \<Rightarrow> jstr \<Rightarrow> tfile \<Rightarrow> jstr \<times> (jstr \<times> jstr) list" where
  "process_images uploader files markdown current =
     (let md_refs = filter (\<lambda>p. \<not> is_remote p) (map trim (exec_all_from md_img_at markdown 0));
          wiki_refs = map trim (exec_all_from wiki_img_at markdown 0);
          mapping = fold (upload_ref uploader files current) (md_refs @ wiki_refs) [];
          next = fold (\<lambda>(p, url) t. rewrite_ref p url t) mapping markdown
      in (next, mapping))"

subsection \<open>Reading the escaped pattern\<close>


text \<open>A path segment \<open>joinPath\<close> keeps: not empty, not \<open>.\<close> or \<open>..\<close>, no slash.\<close>

definition clean_seg :: "jstr \<Rightarrow> bool" where
  "clean_seg x \<longleftrightarrow> x \<noteq> [] \<and> x \<noteq> js ''.'' \<and> x \<noteq> js ''..'' \<and> ch CHR ''/'' \<notin> set x"

subsection \<open>Lemmas\<close>

lemma upload_ref_None [simp]: "upload_ref None files cur p m = m"
  by (simp add: upload_ref_def split: option.split)

lemma fold_upload_None [simp]: "fold (upload_ref None files cur) ps m = m"
  by (induction ps arbitrary: m) simp_all

lemma last_index_of_snoc:
  "last_index_of c (s @ [x]) = (if x = c then int (length s) else last_index_of c s)"
proof -
  have "find (\<lambda>i. (s @ [x]) ! i = c) (rev [0..<length s]) = find (\<lambda>i. s ! i = c) (rev [0..<length s])"
    by (rule find_cong) (auto simp: nth_append)
  then show ?thesis by (simp add: last_index_of_def)
qed

lemma last_index_of_free: "c \<notin> set s \<Longrightarrow> last_index_of c s = -1"
proof (induction s rule: rev_induct)
  case Nil
  then show ?case by (simp add: last_index_of_def)
next
  case (snoc x xs)
  then show ?case using last_index_of_snoc[of c xs x] by auto
qed

lemma last_index_of_last: "c \<notin> set b \<Longrightarrow> last_index_of c (a @ c # b) = int (length a)"
proof (induction b rule: rev_induct)
  case Nil
  then show ?case using last_index_of_snoc[of c a c] by simp
next
  case (snoc x b)
  then show ?case using last_index_of_snoc[of c "a @ c # b" x] by auto
qed

lemma join_snoc: "ds \<noteq> [] \<Longrightarrow> join [d] (ds @ [x]) = join [d] ds @ d # x"
  by (induction "[d]" ds rule: join.induct) auto

lemma split_on_join_app:
  "\<forall>l\<in>set ls. d \<notin> set l \<Longrightarrow> ls \<noteq> [] \<Longrightarrow> split_on d (join [d] ls @ d # r) = ls @ split_on d r"
  by (induction "[d]" ls rule: join.induct) (auto simp: split_on_append_sep)

lemma join_Cons_Cons: "\<exists>t. join [d] ((c # w) # ws) = c # t"
  by (cases ws) auto

lemma path_stack_append: "path_stack st (xs @ ys) = path_stack (path_stack st xs) ys"
  by (induction st xs rule: path_stack.induct) auto

lemma path_stack_clean_id: "list_all clean_seg xs \<Longrightarrow> path_stack st xs = st @ xs"
  by (induction xs arbitrary: st) (auto simp: clean_seg_def)

text \<open>\<open>joinPath\<close> of a note path \<open>ds/name\<close> and a relative reference: the segment
  loop runs over the note's folder \<open>ds\<close> and the reference's segments.\<close>

lemma join_path_folder:
  assumes "list_all clean_seg ds" "ch CHR ''/'' \<notin> set name" "\<not> prefix (js ''/'') rel"
  shows "join_path (join (js ''/'') (ds @ [name])) rel
       = join (js ''/'') (path_stack ds (split_on (ch CHR ''/'') rel))"
proof (cases "ds = []")
  case True
  have "last_index_of (ch CHR ''/'') name = -1" using assms(2) by (rule last_index_of_free)
  then show ?thesis using True assms(3) by (simp add: join_path_def substring_def clamp_index_def)
next
  case False
  have free: "\<forall>l\<in>set ds. ch CHR ''/'' \<notin> set l" using assms(1) by (auto simp: list_all_iff clean_seg_def)
  have P: "join (js ''/'') (ds @ [name]) = join [ch CHR ''/''] ds @ ch CHR ''/'' # name"
    using False by (simp add: join_snoc)
  have "last_index_of (ch CHR ''/'') (join [ch CHR ''/''] ds @ ch CHR ''/'' # name)
      = int (length (join [ch CHR ''/''] ds))" using assms(2) by (rule last_index_of_last)
  moreover have "join [ch CHR ''/''] ds \<noteq> []"
  proof -
    obtain w ws where "ds = w # ws" "w \<noteq> []" using False assms(1) by (cases ds) (auto simp: clean_seg_def)
    then obtain c w' where "ds = (c # w') # ws" by (cases w) auto
    then show ?thesis using join_Cons_Cons[of "ch CHR ''/''" c w' ws] by auto
  qed
  moreover have "path_stack [] ds = ds" using assms(1) by (simp add: path_stack_clean_id)
  ultimately show ?thesis using P assms(3) False free
    by (simp add: join_path_def substring_def clamp_index_def split_on_join_app path_stack_append)
qed

text \<open>C19. \<open>processImages\<close> calls \<open>this.uploadBinary\<close>, which the plugin never
  defines: every call throws, the error is caught per reference, and the note is
  published with its text unchanged and an empty mapping.\<close>

theorem process_images_no_uploader: "process_images None files md cur = (md, [])"
  by (simp add: process_images_def Let_def)

text \<open>With a working uploader, a Markdown image \<open>![a](img/x.png)\<close> is rewritten
  by replacing the path inside the match only: the result keeps the alt text,
  \<open>![a](url)\<close>, not the \<open>![](url)\<close> form of the documented contract.\<close>

theorem process_images_keeps_md_alt:
  "process_images (Some (\<lambda>f. Inr (js ''https://u/x.png'')))
      [\<lparr>tf_path = js ''notes/img/x.png'', tf_name = js ''x.png'', tf_basename = js ''x''\<rparr>]
      (js ''![a](img/x.png)'') \<lparr>tf_path = js ''notes/a.md'', tf_name = js ''a.md'', tf_basename = js ''a''\<rparr>
   = (js ''![a](https://u/x.png)'', [(js ''img/x.png'', js ''https://u/x.png'')])"
  by code_simp

text \<open>C20. A relative image reference is resolved against the note's folder: for a
  note \<open>ds/name\<close> and a reference made of plain segments, \<open>joinPath\<close> gives
  \<open>ds/segments\<close>; a leading \<open>./\<close> changes nothing and a leading \<open>../\<close> drops the
  last folder.\<close>

theorem join_path_resolves:
  assumes "list_all clean_seg ds" "list_all clean_seg segs" "segs \<noteq> []"
    and "ch CHR ''/'' \<notin> set name"
  shows "join_path (join (js ''/'') (ds @ [name])) (join (js ''/'') segs) = join (js ''/'') (ds @ segs)
    \<and> join_path (join (js ''/'') (ds @ [name])) (js ''./'' @ join (js ''/'') segs) = join (js ''/'') (ds @ segs)
    \<and> join_path (join (js ''/'') (ds @ [name])) (js ''../'' @ join (js ''/'') segs)
        = join (js ''/'') (butlast ds @ segs)"
proof -
  have free: "\<forall>l\<in>set segs. ch CHR ''/'' \<notin> set l" using assms(2) by (auto simp: list_all_iff clean_seg_def)
  have sp: "split_on (ch CHR ''/'') (join [ch CHR ''/''] segs) = segs"
    using free assms(3) by (rule split_on_join)
  have hd: "\<not> prefix (js ''/'') (join (js ''/'') segs)"
  proof -
    obtain c w ws where s: "segs = (c # w) # ws" "c \<noteq> ch CHR ''/''"
      using assms(2,3) by (cases segs; cases "hd segs") (auto simp: clean_seg_def)
    then obtain t where "join (js ''/'') segs = c # t" using join_Cons_Cons[of "ch CHR ''/''" c w ws] by auto
    then show ?thesis using s(2) by simp
  qed
  have dot: "ch CHR ''.'' \<noteq> ch CHR ''/''" by simp
  show ?thesis
    using join_path_folder[OF assms(1,4)] hd sp assms(1,2)
    by (simp add: split_on_append_sep path_stack_clean_id dot)
qed

lemma join_path_resolves_witness:
  "join_path (join (js ''/'') [js ''notes'', js ''a.md'']) (join (js ''/'') [js ''img'', js ''x.png''])
     = join (js ''/'') [js ''notes'', js ''img'', js ''x.png'']
   \<and> join_path (join (js ''/'') [js ''notes'', js ''a.md'']) (js ''./'' @ join (js ''/'') [js ''img'', js ''x.png''])
     = join (js ''/'') [js ''notes'', js ''img'', js ''x.png'']
   \<and> join_path (join (js ''/'') [js ''notes'', js ''a.md'']) (js ''../'' @ join (js ''/'') [js ''img'', js ''x.png''])
     = join (js ''/'') (butlast [js ''notes''] @ [js ''img'', js ''x.png''])"
  using join_path_resolves[of "[js ''notes'']" "[js ''img'', js ''x.png'']" "js ''a.md''"]
  by (simp add: clean_seg_def)

text \<open>An absolute path only loses its leading slash: \<open>..\<close> segments in it are
  not resolved.\<close>

theorem join_path_absolute_unnormalised:
  "join_path (js ''notes/a.md'') (js ''/img/../x.png'') = js ''img/../x.png''"
  by (simp add: join_path_def slice_from_def slice_def rel_index_def)


end
