(* ===== verification/Emlog_Publish.thy ===== *)
theory Emlog_Publish
  imports Emlog_Metadata Emlog_Http Emlog_Images
begin

text \<open>
  The publish orchestrator: \<open>publishCore\<close>, with \<open>fetchArticleUrlById\<close>,
  \<open>performPostAction\<close>, \<open>formatDate\<close> and \<open>publishNote\<close> of \<^verbatim>\<open>main.ts\<close>.
  The plugin's state is a record of its settings, its identifier map, the persisted
  blob and the vault's file contents; each operation returns the new state and the
  effects it had on the outside, in order: the requests sent, the links opened or
  copied, and the notices shown (as data; their wording is UI).  The environment
  gives the transport, hash and clock of the HTTP client, the local date, the vault's
  file list, the metadata cache (front matter and its position per path), the
  uploader and whether a clipboard is available.  Status-bar texts and debug logging
  are not modelled.
\<close>

subsection \<open>State, environment and effects\<close>

record plugin =
  settings :: emlog_settings
  article_map :: article_map
  stored :: "stored_blob option"
  vault :: "jstr \<Rightarrow> jstr"

record js_date =
  d_year :: int
  d_month0 :: int
  d_day :: int
  d_hours :: int
  d_minutes :: int
  d_seconds :: int

record pub_env =
  http :: http_env
  clock :: js_date
  vault_files :: "tfile list"
  uploader :: "(tfile \<Rightarrow> jstr + jstr) option"
  fm_cache :: "jstr \<Rightarrow> jsval option"
  fm_position :: "jstr \<Rightarrow> (int \<times> int) option"
  clipboard :: bool

text \<open>The hint \<open>publishCore\<close> appends to a failure message.\<close>

datatype hint = H_auth | H_path | H_timeout | H_cors | H_network | H_none

datatype notice =
    N_progress bool
  | N_updated jstr jstr
  | N_published jstr jsval
  | N_failed jstr hint
  | N_draft_saved
  | N_link_copied
  | N_note_ok
  | N_note_failed jstr
  | N_select_text
  | N_no_markdown

datatype event = Sent request | Opened jstr | Copied jstr | Note notice

subsection \<open>formatDate\<close>

definition pad2 :: "int \<Rightarrow> jstr" where
  "pad2 n = (let s = int_str n in replicate (2 - length s) (ch CHR ''0'') @ s)"

definition format_date :: "js_date \<Rightarrow> jstr" where
  "format_date d =
     int_str (d_year d) @ js ''-'' @ pad2 (d_month0 d + 1) @ js ''-'' @ pad2 (d_day d)
     @ js '' '' @ pad2 (d_hours d) @ js '':'' @ pad2 (d_minutes d) @ js '':'' @ pad2 (d_seconds d)"

text \<open>Reading \<open>YYYY-MM-DD HH:mm:ss\<close> back: the separators at their fixed positions
  and six runs of decimal digits, read as numbers.  This is the reference for
  \<open>formatDate\<close>, not code of the plugin.\<close>

definition date_fields :: "jstr \<Rightarrow> (int \<times> int \<times> int \<times> int \<times> int \<times> int) option" where
  "date_fields t =
     (if length t = 19 \<and> t ! 4 = ch CHR ''-'' \<and> t ! 7 = ch CHR ''-'' \<and> t ! 10 = ch CHR '' ''
         \<and> t ! 13 = ch CHR '':'' \<and> t ! 16 = ch CHR '':''
         \<and> list_all is_digit (take 4 t @ take 2 (drop 5 t) @ take 2 (drop 8 t) @ take 2 (drop 11 t)
                               @ take 2 (drop 14 t) @ drop 17 t)
      then Some (dec_val (take 4 t), dec_val (take 2 (drop 5 t)), dec_val (take 2 (drop 8 t)),
                 dec_val (take 2 (drop 11 t)), dec_val (take 2 (drop 14 t)), dec_val (drop 17 t))
      else None)"

subsection \<open>fetchArticleUrlById and performPostAction\<close>

text \<open>\<open>id\<close> enters only as \<open>String(id)\<close>.\<close>

definition constructed_url :: "emlog_settings \<Rightarrow> jstr \<Rightarrow> jstr" where
  "constructed_url s idstr = strip_slash (base_url s) @ js ''/?post='' @ idstr"

definition fetch_article_url :: "emlog_settings \<Rightarrow> http_env \<Rightarrow> jstr \<Rightarrow> request list \<times> jsval" where
  "fetch_article_url s env idstr =
     (let (rqs, r) = http_get s env (js ''article_detail'') [(js ''id'', idstr)] in
      case r of
        Inr data \<Rightarrow>
          (let url = js_or (get (get (get data (js ''data'')) (js ''article'')) (js ''url''))
                           (get (get data (js ''article'')) (js ''url''))
           in if truthy url then (rqs, url) else (rqs, Str (constructed_url s idstr)))
      | Inl _ \<Rightarrow> (rqs, Str (constructed_url s idstr)))"

definition sent :: "request list \<Rightarrow> event list" where
  "sent rqs = map Sent rqs"

definition perform_post_action ::
  "emlog_settings \<Rightarrow> pub_env \<Rightarrow> bool \<Rightarrow> jstr \<Rightarrow> bool \<Rightarrow> event list" where
  "perform_post_action s env id_truthy idstr is_draft =
     (if is_draft then [Note N_draft_saved]
      else if \<not> id_truthy then []
      else if post_action s = PA_none then []
      else (let (rqs, url) = fetch_article_url s (http env) idstr; u = js_to_string url in
            sent rqs
            @ (if post_action s = PA_open \<or> post_action s = PA_both then [Opened u] else [])
            @ (if post_action s = PA_copy \<or> post_action s = PA_both
               then (if clipboard env then [Copied u] else []) @ [Note N_link_copied] else [])))"

subsection \<open>publishCore\<close>

text \<open>The error classification of lines 391-401.\<close>

definition error_hint :: "jstr \<Rightarrow> hint" where
  "error_hint msg =
     (if str_includes msg (js ''401'') then H_auth
      else if str_includes msg (js ''404'') then H_path
      else if str_includes msg (js ''timeout'') then H_timeout
      else if str_includes msg (js ''CORS'') then H_cors
      else if str_includes msg (js ''Request failed'') then H_network
      else H_none)"

text \<open>\<open>...(x ? { k: x } : {})\<close>.\<close>

definition opt_field :: "jstr \<Rightarrow> jstr \<Rightarrow> (jstr \<times> jstr) list" where
  "opt_field k v = (if v \<noteq> [] then [(k, v)] else [])"

definition opt_val :: "jstr \<Rightarrow> jsval \<Rightarrow> (jstr \<times> jstr) list" where
  "opt_val k v = (if truthy v then [(k, js_to_string v)] else [])"

definition update_params :: "jstr \<Rightarrow> jstr \<Rightarrow> pub_fields \<Rightarrow> (jstr \<times> jstr) list" where
  "update_params idstr final f =
     [(js ''id'', idstr), (js ''title'', pf_title f), (js ''content'', final), (js ''excerpt'', pf_excerpt f)]
     @ opt_field (js ''tags'') (pf_tags f) @ opt_field (js ''sort_id'') (pf_sort_id f)
     @ opt_field (js ''author_uid'') (pf_author_uid f)
     @ [(js ''draft'', yn (pf_draft f))]
     @ opt_field (js ''post_date'') (case pf_post_date f of Some d \<Rightarrow> d | None \<Rightarrow> [])
     @ opt_val (js ''cover'') (pf_cover f)
     @ [(js ''top'', pf_top f), (js ''sortop'', pf_sortop f), (js ''allow_remark'', pf_allow_remark f)]
     @ opt_val (js ''password'') (pf_password f)"

definition post_params :: "emlog_settings \<Rightarrow> jstr \<Rightarrow> pub_fields \<Rightarrow> (jstr \<times> jstr) list" where
  "post_params s final f =
     [(js ''title'', pf_title f), (js ''content'', final), (js ''excerpt'', pf_excerpt f)]
     @ opt_field (js ''tags'') (pf_tags f) @ opt_field (js ''sort_id'') (pf_sort_id f)
     @ opt_field (js ''author_uid'') (pf_author_uid f)
     @ [(js ''draft'', yn (pf_draft f)), (js ''allow_remark'', pf_allow_remark f),
        (js ''auto_cover'', yn (auto_cover s))]
     @ opt_field (js ''post_date'') (case pf_post_date f of Some d \<Rightarrow> d | None \<Rightarrow> [])
     @ opt_val (js ''cover'') (pf_cover f)
     @ [(js ''top'', pf_top f), (js ''sortop'', pf_sortop f)]
     @ opt_val (js ''password'') (pf_password f)"

text \<open>The keys written back into the note's header after a successful call.\<close>

definition result_keys :: "pub_env \<Rightarrow> jsval \<Rightarrow> pub_fields \<Rightarrow> jsval \<Rightarrow> jsval \<Rightarrow> (jstr \<times> jsval) list" where
  "result_keys env fm f aid url =
     [(js ''published'', Bool (\<not> pf_draft f)),
      (js ''sort_id'', if pf_sort_id f \<noteq> [] then Str (pf_sort_id f) else js_coalesce (get fm (js ''sort_id'')) (Str [])),
      (js ''emlog_article_id'', aid),
      (js ''publish_date'', Str (format_date (clock env))),
      (js ''url'', js_or url (Str []))]"

definition write_keys :: "pub_env \<Rightarrow> tfile \<Rightarrow> (jstr \<times> jsval) list \<Rightarrow> plugin \<Rightarrow> plugin" where
  "write_keys env file kv st =
     st\<lparr>vault := (vault st)(tf_path file :=
          upsert_frontmatter_keys (vault st (tf_path file)) (fm_position env (tf_path file)) kv)\<rparr>"

text \<open>\<open>this.articleMap[file.path] != null\<close>.\<close>

definition map_entry :: "plugin \<Rightarrow> jstr \<Rightarrow> jsval" where
  "map_entry st p = (case article_map st p of Some v \<Rightarrow> v | None \<Rightarrow> Undef)"

text \<open>The update branch (lines 308-331).  The identifier is \<open>Number(...)\<close> of the
  stored value; a value that is not a number is \<open>NaN\<close>, a number, which
  \<open>serialize\<close> writes to the header unquoted as \<open>NaN\<close>.\<close>

definition publish_update ::
  "pub_env \<Rightarrow> plugin \<Rightarrow> tfile \<Rightarrow> jsval \<Rightarrow> pub_fields \<Rightarrow> jstr \<Rightarrow> plugin \<times> event list" where
  "publish_update env st file fm f final =
     (let s = settings st; idn = to_number (map_entry st (tf_path file)); idstr = num_str idn;
          (rqs, r) = http_form s (http env) (js ''article_update'') (update_params idstr final f)
      in case r of
           Inl e \<Rightarrow> (st, sent rqs @ [Note (N_failed e (error_hint e))])
         | Inr _ \<Rightarrow>
             (let ev_post = perform_post_action s env (idn \<noteq> None \<and> idn \<noteq> Some 0) idstr (pf_draft f);
                  (rqs_url, url) = fetch_article_url s (http env) idstr;
                  idv = (case idn of Some n \<Rightarrow> Num n | None \<Rightarrow> Num_NaN)
              in (write_keys env file (result_keys env fm f idv url) st,
                  sent rqs @ [Note (N_updated (pf_title f) idstr)] @ ev_post @ sent rqs_url)))"

text \<open>The create branch (lines 332-373): a truthy article id is recorded and the
  state persisted before the post action and the header update.\<close>

definition publish_create ::
  "pub_env \<Rightarrow> plugin \<Rightarrow> tfile \<Rightarrow> jsval \<Rightarrow> pub_fields \<Rightarrow> jstr \<Rightarrow> plugin \<times> event list" where
  "publish_create env st file fm f final =
     (let s = settings st;
          (rqs, r) = http_form s (http env) (js ''article_post'') (post_params s final f)
      in case r of
           Inl e \<Rightarrow> (st, sent rqs @ [Note (N_failed e (error_hint e))])
         | Inr data \<Rightarrow>
             (let aid = js_or (get (get data (js ''data'')) (js ''article_id'')) (get data (js ''article_id''));
                  st1 = (if truthy aid
                         then (let am = (article_map st)(tf_path file \<mapsto> aid)
                               in st\<lparr>article_map := am, stored := Some (save_state s am)\<rparr>)
                         else st);
                  ev_post = perform_post_action s env (truthy aid) (js_to_string aid) (pf_draft f);
                  (rqs_url, url) = (if truthy aid then fetch_article_url s (http env) (js_to_string aid)
                                    else ([], Null))
              in (write_keys env file (result_keys env fm f (js_or aid (Str [])) url) st1,
                  sent rqs @ [Note (N_published (pf_title f) aid)] @ ev_post @ sent rqs_url)))"

definition publish_core ::
  "pub_env \<Rightarrow> plugin \<Rightarrow> tfile \<Rightarrow> jstr \<Rightarrow> bool \<Rightarrow> overrides \<Rightarrow> plugin \<times> event list" where
  "publish_core env st file content as_draft ov =
     (let fm = (case fm_cache env (tf_path file) of Some v \<Rightarrow> v | None \<Rightarrow> Obj []);
          f = resolve_fields (settings st) file content fm as_draft ov;
          final = fst (process_images (uploader env) (vault_files env) (remove_from_content content) file);
          is_update = \<not> nullish (map_entry st (tf_path file));
          (st', evs) = (if is_update then publish_update env st file fm f final
                        else publish_create env st file fm f final)
      in (st', Note (N_progress is_update) # evs))"

subsection \<open>publishNote\<close>

text \<open>The selection has been read from the editor; an empty selection stops with a
  notice.\<close>

definition publish_note :: "pub_env \<Rightarrow> plugin \<Rightarrow> jstr \<Rightarrow> event list" where
  "publish_note env st text =
     (if text = [] then [Note N_select_text]
      else (let (rqs, r) = http_form (settings st) (http env) (js ''note_post'') [(js ''t'', text)]
            in sent rqs @ [case r of Inr _ \<Rightarrow> Note N_note_ok | Inl e \<Rightarrow> Note (N_note_failed e)]))"

subsection \<open>The scenario of the documented end-to-end test\<close>

text \<open>The note \<open>notes/a.md\<close> with body \<open># Hello\n\nWorld\<close> and no header, a server
  that answers every request with \<open>{code: 0, data: {article_id: 42}}\<close>, default
  settings with base URL \<open>http://b\<close> and an empty identifier map.\<close>

abbreviation spec_note :: tfile where
  "spec_note \<equiv> \<lparr>tf_path = js ''notes/a.md'', tf_name = js ''a.md'', tf_basename = js ''a''\<rparr>"

abbreviation spec_env :: pub_env where
  "spec_env \<equiv> \<lparr>http = \<lparr>net = (\<lambda>rq. Inr \<lparr>rs_status = 200, rs_json = Inr (Obj [(js ''code'', Num 0),
        (js ''data'', Obj [(js ''article_id'', Num 42)])])\<rparr>), md5 = rev, now_ms = 1000\<rparr>,
     clock = \<lparr>d_year = 2025, d_month0 = 7, d_day = 5, d_hours = 9, d_minutes = 3, d_seconds = 0\<rparr>,
     vault_files = [], uploader = None, fm_cache = (\<lambda>_. None), fm_position = (\<lambda>_. None), clipboard = True\<rparr>"

abbreviation spec_state :: plugin where
  "spec_state \<equiv> \<lparr>settings = default_settings\<lparr>base_url := js ''http://b''\<rparr>, article_map = Map.empty, stored = None,
     vault = (\<lambda>p. if p = js ''notes/a.md'' then js ''# Hello\<newline>\<newline>World'' else [])\<rparr>"

abbreviation down_env :: pub_env where
  "down_env \<equiv> spec_env\<lparr>http := \<lparr>net = (\<lambda>rq. Inl (js ''timeout'')), md5 = rev, now_ms = 1000\<rparr>\<rparr>"

subsection \<open>Lemmas\<close>

lemma http_form_const_ok:
  assumes "\<forall>rq. net env rq = Inr r" "rs_status r = 200" "rs_json r = Inr d" "api_ok d"
  shows "http_form s env e ps = ([form_request s env e ps], Inr d)"
proof -
  have "d \<noteq> Null" using assms(4) by (auto simp: api_ok_def)
  then show ?thesis using assms by (simp add: http_form_def with_fallback_def attempt_def envelope_def Let_def)
qed

lemma write_keys_map [simp]:
  "article_map (write_keys env file kv st) = article_map st"
  "stored (write_keys env file kv st) = stored st"
  "settings (write_keys env file kv st) = settings st"
  by (simp_all add: write_keys_def)

lemma publish_core_create:
  "nullish (map_entry st (tf_path file)) \<Longrightarrow>
   publish_core env st file content d ov =
     (let fm = (case fm_cache env (tf_path file) of Some v \<Rightarrow> v | None \<Rightarrow> Obj []);
          f = resolve_fields (settings st) file content fm d ov;
          final = fst (process_images (uploader env) (vault_files env) (remove_from_content content) file)
      in (fst (publish_create env st file fm f final), Note (N_progress False) # snd (publish_create env st file fm f final)))"
  by (simp add: publish_core_def Let_def split: prod.split)

lemma publish_core_update:
  "\<not> nullish (map_entry st (tf_path file)) \<Longrightarrow>
   publish_core env st file content d ov =
     (let fm = (case fm_cache env (tf_path file) of Some v \<Rightarrow> v | None \<Rightarrow> Obj []);
          f = resolve_fields (settings st) file content fm d ov;
          final = fst (process_images (uploader env) (vault_files env) (remove_from_content content) file)
      in (fst (publish_update env st file fm f final), Note (N_progress True) # snd (publish_update env st file fm f final)))"
  by (simp add: publish_core_def Let_def split: prod.split)

lemma publish_create_records_id:
  assumes "\<forall>rq. net (http env) rq = Inr r" "rs_status r = 200" "rs_json r = Inr dt" "api_ok dt"
    and "get (get dt (js ''data'')) (js ''article_id'') = Num n" "n \<noteq> 0"
  shows "article_map (fst (publish_create env st file fm f final)) = (article_map st)(tf_path file \<mapsto> Num n)
    \<and> stored (fst (publish_create env st file fm f final))
        = Some (save_state (settings st) ((article_map st)(tf_path file \<mapsto> Num n)))"
  using http_form_const_ok[OF assms(1-4)] assms(5,6)
  by (simp add: publish_create_def Let_def js_or_def split: prod.split)

lemma publish_update_request:
  assumes "map_entry st (tf_path file) = Num n"
  shows "snd (publish_update env st file fm f final) ! 0
     = Sent (form_request (settings st) (http env) (js ''article_update'') (update_params (int_str n) final f))"
  using assms
  by (simp add: publish_update_def http_form_def with_fallback_def sent_def num_str_def Let_def
      split: prod.split sum.split)

lemma find_sub_sublist: "find_sub n s \<noteq> None \<longleftrightarrow> sublist n s"
  by (induction s) (auto simp: sublist_Cons_right)

lemma str_includes_sublist: "str_includes s n \<longleftrightarrow> sublist n s"
  unfolding str_includes_def by (rule find_sub_sublist)

lemma error_hint_base:
  "sublist (js ''401'') base \<Longrightarrow> error_hint (agg_error s ep base e1 e2) = H_auth"
proof -
  assume b: "sublist (js ''401'') base"
  have "sublist base (agg_error s ep base e1 e2)"
    unfolding agg_error_def by (rule sublist_concat) simp
  then show ?thesis using b sublist_order.order.trans
    by (auto simp: error_hint_def str_includes_sublist)
qed

lemma length_digits_1: "n < 10 \<Longrightarrow> length (digits n) = 1"
  by (simp add: digits.simps)

lemma length_digits_2: "10 \<le> n \<Longrightarrow> n < 100 \<Longrightarrow> length (digits n) = 2"
  by (simp add: digits.simps)

lemma length_digits_4: "1000 \<le> n \<Longrightarrow> n < 10000 \<Longrightarrow> length (digits n) = 4"
proof -
  assume a: "1000 \<le> n" "n < 10000"
  then have "100 \<le> n div 10" "n div 10 < 1000" by auto
  moreover have "10 \<le> n div 10 div 10" "n div 10 div 10 < 100" using a by auto
  ultimately show ?thesis using a length_digits_2[of "n div 10 div 10"] by (simp add: digits.simps[of n] digits.simps[of "n div 10"])
qed

lemma length_pad2: "0 \<le> n \<Longrightarrow> n < 100 \<Longrightarrow> length (pad2 n) = 2"
  by (cases "n < 10") (simp_all add: pad2_def int_str_def length_digits_1 length_digits_2 nat_less_iff)

lemma http_form_const_fail_agg:
  "\<forall>rq. net env rq = Inl m \<Longrightarrow>
   snd (http_form s env ep ps) = Inl (agg_error s ep (strip_slash (base_url s)) m m)"
  by (simp add: http_form_def with_fallback_def attempt_def Let_def)

lemma publish_create_fail:
  assumes "snd (http_form (settings st) (http env) (js ''article_post'') (post_params (settings st) final f)) = Inl e"
  shows "publish_create env st file fm f final
     = (st, sent (fst (http_form (settings st) (http env) (js ''article_post'') (post_params (settings st) final f)))
            @ [Note (N_failed e (error_hint e))])"
  using assms by (cases "http_form (settings st) (http env) (js ''article_post'') (post_params (settings st) final f)")
    (simp add: publish_create_def Let_def)

lemma publish_update_fail:
  assumes "snd (http_form (settings st) (http env) (js ''article_update'')
              (update_params (num_str (to_number (map_entry st (tf_path file)))) final f)) = Inl e"
  shows "publish_update env st file fm f final
     = (st, sent (fst (http_form (settings st) (http env) (js ''article_update'')
              (update_params (num_str (to_number (map_entry st (tf_path file)))) final f)))
            @ [Note (N_failed e (error_hint e))])"
  using assms by (cases "http_form (settings st) (http env) (js ''article_update'')
              (update_params (num_str (to_number (map_entry st (tf_path file)))) final f)")
    (simp add: publish_update_def Let_def)

lemma no_link_sent [simp]:
  "list_all (\<lambda>ev. case ev of Opened _ \<Rightarrow> False | Copied _ \<Rightarrow> False | _ \<Rightarrow> True) (sent rqs)"
  by (simp add: sent_def list_all_iff)

lemma draft_post_action [simp]: "perform_post_action s env t i True = [Note N_draft_saved]"
  by (simp add: perform_post_action_def)

text \<open>C22. Publishing the same note twice: when the first publish creates the article
  and the server returns the id \<open>n\<close>, the second publish of that path sends
  \<open>article_update\<close> with \<open>id = n\<close> as its first request.\<close>

theorem publish_twice_updates:
  assumes "map_entry st (tf_path file) = Undef"
    and "\<forall>rq. net (http env) rq = Inr r" "rs_status r = 200" "rs_json r = Inr dt" "api_ok dt"
    and "get (get dt (js ''data'')) (js ''article_id'') = Num n" "n \<noteq> 0"
  shows "\<exists>f final. snd (publish_core env (fst (publish_core env st file c1 d1 ov1)) file c2 d2 ov2) ! 1
     = Sent (form_request (settings st) (http env) (js ''article_update'') (update_params (int_str n) final f))"
proof -
  let ?st1 = "fst (publish_core env st file c1 d1 ov1)"
  have m: "map_entry ?st1 (tf_path file) = Num n" and s: "settings ?st1 = settings st"
    using publish_create_records_id[OF assms(2-7)] assms(1)
    by (simp_all add: publish_core_create nullish_def map_entry_def Let_def publish_create_def split: prod.split sum.split)
  then show ?thesis
    using publish_update_request[OF m] by (simp add: publish_core_update nullish_def Let_def, blast)
qed

lemma publish_twice_updates_witness:
  "\<exists>f final. snd (publish_core spec_env (fst (publish_core spec_env spec_state spec_note (js ''x'') False no_overrides))
        spec_note (js ''y'') False no_overrides) ! 1
     = Sent (form_request (settings spec_state) (http spec_env) (js ''article_update'') (update_params (int_str 42) final f))"
  by (rule publish_twice_updates[where r = "\<lparr>rs_status = 200, rs_json = Inr (Obj [(js ''code'', Num 0),
        (js ''data'', Obj [(js ''article_id'', Num 42)])])\<rparr>"
        and dt = "Obj [(js ''code'', Num 0), (js ''data'', Obj [(js ''article_id'', Num 42)])]"])
     (simp_all add: map_entry_def api_ok_def)

text \<open>The documented end-to-end scenario: the identifier map becomes
  \<open>{notes/a.md: 42}\<close>, the note gains a header with \<open>emlog_article_id: 42\<close>, the
  publish date and the constructed URL, and the article URL is fetched twice (once by
  the post action, once for the header).  The title sent is the file name \<open>a\<close>, not
  the heading \<open>Hello\<close> the scenario expects.\<close>

theorem publish_spec_scenario:
  "(case publish_core spec_env spec_state spec_note (js ''# Hello\<newline>\<newline>World'') False no_overrides of
     (st', evs) \<Rightarrow>
       article_map st' (js ''notes/a.md'') = Some (Num 42)
       \<and> vault st' (js ''notes/a.md'')
         = js ''---\<newline>published: true\<newline>sort_id: \"\"\<newline>emlog_article_id: 42\<newline>publish_date: \"2025-08-05 09:03:00\"\<newline>url: \"http://b/?post=42\"\<newline>---\<newline># Hello\<newline>\<newline>World''
       \<and> evs ! 2 = Note (N_published (js ''a'') (Num 42))
       \<and> map (\<lambda>e. case e of Sent r \<Rightarrow> rq_url r | Opened u \<Rightarrow> u | Copied u \<Rightarrow> u | Note _ \<Rightarrow> []) evs
         = [[], js ''http://b/?rest-api=article_post'', [], js ''http://b/?rest-api=article_detail&id=42'',
            js ''http://b/?post=42'', js ''http://b/?rest-api=article_detail&id=42''])"
  by code_simp

text \<open>C23. When every request fails, \<open>publishCore\<close> leaves the plugin state (identifier
  map, persisted blob, note contents) unchanged and ends with a failure notice
  carrying the aggregated error of the endpoint it called and its hint.\<close>

theorem publish_failure_keeps_state:
  assumes "\<forall>rq. net (http env) rq = Inl m"
  shows "\<exists>ep. fst (publish_core env st file c d ov) = st
     \<and> last (snd (publish_core env st file c d ov))
         = Note (N_failed (agg_error (settings st) ep (strip_slash (base_url (settings st))) m m)
                   (error_hint (agg_error (settings st) ep (strip_slash (base_url (settings st))) m m)))"
proof (cases "nullish (map_entry st (tf_path file))")
  case True
  then show ?thesis
    using publish_create_fail[OF http_form_const_fail_agg[OF assms]] by (simp add: publish_core_create Let_def, blast)
next
  case False
  then show ?thesis
    using publish_update_fail[OF http_form_const_fail_agg[OF assms]] by (simp add: publish_core_update Let_def, blast)
qed

lemma publish_failure_keeps_state_witness:
  "\<exists>ep. fst (publish_core down_env spec_state spec_note (js ''x'') False no_overrides) = spec_state
     \<and> last (snd (publish_core down_env spec_state spec_note (js ''x'') False no_overrides))
         = Note (N_failed (agg_error (settings spec_state) ep (strip_slash (base_url (settings spec_state))) (js ''timeout'') (js ''timeout''))
                   (error_hint (agg_error (settings spec_state) ep (strip_slash (base_url (settings spec_state))) (js ''timeout'') (js ''timeout''))))"
  by (rule publish_failure_keeps_state) simp

text \<open>C24. The failure hint is computed on the whole aggregated message, which ends
  with the base URL: with a base URL containing \<open>401\<close>, every failure, a timeout
  included, is reported as an authentication failure.\<close>

theorem publish_failure_hint_from_base_url:
  assumes "\<forall>rq. net (http env) rq = Inl m"
    and "sublist (js ''401'') (strip_slash (base_url (settings st)))"
  shows "\<exists>e. last (snd (publish_core env st file c d ov)) = Note (N_failed e H_auth)"
proof (cases "nullish (map_entry st (tf_path file))")
  case True
  then show ?thesis
    using publish_create_fail[OF http_form_const_fail_agg[OF assms(1)]] error_hint_base[OF assms(2)]
    by (simp add: publish_core_create Let_def)
next
  case False
  then show ?thesis
    using publish_update_fail[OF http_form_const_fail_agg[OF assms(1)]] error_hint_base[OF assms(2)]
    by (simp add: publish_core_update Let_def)
qed

lemma publish_failure_hint_from_base_url_witness:
  "\<exists>e. last (snd (publish_core down_env (spec_state\<lparr>settings := default_settings\<lparr>base_url := js ''http://blog401.example''\<rparr>\<rparr>)
       spec_note (js ''x'') False no_overrides)) = Note (N_failed e H_auth)"
  by (rule publish_failure_hint_from_base_url) (simp_all add: strip_slash_def sublist_Cons_right js_simps)

text \<open>C25. Publishing as a draft never opens or copies a link: the only effects are
  requests and notices.\<close>

theorem draft_publish_no_link:
  "list_all (\<lambda>ev. case ev of Opened _ \<Rightarrow> False | Copied _ \<Rightarrow> False | _ \<Rightarrow> True)
     (snd (publish_core env st file c True ov))"
proof -
  have "pf_draft (resolve_fields s file c fm True ov)" for s fm
    by (simp add: resolve_fields_def)
  then show ?thesis
    by (simp add: publish_core_def publish_create_def publish_update_def Let_def
        split: prod.split sum.split)
qed

lemma dec_val_append: "dec_val (a @ b) = dec_val a * 10 ^ length b + dec_val b"
proof (induction b rule: rev_induct)
  case (snoc x b)
  then show ?case using dec_val_snoc[of "a @ b" x] by (simp add: dec_val_snoc algebra_simps)
qed (simp add: dec_val_def)

lemma dec_val_zeros: "dec_val (replicate k (ch CHR ''0'')) = 0"
proof (induction k)
  case (Suc k)
  have "replicate (Suc k) (ch CHR ''0'') = replicate k (ch CHR ''0'') @ [ch CHR ''0'']"
    by (simp add: replicate_append_same)
  then show ?case using Suc by (simp add: dec_val_snoc unat_ch)
qed (simp add: dec_val_def)

lemma pad2_fields:
  "0 \<le> n \<Longrightarrow> n < 100 \<Longrightarrow> length (pad2 n) = 2 \<and> list_all is_digit (pad2 n) \<and> dec_val (pad2 n) = n"
proof -
  assume n: "0 \<le> n" "n < 100"
  have s: "pad2 n = replicate (2 - length (digits (nat n))) (ch CHR ''0'') @ digits (nat n)"
    using n by (simp add: pad2_def int_str_def Let_def)
  have "is_digit (ch CHR ''0'')" by (simp add: is_digit_def ch_def)
  then have "list_all is_digit (replicate k (ch CHR ''0''))" for k by (simp add: list_all_iff)
  then show ?thesis
    using n s length_pad2[OF n] digits_all_digit[of "nat n"]
    by (simp add: dec_val_append dec_val_zeros dec_val_digits)
qed

lemma year_fields:
  "1000 \<le> y \<Longrightarrow> y < 10000 \<Longrightarrow> length (int_str y) = 4 \<and> list_all is_digit (int_str y) \<and> dec_val (int_str y) = y"
  using length_digits_4[of "nat y"] digits_all_digit[of "nat y"] dec_val_digits[of "nat y"]
  by (simp add: int_str_def)

text \<open>C26. \<open>formatDate\<close> writes \<open>YYYY-MM-DD HH:mm:ss\<close>: for a four-digit year and
  fields in their calendar ranges, reading the text back gives the year, the month
  counted from 1 (\<open>getMonth()+1\<close>), the day, the hours, the minutes and the
  seconds, each at its place.\<close>

theorem format_date_fields:
  assumes "1000 \<le> d_year d" "d_year d < 10000" "0 \<le> d_month0 d" "d_month0 d < 12"
    "1 \<le> d_day d" "d_day d \<le> 31" "0 \<le> d_hours d" "d_hours d < 24"
    "0 \<le> d_minutes d" "d_minutes d < 60" "0 \<le> d_seconds d" "d_seconds d < 60"
  shows "date_fields (format_date d)
       = Some (d_year d, d_month0 d + 1, d_day d, d_hours d, d_minutes d, d_seconds d)"
proof -
  obtain Y M D H I S where f: "format_date d = Y @ ch CHR ''-'' # M @ ch CHR ''-'' # D @ ch CHR '' '' # H
                                   @ ch CHR '':'' # I @ ch CHR '':'' # S"
    and y: "length Y = 4 \<and> list_all is_digit Y \<and> dec_val Y = d_year d"
    and m: "length M = 2 \<and> list_all is_digit M \<and> dec_val M = d_month0 d + 1"
    and dd: "length D = 2 \<and> list_all is_digit D \<and> dec_val D = d_day d"
    and h: "length H = 2 \<and> list_all is_digit H \<and> dec_val H = d_hours d"
    and i: "length I = 2 \<and> list_all is_digit I \<and> dec_val I = d_minutes d"
    and s: "length S = 2 \<and> list_all is_digit S \<and> dec_val S = d_seconds d"
    using year_fields[OF assms(1,2)] pad2_fields[of "d_month0 d + 1"] pad2_fields[of "d_day d"]
      pad2_fields[of "d_hours d"] pad2_fields[of "d_minutes d"] pad2_fields[of "d_seconds d"] assms
    by (simp add: format_date_def)
  show ?thesis using y m dd h i s unfolding f date_fields_def
    by (simp add: nth_append)
qed

lemma format_date_fields_witness:
  "date_fields (format_date (clock spec_env)) = Some (2025, 8, 5, 9, 3, 0)"
  using format_date_fields[of "clock spec_env"] by simp

end
