(* ===== verification/Emlog_Session.thy ===== *)
theory Emlog_Session
  imports Emlog_Publish
begin

text \<open>
  The plugin over time.  A session of the plugin is a sequence of steps on its
  state (\<open>plugin\<close>): publishing a note (\<open>publish_core\<close>, with whatever the
  network answers), an edit on the settings page (the \<open>onChange\<close> handlers of
  \<open>EmlogSettingTab.display\<close>, each followed by \<open>saveSettings\<close>), an edit of a note
  in the vault, and a restart of the plugin, which reads the persisted blob back
  (\<open>loadSettings\<close> in \<open>onload\<close>).  The publish commands reach the plugin
  only through \<open>publishCore\<close>, so they are session steps too.  The invariant of a session that started
  without a data file is that the persisted blob always describes the state held in
  memory, and that every identifier the map records is truthy.
\<close>

text \<open>The settings page's editable fields, with the value the handler receives.\<close>

datatype setting_edit =
    Edit_base_url jstr
  | Edit_auth_mode auth_mode
  | Edit_api_key jstr
  | Edit_author_uid jstr
  | Edit_sort_id jstr

text \<open>The new settings an \<open>onChange\<close> handler sets, or \<open>None\<close> when it returns
  early: choosing the placeholder of the category dropdown changes nothing.\<close>

definition settings_edit :: "setting_edit \<Rightarrow> emlog_settings \<Rightarrow> emlog_settings option" where
  "settings_edit e s =
     (case e of
        Edit_base_url v \<Rightarrow> Some (s\<lparr>base_url := trim v\<rparr>)
      | Edit_auth_mode m \<Rightarrow> Some (s\<lparr>auth_mode := m\<rparr>)
      | Edit_api_key v \<Rightarrow> Some (s\<lparr>api_key := v\<rparr>)
      | Edit_author_uid v \<Rightarrow> Some (s\<lparr>default_author_uid := v\<rparr>)
      | Edit_sort_id v \<Rightarrow> if v = js ''__placeholder__'' then None else Some (s\<lparr>default_sort_id := v\<rparr>))"

text \<open>The handler as a whole: the field is set, then \<open>saveSettings\<close>, which is
  \<open>saveState\<close>, persists settings and identifier map together.\<close>

definition edit_setting :: "setting_edit \<Rightarrow> plugin \<Rightarrow> plugin" where
  "edit_setting e st =
     (case settings_edit e (settings st) of
        None \<Rightarrow> st
      | Some s' \<Rightarrow> st\<lparr>settings := s', stored := Some (save_state s' (article_map st))\<rparr>)"

text \<open>\<open>onload\<close> on a vault without a data file.\<close>

definition fresh_plugin :: "(jstr \<Rightarrow> jstr) \<Rightarrow> plugin" where
  "fresh_plugin v =
     (let (s, am) = load_settings None in \<lparr>settings = s, article_map = am, stored = None, vault = v\<rparr>)"

inductive plugin_step :: "plugin \<Rightarrow> plugin \<Rightarrow> bool" where
  publish: "plugin_step st (fst (publish_core env st file content as_draft ov))"
| settings_page: "plugin_step st (edit_setting e st)"
| note_edit: "plugin_step st (st\<lparr>vault := (vault st)(p := t)\<rparr>)"
| restart: "load_settings (stored st) = (s, am) \<Longrightarrow> plugin_step st (st\<lparr>settings := s, article_map := am\<rparr>)"

definition state_ok :: "plugin \<Rightarrow> bool" where
  "state_ok st \<longleftrightarrow>
     load_settings (stored st) = (settings st, article_map st) \<and> (\<forall>x\<in>ran (article_map st). truthy x)"

subsection \<open>The publish commands\<close>

text \<open>What the commands see of the workspace: the active Markdown view, with its
  file and the editor's text, and \<open>lastMarkdownFile\<close>.  The
  \<open>active-leaf-change\<close> handler of \<open>onload\<close> remembers the file of every
  Markdown view that becomes active.\<close>

record workspace =
  active_view :: "(tfile \<times> jstr) option"
  last_markdown :: "tfile option"

definition leaf_change :: "(tfile \<times> jstr) option \<Rightarrow> workspace \<Rightarrow> workspace" where
  "leaf_change v ws =
     ws\<lparr>active_view := v,
        last_markdown := (case v of Some (f, _) \<Rightarrow> Some f | None \<Rightarrow> last_markdown ws)\<rparr>"

text \<open>\<open>getActiveMarkdown\<close>: the active view's file and editor, else the last
  Markdown file without an editor, else nothing (and a notice).\<close>

definition get_active_markdown :: "workspace \<Rightarrow> (tfile \<times> jstr option) option" where
  "get_active_markdown ws =
     (case active_view ws of
        Some (f, text) \<Rightarrow> Some (f, Some text)
      | None \<Rightarrow> (case last_markdown ws of Some f \<Rightarrow> Some (f, None) | None \<Rightarrow> None))"

text \<open>\<open>publishCurrentNote\<close>: the editor's text when there is an editor, otherwise
  the file as \<open>vault.cachedRead\<close> returns it.\<close>

definition publish_current_note :: "pub_env \<Rightarrow> plugin \<Rightarrow> workspace \<Rightarrow> bool \<Rightarrow> plugin \<times> event list" where
  "publish_current_note env st ws as_draft =
     (case get_active_markdown ws of
        None \<Rightarrow> (st, [Note N_no_markdown])
      | Some (f, ed) \<Rightarrow>
          publish_core env st f (case ed of Some c \<Rightarrow> c | None \<Rightarrow> vault st (tf_path f)) as_draft no_overrides)"

text \<open>The file explorer's menu items: the file's text from the vault.\<close>

definition publish_from_file_menu :: "pub_env \<Rightarrow> plugin \<Rightarrow> tfile \<Rightarrow> bool \<Rightarrow> plugin \<times> event list" where
  "publish_from_file_menu env st f as_draft = publish_core env st f (vault st (tf_path f)) as_draft no_overrides"

subsection \<open>Lemmas\<close>

lemma load_saved: "load_settings (Some (save_state s am)) = (s, am)"
  by (simp add: load_settings_def save_state_def)

lemma write_keys_ok [simp]: "state_ok (write_keys env file kv st) = state_ok st"
  by (simp add: state_ok_def)

lemma publish_create_ok:
  assumes ok: "state_ok st"
  shows "state_ok (fst (publish_create env st file fm f final))"
proof -
  obtain rqs r where h: "http_form (settings st) (http env) (js ''article_post'') (post_params (settings st) final f) = (rqs, r)"
    by fastforce
  show ?thesis
  proof (cases r)
    case (Inl e)
    then show ?thesis using ok h by (simp add: publish_create_def)
  next
    case (Inr data)
    let ?aid = "js_or (get (get data (js ''data'')) (js ''article_id'')) (get data (js ''article_id''))"
    obtain rq2 url where u: "(if truthy ?aid then fetch_article_url (settings st) (http env) (js_to_string ?aid)
        else ([], Null)) = (rq2, url)" by fastforce
    show ?thesis
    proof (cases "truthy ?aid")
      case True
      then have "state_ok (st\<lparr>article_map := (article_map st)(tf_path file \<mapsto> ?aid),
            stored := Some (save_state (settings st) ((article_map st)(tf_path file \<mapsto> ?aid)))\<rparr>)"
        using ok by (auto simp: state_ok_def ran_def load_saved)
      then show ?thesis using h Inr u True by (simp add: publish_create_def Let_def)
    next
      case False
      then show ?thesis using ok h Inr u by (simp add: publish_create_def Let_def)
    qed
  qed
qed

lemma publish_update_ok: "state_ok st \<Longrightarrow> state_ok (fst (publish_update env st file fm f final))"
  by (simp add: publish_update_def Let_def split: prod.split sum.split)

lemma publish_core_ok: "state_ok st \<Longrightarrow> state_ok (fst (publish_core env st file content d ov))"
  by (cases "nullish (map_entry st (tf_path file))")
     (simp_all add: publish_core_create publish_core_update Let_def publish_create_ok publish_update_ok)

lemma publish_update_map: "article_map (fst (publish_update env st file fm f final)) = article_map st"
  by (simp add: publish_update_def Let_def split: prod.split sum.split)

lemma edit_setting_ok: "state_ok st \<Longrightarrow> state_ok (edit_setting e st)"
  by (auto simp: edit_setting_def state_ok_def load_saved split: option.split)

text \<open>The commands act on the plugin only through \<open>publishCore\<close>: whatever they
  do is a session step, or nothing.\<close>

lemma publish_current_note_session:
  "plugin_step\<^sup>*\<^sup>* st (fst (publish_current_note env st ws d))"
  by (auto simp: publish_current_note_def intro: plugin_step.publish split: option.split)

lemma publish_from_file_menu_session: "plugin_step st (fst (publish_from_file_menu env st f d))"
  unfolding publish_from_file_menu_def by (rule plugin_step.publish)

lemma publish_current_note_editor:
  "active_view ws = Some (f, text) \<Longrightarrow>
   publish_current_note env st ws d = publish_core env st f text d no_overrides"
  by (simp add: publish_current_note_def get_active_markdown_def)

text \<open>C30. In every session that starts without a data file, whatever the network
  answers and whatever the user edits, the persisted blob reads back as exactly the
  settings and identifier map held in memory, so a restart loses nothing, and every
  recorded article id is truthy.\<close>

theorem reachable_state_persisted:
  assumes "plugin_step\<^sup>*\<^sup>* (fresh_plugin v) st"
  shows "load_settings (stored st) = (settings st, article_map st) \<and> (\<forall>x\<in>ran (article_map st). truthy x)"
proof -
  from assms have "state_ok st"
  proof (induction rule: rtranclp_induct)
    case base
    then show ?case by (simp add: fresh_plugin_def load_settings_def state_ok_def)
  next
    case (step st st')
    from step.hyps(2) step.IH show ?case
    proof (cases rule: plugin_step.cases)
      case publish
      then show ?thesis using step.IH by (simp add: publish_core_ok)
    next
      case settings_page
      then show ?thesis using step.IH by (simp add: edit_setting_ok)
    qed (auto simp: state_ok_def)
  qed
  then show ?thesis by (simp add: state_ok_def)
qed

lemma reachable_state_persisted_witness:
  "load_settings (stored (edit_setting (Edit_api_key (js ''k'')) (fst (publish_core spec_env (fresh_plugin (\<lambda>_. [])) spec_note (js ''x'') False no_overrides))))
   = (settings (edit_setting (Edit_api_key (js ''k'')) (fst (publish_core spec_env (fresh_plugin (\<lambda>_. [])) spec_note (js ''x'') False no_overrides))),
      article_map (edit_setting (Edit_api_key (js ''k'')) (fst (publish_core spec_env (fresh_plugin (\<lambda>_. [])) spec_note (js ''x'') False no_overrides))))"
proof -
  have "plugin_step (fresh_plugin (\<lambda>_. [])) (fst (publish_core spec_env (fresh_plugin (\<lambda>_. [])) spec_note (js ''x'') False no_overrides))"
    by (rule plugin_step.publish)
  then have "plugin_step\<^sup>*\<^sup>* (fresh_plugin (\<lambda>_. []))
      (edit_setting (Edit_api_key (js ''k'')) (fst (publish_core spec_env (fresh_plugin (\<lambda>_. [])) spec_note (js ''x'') False no_overrides)))"
    by (meson r_into_rtranclp rtranclp.rtrancl_into_rtrancl plugin_step.settings_page)
  then show ?thesis using reachable_state_persisted by blast
qed

text \<open>C32. Progress of publishing: with a server that accepts every request and
  answers a non-zero numeric article id, from any state one publish step leads to a
  state whose identifier map records the note, whether the article was created by
  this step or already known.\<close>

theorem publish_step_records_note:
  assumes "\<forall>rq. net (http (env :: pub_env)) rq = Inr r" "rs_status r = 200" "rs_json r = Inr dt" "api_ok dt"
    and "get (get dt (js ''data'')) (js ''article_id'') = Num n" "n \<noteq> 0"
  shows "\<exists>st'. plugin_step st st' \<and> article_map st' (tf_path (tf :: tfile)) \<noteq> None"
proof -
  let ?st' = "fst (publish_core env st tf [] False no_overrides)"
  have "article_map ?st' (tf_path tf) \<noteq> None"
  proof (cases "nullish (map_entry st (tf_path tf))")
    case True
    then show ?thesis using publish_create_records_id[OF assms]
      by (simp add: publish_core_create Let_def)
  next
    case False
    then have "article_map st (tf_path tf) \<noteq> None" by (auto simp: map_entry_def nullish_def split: option.splits)
    then show ?thesis using False by (simp add: publish_core_update Let_def publish_update_map)
  qed
  then show ?thesis using plugin_step.publish by blast
qed

lemma publish_step_records_note_witness:
  "\<exists>st'. plugin_step spec_state st' \<and> article_map st' (js ''notes/a.md'') \<noteq> None"
  using publish_step_records_note[where env = spec_env and st = spec_state and tf = spec_note and n = 42
      and r = "\<lparr>rs_status = 200, rs_json = Inr (Obj [(js ''code'', Num 0), (js ''data'', Obj [(js ''article_id'', Num 42)])])\<rparr>"
      and dt = "Obj [(js ''code'', Num 0), (js ''data'', Obj [(js ''article_id'', Num 42)])]"]
  by (simp add: api_ok_def)

end
