(* ===== verification/Emlog_Sorts.thy ===== *)
theory Emlog_Sorts
  imports Emlog_Http
begin

text \<open>
  The category list of the settings page (\<open>flattenSorts\<close>,
  \<open>refreshSortOptions\<close>, \<open>populateSortDropdown\<close> and
  \<open>getSortNameByIdPublic\<close> of \<^verbatim>\<open>main.ts\<close>).  The server's category tree
  is a parsed JSON value; \<open>flattenSorts\<close> lists it in preorder with the depth of
  each node.  Reading a field of \<open>null\<close> or \<open>undefined\<close> throws a TypeError,
  which \<open>refreshSortOptions\<close> catches: \<open>flatten_sorts\<close> returns \<open>None\<close> then.
  The message of that TypeError is the engine's and is written
  \<open>type_error_msg\<close>.  \<open>this.cachedSorts\<close> is the list the refresh returns.
\<close>

record flat_sort =
  fs_id :: "int option"
  fs_name :: jstr
  fs_depth :: nat

definition unnamed :: jstr where
  "unnamed = [0x672A, 0x547D, 0x540D]"

definition type_error_msg :: jstr where
  "type_error_msg = js ''TypeError''"

text \<open>One entry: \<open>Number(s.sid ?? s.id ?? s.sort_id)\<close> and
  \<open>String(s.sortname ?? s.name ?? '\<dots>')\<close>.\<close>

definition sort_entry :: "jsval \<Rightarrow> nat \<Rightarrow> flat_sort" where
  "sort_entry s d =
     \<lparr>fs_id = to_number (js_coalesce (js_coalesce (get s (js ''sid'')) (get s (js ''id''))) (get s (js ''sort_id''))),
      fs_name = js_to_string (js_coalesce (js_coalesce (get s (js ''sortname'')) (get s (js ''name''))) (Str unnamed)),
      fs_depth = d\<rparr>"

function flatten_sorts :: "jsval list \<Rightarrow> nat \<Rightarrow> flat_sort list option" where
  "flatten_sorts [] d = Some []"
| "flatten_sorts (s # ss) d =
     (if nullish s then None
      else (let kids = (case get s (js ''children'') of
                          Arr cs \<Rightarrow> if cs \<noteq> [] then flatten_sorts cs (Suc d) else Some []
                        | _ \<Rightarrow> Some [])
            in case kids of
                 None \<Rightarrow> None
               | Some k \<Rightarrow> (case flatten_sorts ss d of
                              None \<Rightarrow> None
                            | Some r \<Rightarrow> Some (sort_entry s d # k @ r))))"
  by pat_completeness auto

termination flatten_sorts
  apply (relation "measure (\<lambda>(ss, d). size_list size ss)")
   apply simp_all
  subgoal premises prems for s ss cs
  proof -
    from prems(2) obtain k where g: "get s k = Arr cs" by blast
    show ?thesis
    proof (cases s)
      case (Obj ps)
      then have m: "(k, Arr cs) \<in> set ps" using g by (auto split: option.splits dest: map_of_SomeD)
      have "size (Arr cs) \<le> size_list (size_prod (\<lambda>_. 0) size) ps"
        by (rule size_list_estimation'[OF m]) simp
      then show ?thesis using Obj by simp
    qed (use g in simp_all)
  qed
  done

datatype sort_notice = Sorts_refreshed nat | Sorts_failed jstr

text \<open>\<open>refreshSortOptions\<close>: \<open>data.data.sorts\<close> or \<open>data.sorts\<close> when it is an
  array, else no categories; a failed request or a TypeError empties the cache.  The
  result is the requests sent, the new \<open>cachedSorts\<close> and the notice shown.\<close>

definition refresh_sort_options ::
  "emlog_settings \<Rightarrow> http_env \<Rightarrow> request list \<times> flat_sort list \<times> sort_notice" where
  "refresh_sort_options s env =
     (let (rqs, r) = http_get s env (js ''sort_list'') []
      in case r of
           Inl e \<Rightarrow> (rqs, [], Sorts_failed e)
         | Inr data \<Rightarrow>
             (let sorts = (case get (get data (js ''data'')) (js ''sorts'') of
                             Arr xs \<Rightarrow> xs
                           | _ \<Rightarrow> (case get data (js ''sorts'') of Arr xs \<Rightarrow> xs | _ \<Rightarrow> []))
              in case flatten_sorts sorts 0 of
                   None \<Rightarrow> (rqs, [], Sorts_failed type_error_msg)
                 | Some fl \<Rightarrow> (rqs, fl, Sorts_refreshed (length fl))))"

definition opt_unspecified :: jstr where
  "opt_unspecified = [0xFF08, 0x4E0D, 0x6307, 0x5B9A, 0xFF09]"

definition msg_not_loaded :: jstr where
  "msg_not_loaded = [0x5C1A, 0x672A, 0x52A0, 0x8F7D, 0x5206, 0x7C7B, 0xFF0C, 0x70B9, 0x51FB, 0x53F3, 0x4FA7, 0x5237, 0x65B0]"

definition msg_no_site :: jstr where
  "msg_no_site = [0x8BF7, 0x5148, 0x914D, 0x7F6E, 0x7AD9, 0x70B9, 0x5730, 0x5740]"

text \<open>\<open>populateSortDropdown\<close>: the options (value, label) added to the dropdown, in
  order.  A category's value is \<open>String(s.id)\<close> and its label is indented by two
  spaces per level.\<close>

definition populate_sort_dropdown :: "emlog_settings \<Rightarrow> flat_sort list \<Rightarrow> (jstr \<times> jstr) list" where
  "populate_sort_dropdown s cached =
     ([], opt_unspecified) #
     (if cached = [] then [(js ''__placeholder__'', if base_url s \<noteq> [] then msg_not_loaded else msg_no_site)]
      else map (\<lambda>c. (num_str (fs_id c), replicate (fs_depth c * 2) (ch CHR '' '') @ fs_name c)) cached)"

text \<open>\<open>getSortNameByIdPublic\<close>: \<open>null\<close>, \<open>undefined\<close> and \<open>''\<close> give \<open>null\<close>;
  otherwise the first cached category whose id is \<open>=== Number(id)\<close>, which never
  holds for \<open>NaN\<close>.\<close>

definition get_sort_name_by_id :: "flat_sort list \<Rightarrow> jsval \<Rightarrow> jstr option" where
  "get_sort_name_by_id cached v =
     (if nullish v \<or> v = Str [] then None
      else (case to_number v of
              None \<Rightarrow> None
            | Some n \<Rightarrow> map_option fs_name (find (\<lambda>c. fs_id c = Some n) cached)))"

text \<open>The label under the dropdown for the active note's \<open>sort_id\<close>
  (\<open>updateFrontmatterSortLabel\<close> of the settings page): \<open>None\<close> when no note is
  active, else the note's frontmatter (\<open>{}\<close> when it has none).  \<open>!id\<close> holds
  for \<open>null\<close>, \<open>0\<close> and \<open>NaN\<close>, and \<open>if (name)\<close> rejects an empty name.\<close>

datatype sort_label = Label_no_note | Label_unset | Label_named jstr int | Label_unmatched int

definition fm_sort_label :: "flat_sort list \<Rightarrow> jsval option \<Rightarrow> sort_label" where
  "fm_sort_label cached active =
     (case active of
        None \<Rightarrow> Label_no_note
      | Some fm \<Rightarrow>
          (let v = get fm (js ''sort_id'')
           in if nullish v then Label_unset
              else (case to_number v of
                      None \<Rightarrow> Label_unset
                    | Some n \<Rightarrow>
                        if n = 0 then Label_unset
                        else (case get_sort_name_by_id cached (Num n) of
                                Some nm \<Rightarrow> if nm \<noteq> [] then Label_named nm n else Label_unmatched n
                              | None \<Rightarrow> Label_unmatched n))))"

subsection \<open>The category tree the server describes\<close>

text \<open>The abstract tree of categories, its JSON encoding as EMLOG's \<open>sort_list\<close>
  sends it, and its preorder listing with depths: what the dropdown promises.\<close>

datatype sort_tree = Sort_node int jstr "sort_tree list"

fun sort_json :: "sort_tree \<Rightarrow> jsval" where
  "sort_json (Sort_node i n cs) =
     Obj [(js ''sid'', Num i), (js ''sortname'', Str n), (js ''children'', Arr (map sort_json cs))]"

fun preorder :: "nat \<Rightarrow> sort_tree list \<Rightarrow> flat_sort list" where
  "preorder d [] = []"
| "preorder d (Sort_node i n cs # ts) =
     \<lparr>fs_id = Some i, fs_name = n, fs_depth = d\<rparr> # preorder (Suc d) cs @ preorder d ts"

subsection \<open>An example tree\<close>

abbreviation sort_tree_ex :: "sort_tree list" where
  "sort_tree_ex \<equiv> [Sort_node 1 (js ''News'') [Sort_node 3 (js ''Local'') []], Sort_node 2 (js ''Tech'') []]"

abbreviation sort_env :: http_env where
  "sort_env \<equiv> \<lparr>net = (\<lambda>rq. Inr \<lparr>rs_status = 200, rs_json = Inr (Obj [(js ''code'', Num 0),
      (js ''data'', Obj [(js ''sorts'', Arr (map sort_json sort_tree_ex))])])\<rparr>), md5 = rev, now_ms = 5000\<rparr>"

subsection \<open>Lemmas\<close>

lemma flatten_sorts_json: "flatten_sorts (map sort_json ts) d = Some (preorder d ts)"
proof (induction d ts rule: preorder.induct)
  case (2 d i n cs ts)
  have k: "(if map sort_json cs \<noteq> [] then flatten_sorts (map sort_json cs) (Suc d) else Some [])
     = Some (preorder (Suc d) cs)" using "2.IH"(1) by (cases cs) simp_all
  show ?case using k "2.IH"(2) by (simp add: sort_entry_def js_simps)
qed simp

lemma refresh_sort_options_ok:
  "snd (http_get s env (js ''sort_list'') []) = Inr d \<Longrightarrow>
   refresh_sort_options s env =
     (fst (http_get s env (js ''sort_list'') []),
      (let sorts = (case get (get d (js ''data'')) (js ''sorts'') of
                      Arr xs \<Rightarrow> xs
                    | _ \<Rightarrow> (case get d (js ''sorts'') of Arr xs \<Rightarrow> xs | _ \<Rightarrow> []))
       in case flatten_sorts sorts 0 of
            None \<Rightarrow> ([], Sorts_failed type_error_msg)
          | Some fl \<Rightarrow> (fl, Sorts_refreshed (length fl))))"
  by (cases "http_get s env (js ''sort_list'') []")
     (simp add: refresh_sort_options_def Let_def split: option.split)

text \<open>C27. Refreshing the categories lists the server's category tree in preorder,
  each category with its numeric id, its name and its depth: \<open>flattenSorts\<close>
  implements the preorder listing of the tree \<open>sort_list\<close> describes.\<close>

theorem refresh_sort_options_refines:
  assumes "snd (http_get s env (js ''sort_list'') []) = Inr d"
    and "get (get d (js ''data'')) (js ''sorts'') = Arr (map sort_json ts)"
  shows "snd (refresh_sort_options s env) = (preorder 0 ts, Sorts_refreshed (length (preorder 0 ts)))"
  using assms by (simp add: refresh_sort_options_ok flatten_sorts_json)

lemma refresh_sort_options_refines_witness:
  "snd (refresh_sort_options (default_settings\<lparr>base_url := js ''http://b/''\<rparr>) sort_env)
     = (preorder 0 sort_tree_ex, Sorts_refreshed 3)"
  using refresh_sort_options_refines[where s = "default_settings\<lparr>base_url := js ''http://b/''\<rparr>"
      and env = sort_env and ts = sort_tree_ex
      and d = "Obj [(js ''code'', Num 0), (js ''data'', Obj [(js ''sorts'', Arr (map sort_json sort_tree_ex))])]"]
  by (simp add: http_get_def with_fallback_def attempt_def envelope_def api_ok_def Let_def)

text \<open>C28. Choosing a category in the dropdown and reading its name back agree: every
  cached category with a numeric id has an option whose value is that id, and
  \<open>getSortNameByIdPublic\<close> of that value is the name of the first cached
  category with the id.\<close>

theorem dropdown_value_selects_sort:
  assumes "c \<in> set cached" "fs_id c = Some i"
  shows "(int_str i, replicate (fs_depth c * 2) (ch CHR '' '') @ fs_name c) \<in> set (populate_sort_dropdown s cached)
    \<and> get_sort_name_by_id cached (Str (int_str i)) = Some (fs_name (hd (filter (\<lambda>x. fs_id x = Some i) cached)))"
proof
  show "(int_str i, replicate (fs_depth c * 2) (ch CHR '' '') @ fs_name c) \<in> set (populate_sort_dropdown s cached)"
  proof -
    have "(int_str i, replicate (fs_depth c * 2) (ch CHR '' '') @ fs_name c)
        \<in> (\<lambda>c. (num_str (fs_id c), replicate (fs_depth c * 2) (ch CHR '' '') @ fs_name c)) ` set cached"
      by (rule image_eqI[where x = c]) (simp_all add: assms num_str_def)
    moreover have "cached \<noteq> []" using assms(1) by auto
    ultimately show ?thesis by (simp add: populate_sort_dropdown_def)
  qed
  have "find (\<lambda>x. fs_id x = Some i) cached = Some (hd (filter (\<lambda>x. fs_id x = Some i) cached))"
    using assms by (induction cached) auto
  moreover have "int_str i \<noteq> []" by (simp add: int_str_def)
  moreover have "to_number (Str (int_str i)) = Some i" by (simp only: to_number.simps str_to_number_int_str)
  ultimately show "get_sort_name_by_id cached (Str (int_str i)) = Some (fs_name (hd (filter (\<lambda>x. fs_id x = Some i) cached)))"
    by (simp add: get_sort_name_by_id_def nullish_def)
qed

lemma dropdown_value_selects_sort_witness:
  "(int_str 3, js ''  Local'') \<in> set (populate_sort_dropdown default_settings (preorder 0 sort_tree_ex))
   \<and> get_sort_name_by_id (preorder 0 sort_tree_ex) (Str (int_str 3)) = Some (js ''Local'')"
  using dropdown_value_selects_sort[of "\<lparr>fs_id = Some 3, fs_name = js ''Local'', fs_depth = 1\<rparr>"
      "preorder 0 sort_tree_ex" 3 default_settings]
  by (simp add: numeral_2_eq_2)

text \<open>C29. A failed \<open>sort_list\<close> request empties the category cache and shows the
  error; a category entry that is \<open>null\<close> makes \<open>flattenSorts\<close> throw, which
  also empties the cache.\<close>

theorem refresh_sort_options_error:
  assumes "snd (http_get s env (js ''sort_list'') []) = Inl e"
  shows "snd (refresh_sort_options s env) = ([], Sorts_failed e)
    \<and> flatten_sorts (Null # xs) d = None"
  using assms by (cases "http_get s env (js ''sort_list'') []") (simp add: refresh_sort_options_def js_simps)

lemma refresh_sort_options_error_witness:
  "snd (refresh_sort_options default_settings \<lparr>net = (\<lambda>rq. Inl (js ''down'')), md5 = rev, now_ms = 5000\<rparr>)
     = ([], Sorts_failed (agg_error default_settings (js ''sort_list'') [] (js ''down'') (js ''down'')))
   \<and> flatten_sorts [Null] 0 = None"
  using refresh_sort_options_error[where s = default_settings
      and env = "\<lparr>net = (\<lambda>rq. Inl (js ''down'')), md5 = rev, now_ms = 5000\<rparr>"
      and e = "agg_error default_settings (js ''sort_list'') [] (js ''down'') (js ''down'')" and xs = "[]" and d = 0]
  by (simp add: http_get_def with_fallback_def attempt_def Let_def default_settings_def strip_slash_def)

end
