(* ===== verification/Emlog_Redact.thy ===== *)
theory Emlog_Redact
  imports Emlog_Images Emlog_Settings
begin

text \<open>
  The debug log and its redaction (\<open>debug\<close> and \<open>redactString\<close> of
  \<^verbatim>\<open>main.ts\<close>).  When \<open>enableDebug\<close> is set, every argument of a debug line is
  passed through \<open>safe\<close>: a string is redacted, an object or array is redacted in
  its \<open>JSON.stringify\<close> form, anything else is logged as it is.  Redaction replaces
  every occurrence of the API key (a regular expression built from
  \<open>escapeRegExp(apiKey)\<close>, which matches the key literally) by \<open>***\<close>, then every
  \<open>"req_sign"\<close> member holding at least 16 hexadecimal digits by a masked one.
  The lemmas show when the key can no longer be read in the result.
\<close>

definition dq :: cu where
  "dq = 0x22"

text \<open>\<open>new RegExp(this.escapeRegExp(k), 'g')\<close>: the escaped pattern matches \<open>k\<close>
  literally.\<close>

definition lit_at :: "jstr \<Rightarrow> matcher" where
  "lit_at k t = (if prefix k t then Some (length k, []) else None)"

definition is_hex :: "cu \<Rightarrow> bool" where
  "is_hex c \<longleftrightarrow> (48 \<le> c \<and> c \<le> 57) \<or> (65 \<le> c \<and> c \<le> 70) \<or> (97 \<le> c \<and> c \<le> 102)"

definition req_sign_key :: jstr where
  "req_sign_key = dq # js ''req_sign'' @ [dq]"

text \<open>\<^verbatim>\<open>/"req_sign"\s*:\s*"[a-fA-F0-9]{16,}"/g\<close>.  \<open>\s\<close> is \<open>is_ws\<close>; neither
  \<open>\s*\<close> nor the digit run can give anything back to what follows it, as \<open>:\<close> is
  not a space and \<open>"\<close> not a hexadecimal digit, so the greedy match is the only
  one.\<close>

definition req_sign_at :: matcher where
  "req_sign_at t =
     (if \<not> prefix req_sign_key t then None
      else (let r1 = drop 10 t; w1 = length (takeWhile is_ws r1) in
            case drop w1 r1 of
              [] \<Rightarrow> None
            | c # r3 \<Rightarrow>
                if c \<noteq> ch CHR '':'' then None
                else (let w2 = length (takeWhile is_ws r3) in
                      case drop w2 r3 of
                        [] \<Rightarrow> None
                      | q # r5 \<Rightarrow>
                          if q \<noteq> dq then None
                          else (let h = length (takeWhile is_hex r5) in
                                if 16 \<le> h \<and> take 1 (drop h r5) = [dq]
                                then Some (10 + w1 + 1 + w2 + 1 + h + 1, []) else None))))"

definition req_sign_mask :: jstr where
  "req_sign_mask = req_sign_key @ js '':'' @ [dq] @ js ''***'' @ [dq]"

definition redact_string :: "emlog_settings \<Rightarrow> jstr \<Rightarrow> jstr" where
  "redact_string s t =
     (let out = (if api_key s \<noteq> []
                 then greplace (lit_at (api_key s)) (\<lambda>pre m post caps. get_substitution m pre post caps (js ''***'')) t
                 else t)
      in greplace req_sign_at (\<lambda>pre m post caps. get_substitution m pre post caps req_sign_mask) out)"

text \<open>\<open>safe\<close>: what a debug argument is logged as.\<close>

definition debug_safe :: "emlog_settings \<Rightarrow> jsval \<Rightarrow> jsval" where
  "debug_safe s v =
     (case v of
        Str t \<Rightarrow> Str (redact_string s t)
      | Arr _ \<Rightarrow> Str (redact_string s (json_stringify v))
      | Obj _ \<Rightarrow> Str (redact_string s (json_stringify v))
      | _ \<Rightarrow> v)"

text \<open>\<open>debug(...args)\<close>: the arguments of the \<open>console.debug\<close> line written, or
  \<open>None\<close> when debugging is off.\<close>

definition debug :: "emlog_settings \<Rightarrow> jsval list \<Rightarrow> jsval list option" where
  "debug s args =
     (if \<not> enable_debug s then None
      else Some (Str (js ''[obsidian-emlog]'') # map (debug_safe s) args))"

subsection \<open>Lemmas\<close>

lemma no_dollar_star [simp]: "36 \<notin> set (js ''***'')"
  by (simp add: ch_def)

lemma no_dollar_mask [simp]: "36 \<notin> set req_sign_mask"
  by (simp add: req_sign_mask_def req_sign_key_def dq_def ch_def)

lemma prefix_takeWhile_sep:
  "prefix k xs \<Longrightarrow> c \<notin> set k \<Longrightarrow> prefix k (takeWhile (\<lambda>x. x \<noteq> c) xs)"
proof (induction k arbitrary: xs)
  case (Cons a k)
  then obtain ys where "xs = a # ys" "prefix k ys" by (cases xs) auto
  then show ?case using Cons by auto
qed simp

text \<open>A global replacement by a text that starts with \<open>c\<close>: up to the first \<open>c\<close>, the
  result is a prefix of the input.\<close>

lemma greplace_takeWhile_prefix:
  assumes "r \<noteq> []" "hd r = c" "\<And>a b d e. f a b d e = r"
  shows "prefix (takeWhile (\<lambda>x. x \<noteq> c) (greplace_from m f t i)) (drop i t)"
  using assms(3)
proof (induction m f t i rule: greplace_from.induct)
  case (1 m f t i)
  show ?case
  proof (cases "length t \<le> i")
    case False
    show ?thesis
    proof (cases "m (drop i t)")
      case None
      then have "prefix (takeWhile (\<lambda>x. x \<noteq> c) (greplace_from m f t (Suc i))) (drop (Suc i) t)"
        using "1.IH" "1.prems" False None by blast
      moreover have "drop i t = t ! i # drop (Suc i) t" using False by (simp add: Cons_nth_drop_Suc)
      ultimately show ?thesis using None False by (subst greplace_from.simps) auto
    next
      case (Some a)
      obtain n caps where a: "a = (n, caps)" by fastforce
      obtain x r' where r: "r = c # r'" using assms(1,2) by (cases r) auto
      have "greplace_from m f t i = r @ greplace_from m f t (i + max n 1)"
        using False Some a "1.prems" by (subst greplace_from.simps) simp
      then show ?thesis using r by simp
    qed
  qed simp
qed

text \<open>An occurrence of \<open>k\<close> that starts inside a text ending with \<open>c\<close> and runs past
  it contains \<open>c\<close>.\<close>

lemma sublist_after_sep:
  assumes "sublist k (xs @ ys)" "c \<notin> set k" "last xs = c" "\<not> sublist k xs"
  shows "sublist k ys"
proof -
  have "\<not> (\<exists>k1 k2. k = k1 @ k2 \<and> suffix k1 xs \<and> prefix k2 ys \<and> k1 \<noteq> [])"
  proof
    assume "\<exists>k1 k2. k = k1 @ k2 \<and> suffix k1 xs \<and> prefix k2 ys \<and> k1 \<noteq> []"
    then obtain k1 k2 where "k = k1 @ k2" "suffix k1 xs" "k1 \<noteq> []" by blast
    then have "last k1 = c" "last k1 \<in> set k" using assms(3) by (auto simp: suffix_def)
    then show False using assms(2) by simp
  qed
  moreover have "prefix k2 ys \<Longrightarrow> sublist k2 ys" for k2 by (rule prefix_imp_sublist)
  ultimately show ?thesis using assms(1,4) unfolding sublist_append by fastforce
qed

text \<open>The replacement by a text that begins and ends with \<open>c\<close> and does not hold
  \<open>k\<close> leaves no occurrence of a \<open>k\<close> free of \<open>c\<close>, provided \<open>k\<close> starts wherever the
  pattern does not match.\<close>

lemma greplace_hides:
  assumes "k \<noteq> []" "c \<notin> set k" "r \<noteq> []" "hd r = c" "last r = c" "\<not> sublist k r"
    and "\<And>a b d e. f a b d e = r"
    and "\<And>j. i \<le> j \<Longrightarrow> j < length t \<Longrightarrow> m (drop j t) = None \<Longrightarrow> \<not> prefix k (drop j t)"
  shows "\<not> sublist k (greplace_from m f t i)"
  using assms(7,8)
proof (induction m f t i rule: greplace_from.induct)
  case (1 m f t i)
  show ?case
  proof (cases "length t \<le> i")
    case True
    then show ?thesis using assms(1) by simp
  next
    case False
    show ?thesis
    proof (cases "m (drop i t)")
      case None
      have rest: "\<not> sublist k (greplace_from m f t (Suc i))"
        using "1.IH" "1.prems" False None by (meson Suc_leD)
      have eq: "greplace_from m f t i = t ! i # greplace_from m f t (Suc i)"
        using False None by (subst greplace_from.simps) simp
      have "\<not> prefix k (greplace_from m f t i)"
      proof
        assume "prefix k (greplace_from m f t i)"
        then have "prefix k (takeWhile (\<lambda>x. x \<noteq> c) (greplace_from m f t i))"
          using assms(2) by (rule prefix_takeWhile_sep)
        then have "prefix k (drop i t)"
          using greplace_takeWhile_prefix[OF assms(3,4) "1.prems"(1)] by (rule prefix_order.trans)
        then show False using "1.prems"(2)[of i] False None by simp
      qed
      then show ?thesis using rest eq by (simp add: sublist_Cons_right)
    next
      case (Some a)
      obtain n caps where a: "a = (n, caps)" by fastforce
      have h: "\<And>j. i + max n 1 \<le> j \<Longrightarrow> j < length t \<Longrightarrow> m (drop j t) = None \<Longrightarrow> \<not> prefix k (drop j t)"
        using "1.prems"(2) by simp
      have rest: "\<not> sublist k (greplace_from m f t (i + max n 1))"
        by (rule "1.IH"(2)[OF False Some a[symmetric] "1.prems"(1) h])
      have "greplace_from m f t i = r @ greplace_from m f t (i + max n 1)"
        using False Some a "1.prems" by (subst greplace_from.simps) simp
      then show ?thesis using rest sublist_after_sep[OF _ assms(2,5,6)] by metis
    qed
  qed
qed

lemma sublist_set: "sublist k r \<Longrightarrow> set k \<subseteq> set r"
  by (auto simp: sublist_def)

lemma sublist_drop_prefix: "prefix k (drop j u) \<Longrightarrow> sublist k u"
  by (rule sublist_order.order.trans[OF prefix_imp_sublist suffix_imp_sublist[OF suffix_drop]])

lemma redact_key_hidden:
  assumes "k \<noteq> []" "ch CHR ''*'' \<notin> set k"
  shows "\<not> sublist k (greplace (lit_at k) (\<lambda>pre m post caps. get_substitution m pre post caps (js ''***'')) t)"
proof -
  have nk: "\<not> sublist k (js ''***'')"
  proof
    assume "sublist k (js ''***'')"
    then have "set k \<subseteq> set (js ''***'')" by (rule sublist_set)
    then have "set k \<subseteq> {ch CHR ''*''}" by simp
    then show False using assms by (cases k) auto
  qed
  show ?thesis unfolding greplace_def
  proof (rule greplace_hides[where r = "js ''***''", OF assms(1,2) _ _ _ nk])
    show "get_substitution m pre post caps (js ''***'') = js ''***''" for m pre post caps
      by (rule get_substitution_no_dollar[OF no_dollar_star])
    show "\<not> prefix k (drop j t)" if "lit_at k (drop j t) = None" for j
      using that by (simp add: lit_at_def split: if_splits)
  qed simp_all
qed

lemma redact_req_sign_hidden:
  assumes "k \<noteq> []" "dq \<notin> set k" "\<not> sublist k req_sign_mask" "\<not> sublist k u"
  shows "\<not> sublist k (greplace req_sign_at (\<lambda>pre m post caps. get_substitution m pre post caps req_sign_mask) u)"
  unfolding greplace_def
proof (rule greplace_hides[where r = req_sign_mask, OF assms(1,2) _ _ _ assms(3)])
  show "get_substitution m pre post caps req_sign_mask = req_sign_mask" for m pre post caps
    by (rule get_substitution_no_dollar[OF no_dollar_mask])
  show "\<not> prefix k (drop j u)" for j
    using assms(4) sublist_drop_prefix by blast
qed (simp_all add: req_sign_mask_def req_sign_key_def)

text \<open>C31. Redaction hides the API key: when the key is not empty and holds neither
  \<open>*\<close> nor \<open>"\<close> (nor is part of the masked \<open>req_sign\<close> member), no text redacted by
  \<open>redactString\<close>, and so no string, object or array a debug line logs, contains
  the key.\<close>

theorem redact_string_hides_key:
  assumes "api_key s \<noteq> []" "ch CHR ''*'' \<notin> set (api_key s)" "dq \<notin> set (api_key s)"
    and "\<not> sublist (api_key s) req_sign_mask"
  shows "\<not> sublist (api_key s) (redact_string s t)"
proof -
  have "\<not> sublist (api_key s) (greplace (lit_at (api_key s))
      (\<lambda>pre m post caps. get_substitution m pre post caps (js ''***'')) t)"
    by (rule redact_key_hidden[OF assms(1,2)])
  then show ?thesis unfolding redact_string_def Let_def if_P[OF assms(1)]
    by (rule redact_req_sign_hidden[OF assms(1,3,4)])
qed

lemma redact_string_hides_key_witness:
  "\<not> sublist (js ''k3y'') (redact_string (default_settings\<lparr>api_key := js ''k3y''\<rparr>) (js ''key=k3y;''))"
proof -
  have "\<not> sublist (js ''k3y'') req_sign_mask"
    by (simp add: req_sign_mask_def req_sign_key_def dq_def sublist_Cons_right)
  moreover have "dq \<notin> set (js ''k3y'')" by (simp add: dq_def ch_def)
  moreover have "ch CHR ''*'' \<notin> set (js ''k3y'')" by simp
  ultimately show ?thesis
    using redact_string_hides_key[of "default_settings\<lparr>api_key := js ''k3y''\<rparr>" "js ''key=k3y;''"] by simp
qed

text \<open>A key that contains \<open>*\<close> can survive redaction: with the key \<open>a*\<close>,
  \<open>aa*\<close> is redacted to \<open>a***\<close>, which still contains the key.\<close>

theorem redact_star_key_leaks:
  "redact_string (default_settings\<lparr>api_key := js ''a*''\<rparr>) (js ''aa*'') = js ''a***''
   \<and> sublist (js ''a*'') (redact_string (default_settings\<lparr>api_key := js ''a*''\<rparr>) (js ''aa*''))"
  by code_simp

end
