(* ===== verification/Spec2Isabelle.thy ===== *)
theory Spec2Isabelle
  imports Emlog_Session Emlog_Sorts Emlog_Redact
begin

text \<open>
  \<^bold>\<open>obsidian-emlog, verified.\<close>  A verification development for
  \<^verbatim>\<open>src/obsidian-emlog/main.ts\<close>, an Obsidian plugin that publishes notes to
  an EMLOG blog through its REST API.  The plugin class \<open>ObsidianEmlogPlugin\<close>
  holds the settings and a map from note paths to article ids, persisted together
  in \<open>data.json\<close>.  Publishing a note strips its YAML header, derives
  title and excerpt, rewrites local images, sends \<open>article_post\<close> or
  \<open>article_update\<close> through an authenticated form request with a fallback URL,
  records the returned id, runs the post action (open or copy the article's
  link) and writes the result back into the note's header.  The settings page
  edits the settings and fetches the blog's categories; a debug log redacts the API
  key.

  \<^bold>\<open>The model.\<close>  Every part is a shallow embedding of the source.
  \<^item> Strings are lists of UTF-16 code units (\<open>cu = 16 word\<close>), so lengths and
    slices count as JavaScript does.
  \<^item> Parsed JSON is the datatype \<open>jsval\<close>.  Its numbers are integers or
    \<open>NaN\<close> (\<open>Num_NaN\<close>), and \<open>Number(v)\<close> is an \<open>int option\<close> in which
    \<open>None\<close> is \<open>NaN\<close>.
  \<^item> Regular expressions are hand-translated matchers, and a global \<open>replace\<close> is
    a scan over positions (\<open>greplace_from\<close>, terminating by the measure
    \<open>length s - i\<close>).
  \<^item> Errors are values: a thrown error is \<open>Inl\<close> of its message.
  \<^item> Effects are returned: the requests sent, notices, and the links opened or
    copied form an \<open>event list\<close>.
  \<^item> The environment is a parameter.  The transport is a function from request
    to response or error; md5, the clock, the vault's file list, the metadata cache
    and the uploader are the remaining parameters.
  No function of the model needs fuel: every loop of the source runs over a finite
  list or a finite tree.

  \<^bold>\<open>Theories and the code they model.\<close>
  \<^descr>[\<open>Emlog_Prelude\<close>] The JavaScript string and value model: \<open>startsWith\<close>,
    \<open>indexOf\<close>, \<open>slice\<close>, \<open>trim\<close>, \<open>split\<close>, \<open>join\<close>, \<open>String(v)\<close>,
    \<open>Number(v)\<close>, \<open>JSON.stringify\<close>, the replacement patterns of
    \<open>String.replace\<close>, and \<open>URLSearchParams\<close> encoding (a model of the
    platform serializer, not of the plugin's code).  It also holds the
    lemmas the components share, among them that a number printed by \<open>String\<close>
    is read back by \<open>Number\<close>.
  \<^descr>[\<open>Emlog_FrontMatter\<close>] \<open>removeFromContent\<close> and \<open>upsertFrontmatterKeys\<close>:
    the metadata-cache branch, the text-scan fallback and the new header block.
  \<^descr>[\<open>Emlog_Settings\<close>] \<open>EmlogSettings\<close>, \<open>DEFAULT_SETTINGS\<close>,
    \<open>loadSettings\<close> (both stored shapes) and \<open>saveState\<close>.
  \<^descr>[\<open>Emlog_Metadata\<close>] \<open>deriveTitle\<close>, \<open>deriveExcerpt\<close> and the field
    resolution of \<open>publishCore\<close>.  It also holds the initial values of
    \<open>PublishModal\<close> and the overrides the dialog produces.
  \<^descr>[\<open>Emlog_Http\<close>] \<open>httpForm\<close> and \<open>httpGet\<close>: signing, the three
    authentication modes, the envelope check, the fallback URL and the aggregated
    error.
  \<^descr>[\<open>Emlog_Images\<close>] \<open>processImages\<close>, \<open>joinPath\<close>, \<open>resolveFile\<close> and
    \<open>escapeRegExp\<close>.
  \<^descr>[\<open>Emlog_Publish\<close>] \<open>publishCore\<close> (create and update branches), then
    \<open>fetchArticleUrlById\<close>, \<open>performPostAction\<close>, \<open>formatDate\<close> and
    \<open>publishNote\<close>.
  \<^descr>[\<open>Emlog_Session\<close>] The plugin over time, as the step relation
    \<open>plugin_step\<close>.  Its steps are \<open>publishCore\<close>, the settings page's
    \<open>onChange\<close> handlers with \<open>saveSettings\<close>, edits of notes, and restarts
    (\<open>onload\<close>, \<open>loadSettings\<close>).  The publish commands
    (\<open>getActiveMarkdown\<close>, \<open>publishCurrentNote\<close>, the file menu's items)
    are shown to act on the plugin only through such steps.
  \<^descr>[\<open>Emlog_Sorts\<close>] \<open>flattenSorts\<close>, \<open>refreshSortOptions\<close>,
    \<open>populateSortDropdown\<close>, \<open>getSortNameByIdPublic\<close> and the settings page's
    category label.  It also holds an abstract category tree with its preorder
    listing.
  \<^descr>[\<open>Emlog_Redact\<close>] \<open>debug\<close> and \<open>redactString\<close>.

  \<^bold>\<open>What is proved.\<close>
  \<^item> Front matter (C1 to C5): written keys read back, other keys are kept, the
    two branches agree, and removal after an upsert returns the same body.  A new
    block holds one line per key and is stripped again by \<open>removeFromContent\<close>.
  \<^item> Settings (C6): saving then loading is the identity, and the legacy shape is
    migrated.
  \<^item> Metadata (C7 to C12): title tiers and excerpt bounds (at most 153 code units).
    A surrogate pair cut at unit 150 reaches the server as U+FFFD.  Two
    theorems show that the \<open>defaultDraft\<close> and \<open>allowRemark\<close> settings do
    not influence a quick publish.
  \<^item> HTTP (C13 to C18): mutating endpoints are always signed, and fallback,
    envelope and error aggregation behave as coded.  Only status 200 is accepted.
  \<^item> Images (C19 to C21): without an uploader nothing changes.  \<open>joinPath\<close>
    resolves a relative reference against the note's folder (\<open>./\<close> and \<open>../\<close>
    included).  \<open>escapeRegExp\<close> yields a literal regular expression denoting
    exactly its input.
  \<^item> Publishing (C22 to C26): a second publish updates, and a failure keeps the
    state.  The hint is chosen from the whole message, and drafts never open or copy
    a link.  \<open>formatDate\<close>'s text reads back as its fields.
  \<^item> Categories (C27 to C29): \<open>flattenSorts\<close> refines the preorder listing of the
    tree.  The dropdown value reads back to the category's name, and errors empty
    the cache.
  \<^item> Session (C30, C32): in every session started without a data file, the
    persisted blob always reads back as the state in memory.  A publish step with
    a responsive server records the note.
  \<^item> Redaction (C31): the API key is hidden under stated conditions on the key.
  \<^item> Findings on fixed inputs, proved as lemmas rather than claims:
    \<^item> the key-pattern bugs (\<open>upsert_overwrites_s_suffixed_key\<close>,
      \<open>upsert_duplicates_spaced_key\<close>);
    \<^item> the kept alt text (\<open>process_images_keeps_md_alt\<close>);
    \<^item> absolute paths that are not normalised
      (\<open>join_path_absolute_unnormalised\<close>);
    \<^item> the documented end-to-end scenario (\<open>publish_spec_scenario\<close>);
    \<^item> a key with \<open>*\<close> surviving redaction (\<open>redact_star_key_leaks\<close>).

  \<^bold>\<open>Not modelled.\<close>
  \<^item> The Obsidian UI.  This covers the widgets of \<open>EmlogSettingTab\<close>,
    \<open>EmlogPanelView\<close> and \<open>PublishModal\<close> (DOM construction and event wiring),
    the commands, the ribbon and the status bar.  Their handlers that change state
    are modelled where they do.
  \<^item> The notices' Chinese message texts, and \<open>console\<close> output beyond the
    logged arguments.
  \<^item> Values of a wrong JSON type in \<open>data.json\<close>.
  \<^item> Fractional and exponent numerals, which lie outside the integer model of
    numbers.
  \<^item> The engine's text of a TypeError message.
  \<^item> The tests under \<^verbatim>\<open>src/obsidian-emlog/tests/\<close>, which need the network.
  \<^item> The obsidian and md5 libraries, which the source only calls; they appear as
    parameters.
\<close>

end
